theory Spec2Isabelle
  imports Main
begin

section \<open>The chat server's connection manager\<close>

text \<open>
  A shallow embedding of \<^verbatim>\<open>demo-chat/server/models.py\<close>, of the class
  \<^verbatim>\<open>ConnectionManager\<close> of \<^verbatim>\<open>demo-chat/server/websocket_handler.py\<close>, and of the
  receiving loop of \<^verbatim>\<open>websocket_endpoint\<close> in \<^verbatim>\<open>demo-chat/server/main.py\<close>.

  Conventions of the embedding:
  \<^item> Python \<^verbatim>\<open>str\<close> is \<open>string\<close>: the bytes of the UTF-8 encoding of the text, so that
    equality, emptiness and concatenation are those of the text. The methods
    \<^verbatim>\<open>str.upper\<close> and \<^verbatim>\<open>str.strip\<close> follow the Unicode tables of the Python runtime,
    which are no code of this repository: they are the functions \<open>str_upper\<close> and
    \<open>str_strip\<close> of the argument \<open>env\<close>; nothing is assumed of them but where a theorem
    states it.
  \<^item> A \<^verbatim>\<open>dict\<close> is a map; \<^verbatim>\<open>d.get(k)\<close> is \<open>d k\<close> and \<^verbatim>\<open>d.get(k, v)\<close> is \<open>get d k v\<close>.
  \<^item> A text frame that \<^verbatim>\<open>json.loads\<close> decodes is a \<open>request\<close>: either a JSON object, a
    dictionary from field names to strings (the value type that the payload schemas of
    \<^verbatim>\<open>models.py\<close> declare for every field), or a JSON value of another Python type
    (\<^verbatim>\<open>list\<close>, \<^verbatim>\<open>str\<close>, \<^verbatim>\<open>int\<close>, \<^verbatim>\<open>float\<close>, \<^verbatim>\<open>bool\<close>, \<^verbatim>\<open>NoneType\<close>), which has no method
    \<^verbatim>\<open>get\<close>.
  \<^item> The manager's dictionaries are the fields of the record \<open>manager\<close>. The web sockets
    of \<^verbatim>\<open>active_connections\<close> are kept as the set of connected user ids, and every call
    of \<^verbatim>\<open>websocket.send_json\<close> is logged, in order, in the field \<open>sent\<close>.
  \<^item> What a request takes from outside the repository is the argument \<open>env\<close>: the
    string of \<^verbatim>\<open>uuid.uuid4()\<close>, the draws of \<^verbatim>\<open>random.choices\<close>, the reading of the clock
    \<^verbatim>\<open>datetime.now()\<close> (one reading for the request), and the two string methods.
  \<^item> An exception that leaves a method is the value \<open>Inl (e, s)\<close>, where \<open>s\<close> is the
    manager as the method left it; \<open>Inr s\<close> is a normal return.
  \<^item> Each request is processed to its end before the next one starts.
  \<^item> The leading underscore of the private methods is dropped from their names.
\<close>

subsection \<open>Python strings and lists\<close>

definition truthy :: "string \<Rightarrow> bool" where
  "truthy s = (s \<noteq> [])"

text \<open>
  What \<^verbatim>\<open>str.upper\<close> and \<^verbatim>\<open>str.strip\<close> do on ASCII text: the letters \<open>a\<close> to \<open>z\<close> go to
  \<open>A\<close> to \<open>Z\<close>; the characters removed at both ends are those of the codes 9 to 13 and
  28 to 32. The sample sessions, whose texts are ASCII, take these two functions for the
  methods of the runtime.
\<close>

definition ascii_upper_char :: "char \<Rightarrow> char" where
  "ascii_upper_char c =
     (let n = (of_char c :: nat) in if 97 \<le> n \<and> n \<le> 122 then char_of (n - 32) else c)"

definition ascii_upper :: "string \<Rightarrow> string" where
  "ascii_upper s = map ascii_upper_char s"

definition ascii_space :: "char \<Rightarrow> bool" where
  "ascii_space c =
     (let n = (of_char c :: nat) in (9 \<le> n \<and> n \<le> 13) \<or> (28 \<le> n \<and> n \<le> 32))"

definition ascii_strip :: "string \<Rightarrow> string" where
  "ascii_strip s = rev (dropWhile ascii_space (rev (dropWhile ascii_space s)))"

text \<open>The slice \<^verbatim>\<open>xs[-n:]\<close> for a positive \<open>n\<close>: the last \<open>n\<close> elements, or all of them.\<close>

definition last_n :: "nat \<Rightarrow> 'a list \<Rightarrow> 'a list" where
  "last_n n xs = drop (length xs - n) xs"

definition get :: "(string \<rightharpoonup> 'a) \<Rightarrow> string \<Rightarrow> 'a \<Rightarrow> 'a" where
  "get d k v = (case d k of None \<Rightarrow> v | Some x \<Rightarrow> x)"

subsection \<open>models.py\<close>

record env =
  gen_id :: string
  rnd :: "nat \<Rightarrow> nat"
  now :: nat
  str_upper :: "string \<Rightarrow> string"
  str_strip :: "string \<Rightarrow> string"

text \<open>\<^verbatim>\<open>string.ascii_uppercase + string.digits\<close>\<close>

definition code_alphabet :: string where
  "code_alphabet = ''ABCDEFGHIJKLMNOPQRSTUVWXYZ0123456789''"

text \<open>
  \<^verbatim>\<open>''.join(random.choices(string.ascii_uppercase + string.digits, k=6))\<close>: six draws,
  each an index into the alphabet.
\<close>

definition generate_room_code :: "(nat \<Rightarrow> nat) \<Rightarrow> string" where
  "generate_room_code r = map (\<lambda>i. code_alphabet ! (r i mod length code_alphabet)) [0..<6]"

record member =
  member_id :: string
  member_name :: string
  member_language :: string
  is_host :: bool
  joined_at :: nat

record message =
  message_id :: string
  message_room_id :: string
  sender_id :: string
  sender_name :: string
  message_text :: string
  source_lang :: string
  timestamp :: nat

record room =
  room_id :: string
  room_code :: string
  room_name :: string
  host_id :: string
  created_at :: nat

record user =
  user_id :: string
  user_name :: string
  user_language :: string
  user_room_id :: "string option"

text \<open>\<^verbatim>\<open>User(id=user_id)\<close>\<close>

definition new_user :: "string \<Rightarrow> user" where
  "new_user uid =
     \<lparr>user_id = uid, user_name = ''Anonymous'', user_language = ''en'', user_room_id = None\<rparr>"

definition to_member :: "user \<Rightarrow> bool \<Rightarrow> nat \<Rightarrow> member" where
  "to_member u h t =
     \<lparr>member_id = user_id u, member_name = user_name u, member_language = user_language u,
      is_host = h, joined_at = t\<rparr>"

text \<open>
  \<^verbatim>\<open>if user.room_id:\<close> holds for a room id that is neither \<^verbatim>\<open>None\<close> nor empty;
  \<open>current_room\<close> is the room id in that case.
\<close>

definition current_room :: "user \<Rightarrow> string option" where
  "current_room u =
     (case user_room_id u of None \<Rightarrow> None | Some r \<Rightarrow> if truthy r then Some r else None)"

definition in_room :: "user \<Rightarrow> bool" where
  "in_room u = (current_room u \<noteq> None)"

text \<open>The outbound events, one constructor for each dictionary the manager sends.\<close>

datatype event =
    Connected string
  | RoomCreated string string room "member list"
  | RoomJoined room "member list" "message list"
  | UserJoined member bool
  | UserLeft string string
  | NewMessage message
  | RoomInfo room "member list"
  | ProfileUpdated member
  | Error string string
  | Pong

subsection \<open>websocket\_handler.py\<close>

record manager =
  active_connections :: "string set"
  users :: "string \<rightharpoonup> user"
  rooms :: "string \<rightharpoonup> room"
  room_codes :: "string \<rightharpoonup> string"
  room_members :: "string \<rightharpoonup> string list"
  room_messages :: "string \<rightharpoonup> message list"
  sent :: "(string \<times> event) list"

definition init :: manager where
  "init = \<lparr>active_connections = {}, users = Map.empty, rooms = Map.empty,
           room_codes = Map.empty, room_members = Map.empty, room_messages = Map.empty,
           sent = []\<rparr>"

datatype exn = KeyError string | AttributeError string

text \<open>\<^verbatim>\<open>str(e)\<close> of a \<^verbatim>\<open>KeyError\<close> is the \<^verbatim>\<open>repr\<close> of the missing key.\<close>

fun str_exn :: "exn \<Rightarrow> string" where
  "str_exn (KeyError k) = [CHR 39] @ k @ [CHR 39]"
| "str_exn (AttributeError m) = m"

type_synonym outcome = "(exn \<times> manager) + manager"

definition send_personal_message :: "event \<Rightarrow> string \<Rightarrow> manager \<Rightarrow> manager" where
  "send_personal_message ev uid s =
     (if uid \<in> active_connections s then s\<lparr>sent := sent s @ [(uid, ev)]\<rparr> else s)"

text \<open>\<^verbatim>\<open>if exclude_user and member_id == exclude_user: continue\<close>\<close>

definition excluded :: "string option \<Rightarrow> string \<Rightarrow> bool" where
  "excluded exclude_user mid =
     (case exclude_user of None \<Rightarrow> False | Some e \<Rightarrow> truthy e \<and> mid = e)"

definition broadcast_to_room :: "event \<Rightarrow> string \<Rightarrow> string option \<Rightarrow> manager \<Rightarrow> manager" where
  "broadcast_to_room ev rid exclude_user s =
     (case room_members s rid of
        None \<Rightarrow> s
      | Some ms \<Rightarrow>
          fold (\<lambda>mid s'. if excluded exclude_user mid then s'
                          else send_personal_message ev mid s') ms s)"

definition send_error :: "string \<Rightarrow> string \<Rightarrow> string \<Rightarrow> manager \<Rightarrow> manager" where
  "send_error uid code msg s = send_personal_message (Error code msg) uid s"

definition connect :: "string \<Rightarrow> manager \<Rightarrow> manager" where
  "connect uid s =
     send_personal_message (Connected uid) uid
       (s\<lparr>active_connections := insert uid (active_connections s),
          users := (users s)(uid \<mapsto> new_user uid)\<rparr>)"

text \<open>Each deletion of \<^verbatim>\<open>_cleanup_room\<close> is guarded by a membership test of the key.\<close>

definition cleanup_room :: "string \<Rightarrow> manager \<Rightarrow> manager" where
  "cleanup_room rid s =
     (let s1 = (case rooms s rid of
                  None \<Rightarrow> s
                | Some r \<Rightarrow> s\<lparr>room_codes := (room_codes s)(room_code r := None)\<rparr>)
      in s1\<lparr>rooms := (rooms s1)(rid := None),
            room_members := (room_members s1)(rid := None),
            room_messages := (room_messages s1)(rid := None)\<rparr>)"

definition leave_room :: "string \<Rightarrow> manager \<Rightarrow> manager" where
  "leave_room uid s =
     (case users s uid of
        None \<Rightarrow> s
      | Some u \<Rightarrow>
         (case user_room_id u of
            None \<Rightarrow> s
          | Some rid \<Rightarrow>
             if \<not> truthy rid then s
             else
               let r = rooms s rid;
                   s1 = (case room_members s rid of
                           None \<Rightarrow> s
                         | Some ms \<Rightarrow>
                             if uid \<in> set ms
                             then s\<lparr>room_members := (room_members s)(rid \<mapsto> remove1 uid ms)\<rparr>
                             else s);
                   s2 = (case r of
                           None \<Rightarrow> s1
                         | Some _ \<Rightarrow> broadcast_to_room (UserLeft uid (user_name u)) rid None s1);
                   s3 = s2\<lparr>users := (users s2)(uid \<mapsto> u\<lparr>user_room_id := None\<rparr>)\<rparr>
               in (case room_members s3 rid of
                     None \<Rightarrow> s3
                   | Some ms \<Rightarrow> if length ms = 0 then cleanup_room rid s3 else s3)))"

definition handle_leave_room :: "string \<Rightarrow> manager \<Rightarrow> manager" where
  "handle_leave_room uid s = leave_room uid s"

definition disconnect :: "string \<Rightarrow> manager \<Rightarrow> manager" where
  "disconnect uid s =
     (case users s uid of
        None \<Rightarrow> s
      | Some u \<Rightarrow>
          let s1 = (if in_room u then leave_room uid s else s)
          in s1\<lparr>active_connections := active_connections s1 - {uid},
                users := (users s1)(uid := None)\<rparr>)"

text \<open>
  The handlers hold the \<^verbatim>\<open>User\<close> object itself, so the assignments to its attributes
  after \<^verbatim>\<open>_leave_room\<close> act on the entry of \<^verbatim>\<open>self.users\<close>; both handlers assign every
  attribute but the id.
\<close>

definition handle_create_room :: "string \<Rightarrow> (string \<rightharpoonup> string) \<Rightarrow> env \<Rightarrow> manager \<Rightarrow> manager" where
  "handle_create_room uid data e s =
     (case users s uid of
        None \<Rightarrow> s
      | Some u \<Rightarrow>
          let s1 = (if in_room u then leave_room uid s else s);
              rname = get data ''roomName'' ''New Room'';
              hname = get data ''hostName'' ''Host'';
              language = get data ''language'' ''en'';
              r = \<lparr>room_id = gen_id e, room_code = generate_room_code (rnd e),
                   room_name = rname, host_id = uid, created_at = now e\<rparr>;
              u' = u\<lparr>user_name := hname, user_language := language,
                     user_room_id := Some (room_id r)\<rparr>;
              s2 = s1\<lparr>users := (users s1)(uid \<mapsto> u'),
                      rooms := (rooms s1)(room_id r \<mapsto> r),
                      room_codes := (room_codes s1)(room_code r \<mapsto> room_id r),
                      room_members := (room_members s1)(room_id r \<mapsto> [uid]),
                      room_messages := (room_messages s1)(room_id r \<mapsto> [])\<rparr>
          in send_personal_message
               (RoomCreated (room_id r) (room_code r) r [to_member u' True (now e)]) uid s2)"

text \<open>The list comprehension over the members that are registered users.\<close>

definition member_list :: "manager \<Rightarrow> room \<Rightarrow> nat \<Rightarrow> string list \<Rightarrow> member list" where
  "member_list s r t ms =
     List.map_filter
       (\<lambda>mid. case users s mid of
                 None \<Rightarrow> None
               | Some mu \<Rightarrow> Some (to_member mu (mid = host_id r) t)) ms"

text \<open>
  The lookup under \<^verbatim>\<open># Find room\<close>: the room id and the room of a code, unless
  \<^verbatim>\<open>not room_id or room_id not in self.rooms\<close>.
\<close>

definition find_room :: "manager \<Rightarrow> string \<Rightarrow> (string \<times> room) option" where
  "find_room s rcode =
     (case room_codes s rcode of
        None \<Rightarrow> None
      | Some rid \<Rightarrow> if \<not> truthy rid then None else map_option (Pair rid) (rooms s rid))"

definition handle_join_room :: "string \<Rightarrow> (string \<rightharpoonup> string) \<Rightarrow> env \<Rightarrow> manager \<Rightarrow> outcome" where
  "handle_join_room uid data e s =
     (case users s uid of
        None \<Rightarrow> Inr s
      | Some u \<Rightarrow>
          let rcode = str_upper e (get data ''roomCode'' '''');
              uname = get data ''userName'' ''Guest'';
              language = get data ''language'' ''en''
          in (case find_room s rcode of
                None \<Rightarrow> Inr (send_error uid ''INVALID_ROOM_CODE'' ''Room not found'' s)
              | Some (rid, r) \<Rightarrow>
                  let s1 = (if in_room u then leave_room uid s else s);
                      u' = u\<lparr>user_name := uname, user_language := language,
                             user_room_id := Some rid\<rparr>;
                      s2 = s1\<lparr>users := (users s1)(uid \<mapsto> u')\<rparr>
                  in (case room_members s2 rid of
                        None \<Rightarrow> Inl (KeyError rid, s2)
                      | Some ms \<Rightarrow>
                          let ms' = (if uid \<notin> set ms then ms @ [uid] else ms);
                              s3 = s2\<lparr>room_members := (room_members s2)(rid \<mapsto> ms')\<rparr>;
                              members = member_list s3 r (now e) ms';
                              recent = last_n 50 (get (room_messages s3) rid []);
                              s4 = send_personal_message (RoomJoined r members recent) uid s3
                          in Inr (broadcast_to_room
                                    (UserJoined (to_member u' False (now e)) False)
                                    rid (Some uid) s4))))"

text \<open>
  \<^verbatim>\<open>Message(room_id=user.room_id, sender_id=user_id, sender_name=user.name, text=text,
  source_lang=user.language)\<close>, with the id and the time stamp that its default factories draw.
\<close>

definition new_message :: "env \<Rightarrow> string \<Rightarrow> string \<Rightarrow> user \<Rightarrow> string \<Rightarrow> message" where
  "new_message e rid uid u txt =
     \<lparr>message_id = gen_id e, message_room_id = rid, sender_id = uid,
      sender_name = user_name u, message_text = txt,
      source_lang = user_language u, timestamp = now e\<rparr>"

definition handle_send_message :: "string \<Rightarrow> (string \<rightharpoonup> string) \<Rightarrow> env \<Rightarrow> manager \<Rightarrow> manager" where
  "handle_send_message uid data e s =
     (case users s uid of
        None \<Rightarrow> s
      | Some u \<Rightarrow>
         (case current_room u of
            None \<Rightarrow> send_error uid ''NOT_IN_ROOM'' ''You must join a room first'' s
          | Some rid \<Rightarrow>
              let txt = str_strip e (get data ''text'' '''')
              in if \<not> truthy txt then s
               else
                 let m = new_message e rid uid u txt;
                     s1 = (case room_messages s rid of
                             None \<Rightarrow> s
                           | Some h \<Rightarrow>
                               let h' = h @ [m]
                               in s\<lparr>room_messages := (room_messages s)
                                      (rid \<mapsto> (if length h' > 100 then last_n 100 h' else h'))\<rparr>)
                 in broadcast_to_room (NewMessage m) rid None s1))"

definition handle_update_profile :: "string \<Rightarrow> (string \<rightharpoonup> string) \<Rightarrow> env \<Rightarrow> manager \<Rightarrow> manager" where
  "handle_update_profile uid data e s =
     (case users s uid of
        None \<Rightarrow> s
      | Some u \<Rightarrow>
          let name = data ''name'';
              language = data ''language'';
              old_name = user_name u;
              u1 = (case name of
                      None \<Rightarrow> u
                    | Some n \<Rightarrow> if truthy n then u\<lparr>user_name := n\<rparr> else u);
              u2 = (case language of
                      None \<Rightarrow> u1
                    | Some l \<Rightarrow> if truthy l then u1\<lparr>user_language := l\<rparr> else u1);
              s1 = s\<lparr>users := (users s)(uid \<mapsto> u2)\<rparr>;
              s2 = send_personal_message (ProfileUpdated (to_member u2 False (now e))) uid s1
          in (case current_room u2 of
                None \<Rightarrow> s2
              | Some rid \<Rightarrow>
                  if (case name of None \<Rightarrow> False | Some n \<Rightarrow> truthy n \<and> n \<noteq> old_name)
                  then broadcast_to_room (UserJoined (to_member u2 False (now e)) True)
                         rid (Some uid) s2
                  else s2))"

definition handle_get_room_info :: "string \<Rightarrow> env \<Rightarrow> manager \<Rightarrow> manager" where
  "handle_get_room_info uid e s =
     (case (case users s uid of None \<Rightarrow> None | Some u \<Rightarrow> current_room u) of
        None \<Rightarrow> send_error uid ''NOT_IN_ROOM'' ''You are not in a room'' s
      | Some rid \<Rightarrow>
         (case rooms s rid of
            None \<Rightarrow> send_error uid ''ROOM_NOT_FOUND'' ''Room not found'' s
          | Some r \<Rightarrow>
              send_personal_message
                (RoomInfo r (member_list s r (now e) (get (room_members s) rid []))) uid s))"

text \<open>The text of \<^verbatim>\<open>{msg_type}\<close> in the f-string: \<^verbatim>\<open>None\<close> for a request with no type.\<close>

definition str_type :: "string option \<Rightarrow> string" where
  "str_type t = (case t of None \<Rightarrow> ''None'' | Some x \<Rightarrow> x)"

text \<open>
  The \<^verbatim>\<open>if\<close>/\<^verbatim>\<open>elif\<close> chain inside the \<^verbatim>\<open>try\<close> block, for a request that is a \<^verbatim>\<open>dict\<close>;
  \<open>msg_type\<close> is what \<^verbatim>\<open>data.get("type")\<close> has returned.
\<close>

definition route :: "string \<Rightarrow> (string \<rightharpoonup> string) \<Rightarrow> env \<Rightarrow> manager \<Rightarrow> outcome" where
  "route uid data e s =
     (let msg_type = data ''type''
      in if msg_type = Some ''CREATE_ROOM'' then Inr (handle_create_room uid data e s)
         else if msg_type = Some ''JOIN_ROOM'' then handle_join_room uid data e s
         else if msg_type = Some ''LEAVE_ROOM'' then Inr (handle_leave_room uid s)
         else if msg_type = Some ''SEND_MESSAGE'' then Inr (handle_send_message uid data e s)
         else if msg_type = Some ''UPDATE_PROFILE'' then Inr (handle_update_profile uid data e s)
         else if msg_type = Some ''GET_ROOM_INFO'' then Inr (handle_get_room_info uid e s)
         else if msg_type = Some ''PING'' then Inr (send_personal_message Pong uid s)
         else Inr (send_error uid ''INVALID_MESSAGE_TYPE''
                     (''Unknown message type: '' @ str_type msg_type) s))"

text \<open>The \<^verbatim>\<open>try\<close> statement of \<^verbatim>\<open>handle_message\<close>, with its \<^verbatim>\<open>except Exception\<close> clause.\<close>

definition dispatch :: "string \<Rightarrow> (string \<rightharpoonup> string) \<Rightarrow> env \<Rightarrow> manager \<Rightarrow> manager" where
  "dispatch uid data e s =
     (case route uid data e s of
        Inr s' \<Rightarrow> s'
      | Inl (x, s') \<Rightarrow> send_error uid ''INTERNAL_ERROR'' (str_exn x) s')"

text \<open>
  What \<^verbatim>\<open>json.loads\<close> returns: a \<^verbatim>\<open>dict\<close>, or a value of another Python type, of which
  the name of the type is kept.
\<close>

datatype request = Object "string \<rightharpoonup> string" | Not_Object string

text \<open>
  \<^verbatim>\<open>handle_message\<close>: the first statement, \<^verbatim>\<open>msg_type = data.get("type")\<close>, stands before
  the \<^verbatim>\<open>try\<close>; on a value that is no \<^verbatim>\<open>dict\<close> it raises \<^verbatim>\<open>AttributeError\<close>, which leaves
  the method.
\<close>

definition handle_message :: "string \<Rightarrow> request \<Rightarrow> env \<Rightarrow> manager \<Rightarrow> outcome" where
  "handle_message uid data e s =
     (case data of
        Not_Object tn \<Rightarrow>
          Inl (AttributeError ([CHR 39] @ tn @ [CHR 39] @ '' object has no attribute ''
                                 @ [CHR 39] @ ''get'' @ [CHR 39]), s)
      | Object d \<Rightarrow> Inr (dispatch uid d e s))"

subsection \<open>main.py\<close>

text \<open>
  A text frame received by \<^verbatim>\<open>websocket_endpoint\<close>: \<^verbatim>\<open>json.loads\<close> raises
  \<^verbatim>\<open>JSONDecodeError\<close>, or returns a request.
\<close>

datatype frame = Bad_JSON | Decoded request

text \<open>
  One round of the loop of \<^verbatim>\<open>websocket_endpoint\<close> for the connection of user \<open>uid\<close>. An
  exception that leaves \<^verbatim>\<open>handle_message\<close> is no \<^verbatim>\<open>JSONDecodeError\<close>: it leaves the loop and
  reaches the clause \<^verbatim>\<open>except Exception\<close> of the endpoint, which disconnects the user and
  ends the session.
\<close>

definition websocket_endpoint :: "string \<Rightarrow> frame \<Rightarrow> env \<Rightarrow> manager \<Rightarrow> manager" where
  "websocket_endpoint uid fr e s =
     (case fr of
        Bad_JSON \<Rightarrow> send_personal_message (Error ''INVALID_JSON'' ''Invalid JSON format'') uid s
      | Decoded data \<Rightarrow>
          (case handle_message uid data e s of
             Inr s' \<Rightarrow> s'
           | Inl (x, s') \<Rightarrow> disconnect uid s'))"

subsection \<open>Reachable states\<close>

text \<open>The members that a broadcast reaches, in the order of the sends.\<close>

definition recipients :: "manager \<Rightarrow> string \<Rightarrow> string option \<Rightarrow> string list" where
  "recipients s rid exclude_user =
     filter (\<lambda>m. \<not> excluded exclude_user m \<and> m \<in> active_connections s)
       (get (room_members s) rid [])"

text \<open>
  \<^verbatim>\<open>uuid.uuid4()\<close> is taken to return a string that is not empty and was never returned
  before: as the id of a new user it is not a key of \<^verbatim>\<open>users\<close>, as the id of a new room
  it is neither a key of \<^verbatim>\<open>rooms\<close> nor the \<^verbatim>\<open>room_id\<close> of a user. Nothing is assumed
  of the room codes that \<^verbatim>\<open>random.choices\<close> draws.
\<close>

definition fresh_user_id :: "manager \<Rightarrow> string \<Rightarrow> bool" where
  "fresh_user_id s uid = (truthy uid \<and> users s uid = None)"

definition fresh_room_id :: "manager \<Rightarrow> string \<Rightarrow> bool" where
  "fresh_room_id s rid =
     (truthy rid \<and> rooms s rid = None \<and>
      (\<forall>uid u. users s uid = Some u \<longrightarrow> user_room_id u \<noteq> Some rid))"

text \<open>
  The states of the manager after any sequence of connections, received frames and
  disconnections, from the empty manager; \<open>ok s e\<close> is what is assumed of the draws \<open>e\<close>
  of a request that arrives in state \<open>s\<close>.
\<close>

inductive reach :: "(manager \<Rightarrow> env \<Rightarrow> bool) \<Rightarrow> manager \<Rightarrow> bool"
  for ok :: "manager \<Rightarrow> env \<Rightarrow> bool" where
  reach_init: "reach ok init"
| reach_connect: "reach ok s \<Longrightarrow> fresh_user_id s uid \<Longrightarrow> reach ok (connect uid s)"
| reach_request: "reach ok s \<Longrightarrow> ok s e \<Longrightarrow> reach ok (websocket_endpoint uid fr e s)"
| reach_disconnect: "reach ok s \<Longrightarrow> reach ok (disconnect uid s)"

definition fresh_ids :: "manager \<Rightarrow> env \<Rightarrow> bool" where
  "fresh_ids s e = fresh_room_id s (gen_id e)"

definition reachable :: "manager \<Rightarrow> bool" where
  "reachable s = reach fresh_ids s"

text \<open>The draws of a request whose room code is not the code of a live room.\<close>

definition fresh_code :: "manager \<Rightarrow> env \<Rightarrow> bool" where
  "fresh_code s e = (\<forall>rid r. rooms s rid = Some r \<longrightarrow> room_code r \<noteq> generate_room_code (rnd e))"

definition codes_unique :: "manager \<Rightarrow> bool" where
  "codes_unique s =
     (\<forall>r1 r2 a b. rooms s r1 = Some a \<longrightarrow> rooms s r2 = Some b \<longrightarrow>
        room_code a = room_code b \<longrightarrow> r1 = r2)"

text \<open>A room code as \<^verbatim>\<open>generate_room_code\<close> writes it.\<close>

definition valid_code :: "string \<Rightarrow> bool" where
  "valid_code c = (length c = 6 \<and> (\<forall>x \<in> set c. x \<in> set code_alphabet))"

text \<open>
  What is used of \<^verbatim>\<open>str.upper\<close> where a theorem speaks of the letter case of a room code:
  a text of six ASCII letters and digits goes to its ASCII upper-case form.
\<close>

definition upper_on_codes :: "(string \<Rightarrow> string) \<Rightarrow> bool" where
  "upper_on_codes f = (\<forall>c. valid_code (ascii_upper c) \<longrightarrow> f c = ascii_upper c)"

text \<open>The parts of the invariant of the reachable states.\<close>

definition conns_ok :: "manager \<Rightarrow> bool" where
  "conns_ok s = (dom (users s) = active_connections s \<and>
     (\<forall>uid u. users s uid = Some u \<longrightarrow> user_id u = uid \<and> truthy uid))"

definition stores_ok :: "manager \<Rightarrow> bool" where
  "stores_ok s =
     (dom (room_members s) = dom (rooms s) \<and> dom (room_messages s) = dom (rooms s) \<and>
      (\<forall>rid r. rooms s rid = Some r \<longrightarrow>
         truthy rid \<and> room_id r = rid \<and> valid_code (room_code r)))"

definition codes_ok :: "manager \<Rightarrow> bool" where
  "codes_ok s =
     (\<forall>c rid. room_codes s c = Some rid \<longrightarrow> (\<exists>r. rooms s rid = Some r \<and> room_code r = c))"

definition members_ok :: "manager \<Rightarrow> bool" where
  "members_ok s =
     (\<forall>rid ms. room_members s rid = Some ms \<longrightarrow>
        ms \<noteq> [] \<and> distinct ms \<and>
        (\<forall>m \<in> set ms. \<exists>u. users s m = Some u \<and> user_room_id u = Some rid))"

definition current_ok :: "manager \<Rightarrow> bool" where
  "current_ok s =
     (\<forall>uid u rid ms. users s uid = Some u \<longrightarrow> user_room_id u = Some rid \<longrightarrow>
        room_members s rid = Some ms \<longrightarrow> uid \<in> set ms)"

definition history_ok :: "manager \<Rightarrow> bool" where
  "history_ok s = (\<forall>rid h. room_messages s rid = Some h \<longrightarrow> length h \<le> 100)"

definition invariant :: "manager \<Rightarrow> bool" where
  "invariant s =
     (conns_ok s \<and> stores_ok s \<and> codes_ok s \<and> members_ok s \<and> current_ok s \<and> history_ok s)"

subsection \<open>Sample sessions\<close>

text \<open>
  Concrete draws, requests and sessions on which the theorems below are evaluated. The
  ids are short strings in place of the 36 characters of a uuid; the draws of \<open>env_r1\<close>
  and \<open>env_r2\<close> give the same room code \<open>AAAAAA\<close>, those of \<open>env_r3\<close> give \<open>BBBBBB\<close>.
\<close>

definition env_r1 :: env where
  "env_r1 = \<lparr>gen_id = ''r1'', rnd = (\<lambda>i. 0), now = 1,
             str_upper = ascii_upper, str_strip = ascii_strip\<rparr>"

definition env_r2 :: env where
  "env_r2 = \<lparr>gen_id = ''r2'', rnd = (\<lambda>i. 0), now = 2,
             str_upper = ascii_upper, str_strip = ascii_strip\<rparr>"

definition env_r3 :: env where
  "env_r3 = \<lparr>gen_id = ''r3'', rnd = (\<lambda>i. 1), now = 3,
             str_upper = ascii_upper, str_strip = ascii_strip\<rparr>"

definition req_create :: "string \<rightharpoonup> string" where
  "req_create = [''type'' \<mapsto> ''CREATE_ROOM'', ''roomName'' \<mapsto> ''Trip'',
                 ''hostName'' \<mapsto> ''Ann'', ''language'' \<mapsto> ''en'']"

definition req_create_empty_host :: "string \<rightharpoonup> string" where
  "req_create_empty_host = [''type'' \<mapsto> ''CREATE_ROOM'', ''roomName'' \<mapsto> ''Trip'',
                            ''hostName'' \<mapsto> [], ''language'' \<mapsto> ''en'']"

definition req_join_a :: "string \<rightharpoonup> string" where
  "req_join_a = [''type'' \<mapsto> ''JOIN_ROOM'', ''roomCode'' \<mapsto> ''aaaaaa'',
                 ''userName'' \<mapsto> ''Bo'', ''language'' \<mapsto> ''vi'']"

text \<open>One user connects and creates a room.\<close>

definition session_created :: manager where
  "session_created =
     websocket_endpoint ''u1'' (Decoded (Object req_create)) env_r1 (connect ''u1'' init)"

text \<open>The only member of a room sends \<^verbatim>\<open>JOIN_ROOM\<close> with the code of that room.\<close>

definition session_rejoined :: manager where
  "session_rejoined =
     websocket_endpoint ''u1'' (Decoded (Object req_join_a)) env_r2 session_created"

definition req_create_bare :: "string \<rightharpoonup> string" where
  "req_create_bare = [''type'' \<mapsto> ''CREATE_ROOM'']"

text \<open>One user connects.\<close>

definition session_connected :: manager where
  "session_connected = connect ''u1'' init"

text \<open>A user creates a room with an empty \<^verbatim>\<open>hostName\<close>.\<close>

definition session_empty_host :: manager where
  "session_empty_host =
     websocket_endpoint ''u1'' (Decoded (Object req_create_empty_host)) env_r1 (connect ''u1'' init)"

definition session_two_connected :: manager where
  "session_two_connected = connect ''u2'' (connect ''u1'' init)"

definition session_two_created :: manager where
  "session_two_created =
     websocket_endpoint ''u1'' (Decoded (Object req_create)) env_r1 session_two_connected"

definition session_two :: manager where
  "session_two =
     websocket_endpoint ''u2'' (Decoded (Object req_join_a)) env_r2 session_two_created"

definition env_m1 :: env where
  "env_m1 = \<lparr>gen_id = ''m1'', rnd = (\<lambda>i. 2), now = 4,
             str_upper = ascii_upper, str_strip = ascii_strip\<rparr>"

definition req_hi :: "string \<rightharpoonup> string" where
  "req_hi = [''type'' \<mapsto> ''SEND_MESSAGE'', ''text'' \<mapsto> '' hi '']"

text \<open>Two users connect, the first creates a room and sends a message, the second joins.\<close>

definition session_chat :: manager where
  "session_chat =
     websocket_endpoint ''u1'' (Decoded (Object req_hi)) env_m1 session_two_created"

definition session_chat_joined :: manager where
  "session_chat_joined =
     websocket_endpoint ''u2'' (Decoded (Object req_join_a)) env_r2 session_chat"

definition req_profile_empty :: "string \<rightharpoonup> string" where
  "req_profile_empty = [''type'' \<mapsto> ''UPDATE_PROFILE'', ''name'' \<mapsto> []]"

definition req_rename :: "string \<rightharpoonup> string" where
  "req_rename = [''type'' \<mapsto> ''UPDATE_PROFILE'', ''name'' \<mapsto> ''Bob'']"

definition req_language :: "string \<rightharpoonup> string" where
  "req_language = [''type'' \<mapsto> ''UPDATE_PROFILE'', ''language'' \<mapsto> ''fr'']"

text \<open>A user in a room sends \<^verbatim>\<open>UPDATE_PROFILE\<close> with an empty \<^verbatim>\<open>name\<close>.\<close>

definition session_empty_name :: manager where
  "session_empty_name =
     websocket_endpoint ''u1'' (Decoded (Object req_profile_empty)) env_m1 session_created"

text \<open>\<^verbatim>\<open>JOIN_ROOM\<close> with no \<^verbatim>\<open>userName\<close> and no \<^verbatim>\<open>language\<close>, and with an empty \<^verbatim>\<open>userName\<close>.\<close>

definition req_join_bare :: "string \<rightharpoonup> string" where
  "req_join_bare = [''type'' \<mapsto> ''JOIN_ROOM'', ''roomCode'' \<mapsto> ''aaaaaa'']"

definition req_join_empty_name :: "string \<rightharpoonup> string" where
  "req_join_empty_name = [''type'' \<mapsto> ''JOIN_ROOM'', ''roomCode'' \<mapsto> ''aaaaaa'',
                          ''userName'' \<mapsto> [], ''language'' \<mapsto> ''vi'']"

definition req_join_unknown :: "string \<rightharpoonup> string" where
  "req_join_unknown = [''type'' \<mapsto> ''JOIN_ROOM'', ''roomCode'' \<mapsto> ''zzzzzz'',
                 ''userName'' \<mapsto> ''Bo'', ''language'' \<mapsto> ''vi'']"

text \<open>
  The user who created a room sends a text frame that is JSON but no JSON object: the
  text \<^verbatim>\<open>[]\<close>, which \<^verbatim>\<open>json.loads\<close> decodes to a list.
\<close>

definition session_not_object :: manager where
  "session_not_object =
     websocket_endpoint ''u1'' (Decoded (Not_Object ''list'')) env_m1 session_created"

text \<open>The draws of a request: a fresh id and a room code that no live room has.\<close>

definition fresh_draws :: "manager \<Rightarrow> env \<Rightarrow> bool" where
  "fresh_draws s e = (fresh_ids s e \<and> fresh_code s e)"

text \<open>The code of every live room maps to that room.\<close>

definition code_map_exact :: "manager \<Rightarrow> bool" where
  "code_map_exact s = (\<forall>rid r. rooms s rid = Some r \<longrightarrow> room_codes s (room_code r) = Some rid)"

text \<open>Two users connect and each creates a room; both draws give the code \<open>AAAAAA\<close>.\<close>

definition session_collision :: manager where
  "session_collision =
     websocket_endpoint ''u2'' (Decoded (Object req_create)) env_r2 session_two_created"

text \<open>Two users connect and each creates a room; the draws give different codes.\<close>

definition session_two_rooms :: manager where
  "session_two_rooms =
     websocket_endpoint ''u2'' (Decoded (Object req_create)) env_r3 session_two_created"

section \<open>Properties\<close>

subsection \<open>The receiving loop\<close>

lemma websocket_endpoint_object:
  "websocket_endpoint uid (Decoded (Object d)) e s = dispatch uid d e s"
  by (simp add: websocket_endpoint_def handle_message_def)

lemma websocket_endpoint_not_object:
  "websocket_endpoint uid (Decoded (Not_Object tn)) e s = disconnect uid s"
  by (simp add: websocket_endpoint_def handle_message_def)

lemma websocket_endpoint_bad_json:
  "websocket_endpoint uid Bad_JSON e s =
     send_personal_message (Error ''INVALID_JSON'' ''Invalid JSON format'') uid s"
  by (simp add: websocket_endpoint_def)

lemma websocket_endpoint_cases:
  "websocket_endpoint uid fr e s = send_personal_message (Error ''INVALID_JSON'' ''Invalid JSON format'') uid s
   \<or> (\<exists>d. websocket_endpoint uid fr e s = dispatch uid d e s)
   \<or> websocket_endpoint uid fr e s = disconnect uid s"
proof (cases fr)
  case Bad_JSON
  then show ?thesis by (simp add: websocket_endpoint_bad_json)
next
  case (Decoded data)
  then show ?thesis
    by (cases data) (auto simp: websocket_endpoint_object websocket_endpoint_not_object)
qed

subsection \<open>Defaults of the payload fields\<close>

lemma get_upd_same: "get (d(k \<mapsto> x)) k v = x"
  by (simp add: get_def)

lemma get_upd_other: "k' \<noteq> k \<Longrightarrow> get (d(k \<mapsto> x)) k' v = get d k' v"
  by (simp add: get_def)

lemma create_room_defaults:
  "handle_create_room uid data e s =
   handle_create_room uid
     (data(''roomName'' \<mapsto> get data ''roomName'' ''New Room'',
           ''hostName'' \<mapsto> get data ''hostName'' ''Host'',
           ''language'' \<mapsto> get data ''language'' ''en'')) e s"
  by (simp add: handle_create_room_def get_upd_same get_upd_other cong: option.case_cong)

lemma join_room_defaults:
  "handle_join_room uid data e s =
   handle_join_room uid
     (data(''userName'' \<mapsto> get data ''userName'' ''Guest'',
           ''language'' \<mapsto> get data ''language'' ''en'')) e s"
  by (simp add: handle_join_room_def get_upd_same get_upd_other cong: option.case_cong)

subsection \<open>Sends and broadcasts in closed form\<close>

lemma send_personal_message_eq:
  "send_personal_message ev uid s =
   s\<lparr>sent := sent s @ (if uid \<in> active_connections s then [(uid, ev)] else [])\<rparr>"
  by (simp add: send_personal_message_def)

lemma broadcast_fold:
  "fold (\<lambda>mid s'. if excluded ex mid then s' else send_personal_message ev mid s') ms s =
   s\<lparr>sent := sent s @ map (\<lambda>m. (m, ev))
        (filter (\<lambda>m. \<not> excluded ex m \<and> m \<in> active_connections s) ms)\<rparr>"
proof (induction ms arbitrary: s)
  case Nil
  show ?case by simp
next
  case (Cons m ms)
  show ?case by (simp add: Cons.IH send_personal_message_def)
qed

lemma broadcast_to_room_eq:
  "broadcast_to_room ev rid ex s = s\<lparr>sent := sent s @ map (\<lambda>m. (m, ev)) (recipients s rid ex)\<rparr>"
  by (simp add: broadcast_to_room_def recipients_def get_def broadcast_fold split: option.split)

lemma send_error_eq:
  "send_error uid c m s =
   s\<lparr>sent := sent s @ (if uid \<in> active_connections s then [(uid, Error c m)] else [])\<rparr>"
  by (simp add: send_error_def send_personal_message_eq)

lemma leave_room_noop:
  "users s uid = None \<or> (\<exists>u. users s uid = Some u \<and> current_room u = None) \<Longrightarrow> leave_room uid s = s"
  by (auto simp: leave_room_def current_room_def split: option.splits if_splits)

lemma current_roomD:
  "current_room u = Some rid \<Longrightarrow> user_room_id u = Some rid \<and> truthy rid"
  by (auto simp: current_room_def split: option.splits if_splits)

lemma leave_room_dangling:
  assumes "users s uid = Some u" "current_room u = Some rid"
    "room_members s rid = None" "rooms s rid = None"
  shows "leave_room uid s = s\<lparr>users := (users s)(uid \<mapsto> u\<lparr>user_room_id := None\<rparr>)\<rparr>"
  using assms current_roomD[OF assms(2)]
  by (simp add: leave_room_def Let_def)

lemma leave_room_others:
  assumes "users s uid = Some u" "current_room u = Some rid"
    "room_members s rid = Some ms" "rooms s rid = Some r" "remove1 uid ms \<noteq> []"
  shows "leave_room uid s =
    s\<lparr>room_members := (room_members s)(rid \<mapsto> remove1 uid ms),
      users := (users s)(uid \<mapsto> u\<lparr>user_room_id := None\<rparr>),
      sent := sent s @ map (\<lambda>m. (m, UserLeft uid (user_name u)))
                (filter (\<lambda>m. m \<in> active_connections s) (remove1 uid ms))\<rparr>"
proof (cases "uid \<in> set ms")
  case True
  with assms current_roomD[OF assms(2)] show ?thesis
    by (simp add: leave_room_def Let_def broadcast_to_room_eq recipients_def get_def excluded_def)
next
  case False
  then have "remove1 uid ms = ms" by (simp add: remove1_idem)
  moreover have "(room_members s)(rid \<mapsto> ms) = room_members s"
    using assms(3) by (simp add: map_upd_triv)
  ultimately show ?thesis
    using False assms current_roomD[OF assms(2)]
    by (simp add: leave_room_def Let_def broadcast_to_room_eq recipients_def get_def excluded_def)
qed

lemma leave_room_last:
  assumes "users s uid = Some u" "current_room u = Some rid"
    "room_members s rid = Some ms" "rooms s rid = Some r" "remove1 uid ms = []"
  shows "leave_room uid s =
    s\<lparr>room_members := (room_members s)(rid := None),
      users := (users s)(uid \<mapsto> u\<lparr>user_room_id := None\<rparr>),
      room_codes := (room_codes s)(room_code r := None),
      rooms := (rooms s)(rid := None),
      room_messages := (room_messages s)(rid := None)\<rparr>"
proof (cases "uid \<in> set ms")
  case True
  with assms current_roomD[OF assms(2)] show ?thesis
    by (simp add: leave_room_def Let_def broadcast_to_room_eq recipients_def get_def
        excluded_def cleanup_room_def)
next
  case False
  then have "remove1 uid ms = ms" by (simp add: remove1_idem)
  with assms(5) have "ms = []" by simp
  then show ?thesis
    using False assms current_roomD[OF assms(2)]
    by (simp add: leave_room_def Let_def broadcast_to_room_eq recipients_def get_def
        excluded_def cleanup_room_def)
qed


subsection \<open>The invariant of the reachable states\<close>

lemma invariant_sent [simp]: "invariant (s\<lparr>sent := x\<rparr>) = invariant s"
  by (simp add: invariant_def conns_ok_def stores_ok_def codes_ok_def members_ok_def
      current_ok_def history_ok_def)

lemma invariant_init: "invariant init"
  by (simp add: invariant_def conns_ok_def stores_ok_def codes_ok_def members_ok_def
      current_ok_def history_ok_def init_def)

lemma invariant_connect:
  assumes "invariant s" "fresh_user_id s uid"
  shows "invariant (connect uid s)"
proof -
  have nm: "\<And>rid ms. room_members s rid = Some ms \<Longrightarrow> uid \<notin> set ms"
    using assms by (fastforce simp: invariant_def members_ok_def fresh_user_id_def)
  show ?thesis
    using assms nm
    unfolding connect_def send_personal_message_eq invariant_sent
    by (auto simp: invariant_def conns_ok_def stores_ok_def codes_ok_def members_ok_def
      current_ok_def history_ok_def fresh_user_id_def new_user_def)
qed

lemma member_room:
  assumes "members_ok s" "room_members s rid' = Some ms'" "m \<in> set ms'"
    "users s m = Some u" "user_room_id u = Some rid"
  shows "rid' = rid"
  using assms by (fastforce simp: members_ok_def)

lemma invariant_clear_dangling:
  assumes inv: "invariant s" and u: "users s uid = Some u" "user_room_id u = Some rid"
    and d: "room_members s rid = None"
  shows "invariant (s\<lparr>users := (users s)(uid \<mapsto> u\<lparr>user_room_id := None\<rparr>)\<rparr>)"
proof -
  have nm: "\<And>rid' ms'. room_members s rid' = Some ms' \<Longrightarrow> uid \<notin> set ms'"
    using member_room[OF _ _ _ u] inv d by (fastforce simp: invariant_def)
  have "conns_ok (s\<lparr>users := (users s)(uid \<mapsto> u\<lparr>user_room_id := None\<rparr>)\<rparr>)"
    using inv u by (auto simp: invariant_def conns_ok_def)
  moreover have "members_ok (s\<lparr>users := (users s)(uid \<mapsto> u\<lparr>user_room_id := None\<rparr>)\<rparr>)"
    using inv nm unfolding invariant_def members_ok_def by fastforce
  moreover have "current_ok (s\<lparr>users := (users s)(uid \<mapsto> u\<lparr>user_room_id := None\<rparr>)\<rparr>)"
    using inv unfolding invariant_def current_ok_def by auto
  ultimately show ?thesis
    using inv by (simp add: invariant_def stores_ok_def codes_ok_def history_ok_def)
qed

lemma invariant_leave_others:
  assumes inv: "invariant s" and u: "users s uid = Some u" "user_room_id u = Some rid"
    and m: "room_members s rid = Some ms" "remove1 uid ms \<noteq> []"
  shows "invariant (s\<lparr>room_members := (room_members s)(rid \<mapsto> remove1 uid ms),
      users := (users s)(uid \<mapsto> u\<lparr>user_room_id := None\<rparr>)\<rparr>)"
    (is "invariant ?s'")
proof -
  have nm: "\<And>rid' ms'. room_members s rid' = Some ms' \<Longrightarrow> uid \<in> set ms' \<Longrightarrow> rid' = rid"
    using member_room[OF _ _ _ u] inv by (simp add: invariant_def)
  have dist: "distinct ms" using inv m by (simp add: invariant_def members_ok_def)
  have "conns_ok ?s'"
    using inv u by (auto simp: invariant_def conns_ok_def)
  moreover have "stores_ok ?s'"
    using inv m by (auto simp: invariant_def stores_ok_def)
  moreover have "members_ok ?s'"
    unfolding members_ok_def
  proof (intro allI impI)
    fix rid' ms'
    assume a: "room_members ?s' rid' = Some ms'"
    show "ms' \<noteq> [] \<and> distinct ms' \<and>
        (\<forall>m\<in>set ms'. \<exists>u. users ?s' m = Some u \<and> user_room_id u = Some rid')"
    proof (cases "rid' = rid")
      case True
      with a have ms': "ms' = remove1 uid ms" by simp
      have "\<forall>m\<in>set ms. \<exists>u. users s m = Some u \<and> user_room_id u = Some rid"
        using inv m by (simp add: invariant_def members_ok_def)
      then show ?thesis using ms' m dist True by (auto)
    next
      case False
      with a have b: "room_members s rid' = Some ms'" by simp
      then have "uid \<notin> set ms'" using nm False by blast
      moreover have "ms' \<noteq> [] \<and> distinct ms' \<and>
        (\<forall>m\<in>set ms'. \<exists>u. users s m = Some u \<and> user_room_id u = Some rid')"
        using inv b by (simp add: invariant_def members_ok_def)
      ultimately show ?thesis by auto
    qed
  qed
  moreover have "current_ok ?s'"
    unfolding current_ok_def
  proof (intro allI impI)
    fix uid' u' rid' ms'
    assume a: "users ?s' uid' = Some u'" "user_room_id u' = Some rid'"
      "room_members ?s' rid' = Some ms'"
    then have ne: "uid' \<noteq> uid" by (auto split: if_splits)
    with a have b: "users s uid' = Some u'" by simp
    show "uid' \<in> set ms'"
    proof (cases "rid' = rid")
      case True
      then have "uid' \<in> set ms" using inv b a(2) m
        by (auto simp: invariant_def current_ok_def)
      then show ?thesis using a(3) True ne by auto
    next
      case False
      then show ?thesis using inv b a
        by (auto simp: invariant_def current_ok_def)
    qed
  qed
  ultimately show ?thesis
    using inv by (simp add: invariant_def codes_ok_def history_ok_def)
qed

lemma invariant_leave_last:
  assumes inv: "invariant s" and u: "users s uid = Some u" "user_room_id u = Some rid"
    and m: "room_members s rid = Some ms" "rooms s rid = Some r" "remove1 uid ms = []"
  shows "invariant (s\<lparr>room_members := (room_members s)(rid := None),
      users := (users s)(uid \<mapsto> u\<lparr>user_room_id := None\<rparr>),
      room_codes := (room_codes s)(room_code r := None),
      rooms := (rooms s)(rid := None),
      room_messages := (room_messages s)(rid := None)\<rparr>)"
    (is "invariant ?s'")
proof -
  have nm: "\<And>rid' ms'. room_members s rid' = Some ms' \<Longrightarrow> uid \<in> set ms' \<Longrightarrow> rid' = rid"
    using member_room[OF _ _ _ u] inv by (simp add: invariant_def)
  have "conns_ok ?s'"
    using inv u by (auto simp: invariant_def conns_ok_def)
  moreover have "stores_ok ?s'"
    using inv m by (auto simp: invariant_def stores_ok_def)
  moreover have "codes_ok ?s'"
    unfolding codes_ok_def
  proof (intro allI impI)
    fix c rid'
    assume a: "room_codes ?s' c = Some rid'"
    then have c: "c \<noteq> room_code r" "room_codes s c = Some rid'" by (auto split: if_splits)
    then obtain r' where r': "rooms s rid' = Some r'" "room_code r' = c"
      using inv by (auto simp: invariant_def codes_ok_def)
    with c m have "rid' \<noteq> rid" by auto
    with r' show "\<exists>r. rooms ?s' rid' = Some r \<and> room_code r = c" by simp
  qed
  moreover have "members_ok ?s'"
    unfolding members_ok_def
  proof (intro allI impI)
    fix rid' ms'
    assume a: "room_members ?s' rid' = Some ms'"
    then have ne: "rid' \<noteq> rid" by (auto split: if_splits)
    with a have b: "room_members s rid' = Some ms'" by simp
    then have "uid \<notin> set ms'" using nm ne by blast
    moreover have "ms' \<noteq> [] \<and> distinct ms' \<and>
        (\<forall>m\<in>set ms'. \<exists>u. users s m = Some u \<and> user_room_id u = Some rid')"
      using inv b by (simp add: invariant_def members_ok_def)
    ultimately show "ms' \<noteq> [] \<and> distinct ms' \<and>
        (\<forall>m\<in>set ms'. \<exists>u. users ?s' m = Some u \<and> user_room_id u = Some rid')" by auto
  qed
  moreover have "current_ok ?s'"
    using inv unfolding invariant_def current_ok_def by (auto split: if_splits)
  moreover have "history_ok ?s'"
    using inv unfolding invariant_def history_ok_def by (auto split: if_splits)
  ultimately show ?thesis
    by (simp add: invariant_def)
qed

lemma invariant_leave_room:
  assumes inv: "invariant s"
  shows "invariant (leave_room uid s)"
proof (cases "users s uid")
  case None
  then show ?thesis using inv by (simp add: leave_room_noop)
next
  case (Some u)
  show ?thesis
  proof (cases "current_room u")
    case None
    with Some have "leave_room uid s = s" by (simp add: leave_room_noop)
    then show ?thesis using inv by simp
  next
    case cr: (Some rid)
    note r = current_roomD[OF cr]
    have doms: "dom (room_members s) = dom (rooms s)"
      using inv by (simp add: invariant_def stores_ok_def)
    show ?thesis
    proof (cases "room_members s rid")
      case None
      then have "rooms s rid = None" using doms by blast
      then have "leave_room uid s = s\<lparr>users := (users s)(uid \<mapsto> u\<lparr>user_room_id := None\<rparr>)\<rparr>"
        by (rule leave_room_dangling[OF Some cr None])
      moreover have "invariant (s\<lparr>users := (users s)(uid \<mapsto> u\<lparr>user_room_id := None\<rparr>)\<rparr>)"
        using r by (intro invariant_clear_dangling[OF inv Some _ None]) simp
      ultimately show ?thesis by (simp only:)
    next
      case ms: (Some ms)
      then obtain ro where ro: "rooms s rid = Some ro" using doms by blast
      show ?thesis
      proof (cases "remove1 uid ms = []")
        case True
        have "invariant (s\<lparr>room_members := (room_members s)(rid := None),
            users := (users s)(uid \<mapsto> u\<lparr>user_room_id := None\<rparr>),
            room_codes := (room_codes s)(room_code ro := None),
            rooms := (rooms s)(rid := None),
            room_messages := (room_messages s)(rid := None)\<rparr>)"
          using r by (intro invariant_leave_last[OF inv Some _ ms ro True]) simp
        then show ?thesis by (simp only: leave_room_last[OF Some cr ms ro True])
      next
        case False
        have "invariant (s\<lparr>room_members := (room_members s)(rid \<mapsto> remove1 uid ms),
           users := (users s)(uid \<mapsto> u\<lparr>user_room_id := None\<rparr>)\<rparr>)"
          using r by (intro invariant_leave_others[OF inv Some _ ms False]) simp
        then show ?thesis
          by (simp only: leave_room_others[OF Some cr ms ro False] invariant_sent)
      qed
    qed
  qed
qed


lemma leave_room_cases:
  assumes inv: "invariant s" and u: "users s uid = Some u" "current_room u = Some rid"
  obtains
    (dangling) "room_members s rid = None" "rooms s rid = None"
      "leave_room uid s = s\<lparr>users := (users s)(uid \<mapsto> u\<lparr>user_room_id := None\<rparr>)\<rparr>"
  | (last) ms ro where "room_members s rid = Some ms" "rooms s rid = Some ro"
      "remove1 uid ms = []"
      "leave_room uid s =
         s\<lparr>room_members := (room_members s)(rid := None),
           users := (users s)(uid \<mapsto> u\<lparr>user_room_id := None\<rparr>),
           room_codes := (room_codes s)(room_code ro := None),
           rooms := (rooms s)(rid := None),
           room_messages := (room_messages s)(rid := None)\<rparr>"
  | (others) ms ro where "room_members s rid = Some ms" "rooms s rid = Some ro"
      "remove1 uid ms \<noteq> []"
      "leave_room uid s =
         s\<lparr>room_members := (room_members s)(rid \<mapsto> remove1 uid ms),
           users := (users s)(uid \<mapsto> u\<lparr>user_room_id := None\<rparr>),
           sent := sent s @ map (\<lambda>m. (m, UserLeft uid (user_name u)))
                     (filter (\<lambda>m. m \<in> active_connections s) (remove1 uid ms))\<rparr>"
proof -
  have doms: "dom (room_members s) = dom (rooms s)"
    using inv by (simp add: invariant_def stores_ok_def)
  show thesis
  proof (cases "room_members s rid")
    case None
    then have "rooms s rid = None" using doms by blast
    with None show ?thesis using dangling leave_room_dangling[OF u] by blast
  next
    case (Some ms)
    then obtain ro where ro: "rooms s rid = Some ro" using doms by blast
    show ?thesis
    proof (cases "remove1 uid ms = []")
      case True
      then show ?thesis using last[OF Some ro] leave_room_last[OF u Some ro] by blast
    next
      case False
      then show ?thesis using others[OF Some ro] leave_room_others[OF u Some ro] by blast
    qed
  qed
qed

lemma leave_room_users:
  assumes "invariant s" "users s uid = Some u" "in_room u"
  shows "users (leave_room uid s) = (users s)(uid \<mapsto> u\<lparr>user_room_id := None\<rparr>)"
proof -
  from assms(3) obtain rid where cr: "current_room u = Some rid"
    by (auto simp: in_room_def)
  show ?thesis
    by (cases rule: leave_room_cases[OF assms(1,2) cr]) simp_all
qed

lemma leave_room_connections:
  assumes "invariant s"
  shows "active_connections (leave_room uid s) = active_connections s"
proof (cases "users s uid")
  case None
  then show ?thesis by (simp add: leave_room_noop)
next
  case (Some u)
  show ?thesis
  proof (cases "current_room u")
    case None
    with Some show ?thesis by (simp add: leave_room_noop)
  next
    case cr: (Some rid)
    show ?thesis by (cases rule: leave_room_cases[OF assms Some cr]) simp_all
  qed
qed

lemma leave_room_rooms:
  assumes "invariant s" "rooms (leave_room uid s) rid = Some r"
  shows "rooms s rid = Some r"
proof (cases "users s uid")
  case None
  then show ?thesis using assms(2) by (simp add: leave_room_noop)
next
  case (Some u)
  show ?thesis
  proof (cases "current_room u")
    case None
    with Some show ?thesis using assms(2) by (simp add: leave_room_noop)
  next
    case cr: (Some rid')
    show ?thesis using assms(2)
      by (cases rule: leave_room_cases[OF assms(1) Some cr]) (simp_all split: if_splits)
  qed
qed

lemma not_member:
  assumes inv: "invariant s" and u: "users s uid = Some u" "current_room u = None"
    and m: "room_members s rid = Some ms"
  shows "uid \<notin> set ms"
proof
  assume "uid \<in> set ms"
  then have "user_room_id u = Some rid"
    using inv m u(1) by (fastforce simp: invariant_def members_ok_def)
  moreover have "truthy rid"
    using inv m by (fastforce simp: invariant_def stores_ok_def)
  ultimately show False using u(2) by (simp add: current_room_def)
qed

text \<open>The state in which a handler goes on after \<^verbatim>\<open>if user.room_id: await self._leave_room(user_id)\<close>.\<close>

lemma after_leave:
  assumes inv: "invariant s" and u: "users s uid = Some u"
  shows "invariant (if in_room u then leave_room uid s else s)" (is "invariant ?s1")
    and "\<exists>u1. users (if in_room u then leave_room uid s else s) uid = Some u1 \<and>
           current_room u1 = None \<and> user_id u1 = user_id u"
    and "active_connections (if in_room u then leave_room uid s else s) = active_connections s"
proof -
  show "invariant ?s1" using inv by (simp add: invariant_leave_room)
  show "\<exists>u1. users ?s1 uid = Some u1 \<and> current_room u1 = None \<and> user_id u1 = user_id u"
  proof (cases "in_room u")
    case True
    then show ?thesis using u leave_room_users[OF inv u True]
      by (simp add: current_room_def)
  next
    case False
    then show ?thesis using u by (simp add: in_room_def)
  qed
  show "active_connections ?s1 = active_connections s"
    using inv by (simp add: leave_room_connections)
qed

lemma fresh_after_leave:
  assumes inv: "invariant s" and "fresh_room_id s rid"
  shows "fresh_room_id (leave_room uid s) rid"
proof -
  have "rooms (leave_room uid s) rid = None"
    using assms leave_room_rooms[OF inv, of uid rid] by (cases "rooms (leave_room uid s) rid")
      (auto simp: fresh_room_id_def)
  moreover have "\<And>uid' u'. users (leave_room uid s) uid' = Some u' \<Longrightarrow> user_room_id u' \<noteq> Some rid"
  proof -
    fix uid' u'
    assume a: "users (leave_room uid s) uid' = Some u'"
    show "user_room_id u' \<noteq> Some rid"
    proof (cases "\<exists>u. users s uid = Some u \<and> in_room u")
      case True
      then obtain u where "users s uid = Some u" "in_room u" by blast
      from a assms show ?thesis
        unfolding leave_room_users[OF inv \<open>users s uid = Some u\<close> \<open>in_room u\<close>]
        by (auto simp: fresh_room_id_def split: if_splits)
    next
      case False
      then have "leave_room uid s = s"
        by (intro leave_room_noop) (cases "users s uid"; simp add: in_room_def)
      with a assms show ?thesis by (auto simp: fresh_room_id_def)
    qed
  qed
  ultimately show ?thesis using assms by (simp add: fresh_room_id_def)
qed

lemma invariant_disconnect:
  assumes inv: "invariant s"
  shows "invariant (disconnect uid s)"
proof (cases "users s uid")
  case None
  then show ?thesis using inv by (simp add: disconnect_def)
next
  case (Some u)
  let ?s1 = "if in_room u then leave_room uid s else s"
  note al = after_leave[OF inv Some]
  from al(2) obtain u1 where u1: "users ?s1 uid = Some u1" "current_room u1 = None" by blast
  have nm: "\<And>rid ms. room_members ?s1 rid = Some ms \<Longrightarrow> uid \<notin> set ms"
    using not_member[OF al(1) u1] by blast
  have eq: "disconnect uid s =
     ?s1\<lparr>active_connections := active_connections ?s1 - {uid}, users := (users ?s1)(uid := None)\<rparr>"
    using Some by (simp add: disconnect_def Let_def)
  have "conns_ok (?s1\<lparr>active_connections := active_connections ?s1 - {uid},
      users := (users ?s1)(uid := None)\<rparr>)"
    using al(1) unfolding invariant_def conns_ok_def by (auto split: if_splits)
  moreover have "members_ok (?s1\<lparr>active_connections := active_connections ?s1 - {uid},
      users := (users ?s1)(uid := None)\<rparr>)"
    unfolding members_ok_def
  proof (intro allI impI)
    fix rid ms
    assume a: "room_members (?s1\<lparr>active_connections := active_connections ?s1 - {uid},
      users := (users ?s1)(uid := None)\<rparr>) rid = Some ms"
    then have b: "room_members ?s1 rid = Some ms" by simp
    then have "uid \<notin> set ms" by (rule nm)
    moreover have "ms \<noteq> [] \<and> distinct ms \<and>
        (\<forall>m\<in>set ms. \<exists>u. users ?s1 m = Some u \<and> user_room_id u = Some rid)"
      using al(1) b unfolding invariant_def members_ok_def by blast
    ultimately show "ms \<noteq> [] \<and> distinct ms \<and>
        (\<forall>m\<in>set ms. \<exists>u. users (?s1\<lparr>active_connections := active_connections ?s1 - {uid},
      users := (users ?s1)(uid := None)\<rparr>) m = Some u \<and> user_room_id u = Some rid)"
      by auto
  qed
  moreover have "current_ok (?s1\<lparr>active_connections := active_connections ?s1 - {uid},
      users := (users ?s1)(uid := None)\<rparr>)"
    using al(1) unfolding invariant_def current_ok_def by (auto split: if_splits)
  ultimately have "invariant (?s1\<lparr>active_connections := active_connections ?s1 - {uid},
      users := (users ?s1)(uid := None)\<rparr>)"
    using al(1) by (simp add: invariant_def stores_ok_def codes_ok_def history_ok_def)
  then show ?thesis by (simp only: eq)
qed


lemma length_code_alphabet: "length code_alphabet = 36"
  by (simp add: code_alphabet_def)

lemma valid_generate_room_code: "valid_code (generate_room_code f)"
proof -
  have "code_alphabet ! (f i mod length code_alphabet) \<in> set code_alphabet" for i
    by (rule nth_mem) (simp add: length_code_alphabet)
  then show ?thesis
    by (auto simp: valid_code_def generate_room_code_def)
qed

lemma invariant_create_state:
  assumes inv: "invariant s" and u: "users s uid = Some u" "current_room u = None"
    and fr: "fresh_room_id s rid" and r: "room_id r = rid" "valid_code (room_code r)"
    and u': "user_id u' = user_id u" "user_room_id u' = Some rid"
  shows "invariant (s\<lparr>users := (users s)(uid \<mapsto> u'), rooms := (rooms s)(rid \<mapsto> r),
      room_codes := (room_codes s)(room_code r \<mapsto> rid),
      room_members := (room_members s)(rid \<mapsto> [uid]),
      room_messages := (room_messages s)(rid \<mapsto> [])\<rparr>)"
    (is "invariant ?s'")
proof -
  have nm: "\<And>rid' ms'. room_members s rid' = Some ms' \<Longrightarrow> uid \<notin> set ms'"
    using not_member[OF inv u] by blast
  have fr': "truthy rid" "rooms s rid = None"
    "\<And>uid' u''. users s uid' = Some u'' \<Longrightarrow> user_room_id u'' \<noteq> Some rid"
    using fr by (auto simp: fresh_room_id_def)
  have c: "conns_ok s" "stores_ok s" "codes_ok s" "members_ok s" "current_ok s" "history_ok s"
    using inv by (simp_all add: invariant_def)
  have "conns_ok ?s'"
    using c(1) u(1) u'(1) by (auto simp: conns_ok_def)
  moreover have "stores_ok ?s'"
    using c(2) fr'(1) r by (auto simp: stores_ok_def)
  moreover have "codes_ok ?s'"
    unfolding codes_ok_def
  proof (intro allI impI)
    fix c' rid'
    assume a: "room_codes ?s' c' = Some rid'"
    show "\<exists>ro. rooms ?s' rid' = Some ro \<and> room_code ro = c'"
    proof (cases "c' = room_code r")
      case True
      with a show ?thesis by simp
    next
      case False
      with a have "room_codes s c' = Some rid'" by simp
      then obtain ro where ro: "rooms s rid' = Some ro" "room_code ro = c'"
        using c(3) by (auto simp: codes_ok_def)
      with fr'(2) have "rid' \<noteq> rid" by auto
      with ro show ?thesis by simp
    qed
  qed
  moreover have "members_ok ?s'"
    unfolding members_ok_def
  proof (intro allI impI)
    fix rid' ms'
    assume a: "room_members ?s' rid' = Some ms'"
    show "ms' \<noteq> [] \<and> distinct ms' \<and>
        (\<forall>m\<in>set ms'. \<exists>x. users ?s' m = Some x \<and> user_room_id x = Some rid')"
    proof (cases "rid' = rid")
      case True
      with a u'(2) show ?thesis by auto
    next
      case False
      with a have b: "room_members s rid' = Some ms'" by simp
      then have "uid \<notin> set ms'" by (rule nm)
      moreover have "ms' \<noteq> [] \<and> distinct ms' \<and>
        (\<forall>m\<in>set ms'. \<exists>x. users s m = Some x \<and> user_room_id x = Some rid')"
        using c(4) b unfolding members_ok_def by blast
      ultimately show ?thesis by auto
    qed
  qed
  moreover have "current_ok ?s'"
    unfolding current_ok_def
  proof (intro allI impI)
    fix uid' x rid' ms'
    assume a: "users ?s' uid' = Some x" "user_room_id x = Some rid'"
      "room_members ?s' rid' = Some ms'"
    show "uid' \<in> set ms'"
    proof (cases "uid' = uid")
      case True
      with a u'(2) show ?thesis by auto
    next
      case False
      with a have b: "users s uid' = Some x" by simp
      with fr'(3) a(2) have "rid' \<noteq> rid" by auto
      with a(3) have "room_members s rid' = Some ms'" by simp
      with c(5) b a(2) show ?thesis unfolding current_ok_def by blast
    qed
  qed
  moreover have "history_ok ?s'"
    using c(6) by (auto simp: history_ok_def)
  ultimately show ?thesis by (simp add: invariant_def)
qed

lemma invariant_join_state:
  assumes inv: "invariant s" and u: "users s uid = Some u" "current_room u = None"
    and ms: "room_members s rid = Some ms"
    and u': "user_id u' = user_id u" "user_room_id u' = Some rid"
  shows "invariant (s\<lparr>users := (users s)(uid \<mapsto> u'),
      room_members := (room_members s)(rid \<mapsto> ms @ [uid])\<rparr>)"
    (is "invariant ?s'")
proof -
  have nm: "\<And>rid' ms'. room_members s rid' = Some ms' \<Longrightarrow> uid \<notin> set ms'"
    using not_member[OF inv u] by blast
  have c: "conns_ok s" "stores_ok s" "codes_ok s" "members_ok s" "current_ok s" "history_ok s"
    using inv by (simp_all add: invariant_def)
  have "conns_ok ?s'"
    using c(1) u(1) u'(1) by (auto simp: conns_ok_def)
  moreover have "stores_ok ?s'"
    using c(2) ms by (auto simp: stores_ok_def)
  moreover have "codes_ok ?s'"
    using c(3) by (simp add: codes_ok_def)
  moreover have "members_ok ?s'"
    unfolding members_ok_def
  proof (intro allI impI)
    fix rid' ms'
    assume a: "room_members ?s' rid' = Some ms'"
    show "ms' \<noteq> [] \<and> distinct ms' \<and>
        (\<forall>m\<in>set ms'. \<exists>x. users ?s' m = Some x \<and> user_room_id x = Some rid')"
    proof (cases "rid' = rid")
      case True
      have "distinct ms \<and>
        (\<forall>m\<in>set ms. \<exists>x. users s m = Some x \<and> user_room_id x = Some rid)"
        using c(4) ms unfolding members_ok_def by blast
      moreover have "uid \<notin> set ms" using ms by (rule nm)
      ultimately show ?thesis using a True u'(2) by auto
    next
      case False
      with a have b: "room_members s rid' = Some ms'" by simp
      then have "uid \<notin> set ms'" by (rule nm)
      moreover have "ms' \<noteq> [] \<and> distinct ms' \<and>
        (\<forall>m\<in>set ms'. \<exists>x. users s m = Some x \<and> user_room_id x = Some rid')"
        using c(4) b unfolding members_ok_def by blast
      ultimately show ?thesis by auto
    qed
  qed
  moreover have "current_ok ?s'"
    unfolding current_ok_def
  proof (intro allI impI)
    fix uid' x rid' ms'
    assume a: "users ?s' uid' = Some x" "user_room_id x = Some rid'"
      "room_members ?s' rid' = Some ms'"
    show "uid' \<in> set ms'"
    proof (cases "uid' = uid")
      case True
      with a u'(2) show ?thesis by auto
    next
      case False
      with a have b: "users s uid' = Some x" by simp
      show ?thesis
      proof (cases "rid' = rid")
        case True
        with c(5) b a(2) ms have "uid' \<in> set ms" unfolding current_ok_def by blast
        with a(3) True show ?thesis by auto
      next
        case False
        with a(3) have "room_members s rid' = Some ms'" by simp
        with c(5) b a(2) show ?thesis unfolding current_ok_def by blast
      qed
    qed
  qed
  moreover have "history_ok ?s'"
    using c(6) by (simp add: history_ok_def)
  ultimately show ?thesis by (simp add: invariant_def)
qed

lemma invariant_join_raise:
  assumes inv: "invariant s" and u: "users s uid = Some u" "current_room u = None"
    and ms: "room_members s rid = None"
    and u': "user_id u' = user_id u" "user_room_id u' = Some rid"
  shows "invariant (s\<lparr>users := (users s)(uid \<mapsto> u')\<rparr>)"
    (is "invariant ?s'")
proof -
  have nm: "\<And>rid' ms'. room_members s rid' = Some ms' \<Longrightarrow> uid \<notin> set ms'"
    using not_member[OF inv u] by blast
  have c: "conns_ok s" "stores_ok s" "codes_ok s" "members_ok s" "current_ok s" "history_ok s"
    using inv by (simp_all add: invariant_def)
  have "conns_ok ?s'"
    using c(1) u(1) u'(1) by (auto simp: conns_ok_def)
  moreover have "members_ok ?s'"
    unfolding members_ok_def
  proof (intro allI impI)
    fix rid' ms'
    assume a: "room_members ?s' rid' = Some ms'"
    then have b: "room_members s rid' = Some ms'" by simp
    then have "uid \<notin> set ms'" by (rule nm)
    moreover have "ms' \<noteq> [] \<and> distinct ms' \<and>
        (\<forall>m\<in>set ms'. \<exists>x. users s m = Some x \<and> user_room_id x = Some rid')"
      using c(4) b unfolding members_ok_def by blast
    ultimately show "ms' \<noteq> [] \<and> distinct ms' \<and>
        (\<forall>m\<in>set ms'. \<exists>x. users ?s' m = Some x \<and> user_room_id x = Some rid')" by auto
  qed
  moreover have "current_ok ?s'"
    unfolding current_ok_def
  proof (intro allI impI)
    fix uid' x rid' ms'
    assume a: "users ?s' uid' = Some x" "user_room_id x = Some rid'"
      "room_members ?s' rid' = Some ms'"
    show "uid' \<in> set ms'"
    proof (cases "uid' = uid")
      case True
      with a u'(2) ms show ?thesis by auto
    next
      case False
      with a have b: "users s uid' = Some x" "room_members s rid' = Some ms'" by simp_all
      with c(5) a(2) show ?thesis unfolding current_ok_def by blast
    qed
  qed
  ultimately show ?thesis
    using c by (simp add: invariant_def stores_ok_def codes_ok_def history_ok_def)
qed


lemma invariant_handle_create_room:
  assumes inv: "invariant s" and fr: "fresh_room_id s (gen_id e)"
  shows "invariant (handle_create_room uid data e s)"
proof (cases "users s uid")
  case None
  then show ?thesis using inv by (simp add: handle_create_room_def)
next
  case (Some u)
  let ?s1 = "if in_room u then leave_room uid s else s"
  note al = after_leave[OF inv Some]
  from al(2) obtain u1 where u1: "users ?s1 uid = Some u1" "current_room u1 = None"
    "user_id u1 = user_id u" by blast
  have fr1: "fresh_room_id ?s1 (gen_id e)"
    using fr fresh_after_leave[OF inv fr] by simp
  let ?r = "\<lparr>room_id = gen_id e, room_code = generate_room_code (rnd e),
      room_name = get data ''roomName'' ''New Room'', host_id = uid, created_at = now e\<rparr>"
  let ?u' = "u\<lparr>user_name := get data ''hostName'' ''Host'',
      user_language := get data ''language'' ''en'', user_room_id := Some (gen_id e)\<rparr>"
  have "invariant (?s1\<lparr>users := (users ?s1)(uid \<mapsto> ?u'), rooms := (rooms ?s1)(gen_id e \<mapsto> ?r),
      room_codes := (room_codes ?s1)(room_code ?r \<mapsto> gen_id e),
      room_members := (room_members ?s1)(gen_id e \<mapsto> [uid]),
      room_messages := (room_messages ?s1)(gen_id e \<mapsto> [])\<rparr>)"
    using u1(3)
    by (intro invariant_create_state[OF al(1) u1(1,2) fr1])
      (simp_all add: valid_generate_room_code)
  then show ?thesis
    using Some
    by (simp add: handle_create_room_def Let_def send_personal_message_eq)
qed

lemma invariant_handle_join_room:
  assumes inv: "invariant s"
  shows "case handle_join_room uid data e s of Inl (x, s') \<Rightarrow> invariant s' | Inr s' \<Rightarrow> invariant s'"
proof (cases "users s uid")
  case None
  then show ?thesis using inv by (simp add: handle_join_room_def)
next
  case (Some u)
  show ?thesis
  proof (cases "find_room s (str_upper e (get data ''roomCode'' []))")
    case None
    with Some show ?thesis using inv
      by (simp add: handle_join_room_def Let_def send_error_eq)
  next
    case fr: (Some p)
    obtain rid r where p: "p = (rid, r)" by (cases p)
    let ?s1 = "if in_room u then leave_room uid s else s"
    note al = after_leave[OF inv Some]
    from al(2) obtain u1 where u1: "users ?s1 uid = Some u1" "current_room u1 = None"
      "user_id u1 = user_id u" by blast
    let ?u' = "u\<lparr>user_name := get data ''userName'' ''Guest'',
      user_language := get data ''language'' ''en'', user_room_id := Some rid\<rparr>"
    show ?thesis
    proof (cases "room_members ?s1 rid")
      case None
      have "invariant (?s1\<lparr>users := (users ?s1)(uid \<mapsto> ?u')\<rparr>)"
        using u1(3) by (intro invariant_join_raise[OF al(1) u1(1,2) None]) simp_all
      then show ?thesis
        using Some fr p None
        by (simp add: handle_join_room_def Let_def)
    next
      case ms: (Some ms)
      have nm: "uid \<notin> set ms" using not_member[OF al(1) u1(1,2) ms] .
      have "invariant (?s1\<lparr>users := (users ?s1)(uid \<mapsto> ?u'),
          room_members := (room_members ?s1)(rid \<mapsto> ms @ [uid])\<rparr>)"
        using u1(3) by (intro invariant_join_state[OF al(1) u1(1,2) ms]) simp_all
      then show ?thesis
        using Some fr p ms nm
        by (simp add: handle_join_room_def Let_def send_personal_message_eq
            broadcast_to_room_eq)
    qed
  qed
qed

lemma length_last_n: "length (last_n n xs) = min n (length xs)"
  by (simp add: last_n_def)

lemma invariant_handle_send_message:
  assumes inv: "invariant s"
  shows "invariant (handle_send_message uid data e s)"
proof -
  have upd: "invariant (s\<lparr>room_messages := (room_messages s)(rid \<mapsto> h')\<rparr>)"
    if "room_messages s rid = Some h" "length h' \<le> 100" for rid h h'
    using inv that
    by (auto simp: invariant_def conns_ok_def stores_ok_def codes_ok_def members_ok_def
        current_ok_def history_ok_def)
  show ?thesis
  proof (cases "users s uid")
    case None
    then show ?thesis using inv by (simp add: handle_send_message_def)
  next
    case (Some u)
    show ?thesis
    proof (cases "current_room u")
      case None
      with Some show ?thesis using inv
        by (simp add: handle_send_message_def send_error_eq)
    next
      case cr: (Some rid)
      show ?thesis
      proof (cases "room_messages s rid")
        case None
        with Some cr show ?thesis using inv
          by (simp add: handle_send_message_def Let_def broadcast_to_room_eq)
      next
        case h: (Some h)
        have "length h \<le> 100" using inv h by (auto simp: invariant_def history_ok_def)
        then show ?thesis
          using Some cr h inv upd[OF h]
          by (simp add: handle_send_message_def Let_def broadcast_to_room_eq length_last_n)
      qed
    qed
  qed
qed

lemma invariant_handle_update_profile:
  assumes inv: "invariant s"
  shows "invariant (handle_update_profile uid data e s)"
proof (cases "users s uid")
  case None
  then show ?thesis using inv by (simp add: handle_update_profile_def)
next
  case (Some u)
  have upd: "invariant (s\<lparr>users := (users s)(uid \<mapsto> u')\<rparr>)"
    if "user_id u' = user_id u" "user_room_id u' = user_room_id u" for u'
  proof -
    have c: "conns_ok s" "stores_ok s" "codes_ok s" "members_ok s" "current_ok s" "history_ok s"
      using inv by (simp_all add: invariant_def)
    have "conns_ok (s\<lparr>users := (users s)(uid \<mapsto> u')\<rparr>)"
      using c(1) Some that by (auto simp: conns_ok_def)
    moreover have "members_ok (s\<lparr>users := (users s)(uid \<mapsto> u')\<rparr>)"
      using c(4) Some that unfolding members_ok_def by simp (metis option.inject)
    moreover have "current_ok (s\<lparr>users := (users s)(uid \<mapsto> u')\<rparr>)"
      using c(5) Some that unfolding current_ok_def by auto
    ultimately show ?thesis
      using c by (simp add: invariant_def stores_ok_def codes_ok_def history_ok_def)
  qed
  let ?u1 = "case data ''name'' of None \<Rightarrow> u | Some n \<Rightarrow> if truthy n then u\<lparr>user_name := n\<rparr> else u"
  let ?u2 = "case data ''language'' of None \<Rightarrow> ?u1
     | Some l \<Rightarrow> if truthy l then ?u1\<lparr>user_language := l\<rparr> else ?u1"
  have "user_id ?u2 = user_id u" "user_room_id ?u2 = user_room_id u"
    by (simp_all split: option.split)
  then have "invariant (s\<lparr>users := (users s)(uid \<mapsto> ?u2)\<rparr>)" by (rule upd)
  then show ?thesis
    using Some
    by (simp add: handle_update_profile_def Let_def send_personal_message_eq
        broadcast_to_room_eq split: option.split)
qed

lemma invariant_handle_get_room_info:
  "invariant s \<Longrightarrow> invariant (handle_get_room_info uid e s)"
  by (simp add: handle_get_room_info_def send_error_eq send_personal_message_eq
      split: option.split)

lemma invariant_dispatch:
  assumes inv: "invariant s" and fr: "fresh_room_id s (gen_id e)"
  shows "invariant (dispatch uid data e s)"
proof -
  have "case route uid data e s of Inl (x, s') \<Rightarrow> invariant s' | Inr s' \<Rightarrow> invariant s'"
    using inv fr invariant_handle_join_room[OF inv, of uid data e]
    by (simp add: route_def Let_def invariant_handle_create_room handle_leave_room_def
        invariant_leave_room invariant_handle_send_message invariant_handle_update_profile
        invariant_handle_get_room_info send_error_eq send_personal_message_eq)
  then show ?thesis
    by (auto simp: dispatch_def send_error_eq split: sum.splits prod.splits)
qed

lemma invariant_websocket_endpoint:
  assumes inv: "invariant s" and fr: "fresh_room_id s (gen_id e)"
  shows "invariant (websocket_endpoint uid fr e s)"
  using websocket_endpoint_cases[of uid fr e s] invariant_dispatch[OF inv fr, of uid]
    invariant_disconnect[OF inv, of uid] inv
  by (auto simp: send_personal_message_eq)

lemma reach_invariant:
  assumes "reach ok s" and ok: "\<And>s e. ok s e \<Longrightarrow> fresh_room_id s (gen_id e)"
  shows "invariant s"
  using assms(1)
proof (induction rule: reach.induct)
  case reach_init
  show ?case by (rule invariant_init)
next
  case (reach_connect s uid)
  then show ?case by (simp add: invariant_connect)
next
  case (reach_request s e uid fr)
  then show ?case by (simp add: invariant_websocket_endpoint ok)
next
  case (reach_disconnect s uid)
  then show ?case by (simp add: invariant_disconnect)
qed

lemma reachable_invariant: "reachable s \<Longrightarrow> invariant s"
  unfolding reachable_def by (erule reach_invariant) (simp add: fresh_ids_def)

subsection \<open>Defaults of the payload fields, for a registered user\<close>

text \<open>
  Claim C10, as stated, at a request whose \<^verbatim>\<open>hostName\<close> is the empty string: the
  name of the user becomes the empty string, not the default \<^verbatim>\<open>Host\<close>.
\<close>

theorem empty_host_name_counterexample:
  "map_option user_name (users session_empty_host ''u1'') = Some []
   \<and> map_option user_name (users session_empty_host ''u1'') \<noteq> Some ''Host''"
  by code_simp

lemma handle_join_room_user:
  assumes u: "users s uid = Some u"
    and fr: "find_room s (str_upper e (get data ''roomCode'' [])) = Some (rid, r)"
  shows "\<exists>s'. (handle_join_room uid data e s = Inr s'
               \<or> handle_join_room uid data e s = Inl (KeyError rid, s'))
     \<and> users s' uid = Some (u\<lparr>user_name := get data ''userName'' ''Guest'',
           user_language := get data ''language'' ''en'', user_room_id := Some rid\<rparr>)"
proof -
  define s1 where "s1 = (if in_room u then leave_room uid s else s)"
  show ?thesis
  proof (cases "room_members s1 rid")
    case None
    then show ?thesis
      using u fr by (simp add: handle_join_room_def Let_def s1_def[symmetric])
  next
    case (Some ms)
    then show ?thesis
      using u fr
      by (simp add: handle_join_room_def Let_def s1_def[symmetric] send_personal_message_eq
          broadcast_to_room_eq)
  qed
qed

text \<open>
  Claim C10, amended. For a \<^verbatim>\<open>CREATE_ROOM\<close> or \<^verbatim>\<open>JOIN_ROOM\<close> request of a registered
  user, a field that is missing from the request is replaced by its default and the
  request is handled exactly as if the default had been supplied; a field that is
  present is used as supplied, the empty string included. After \<^verbatim>\<open>CREATE_ROOM\<close> the name
  and the language of the user and the name of the new room are the fields
  \<^verbatim>\<open>hostName\<close>, \<^verbatim>\<open>language\<close> and \<^verbatim>\<open>roomName\<close>, or their defaults \<^verbatim>\<open>Host\<close>, \<^verbatim>\<open>en\<close> and
  \<^verbatim>\<open>New Room\<close>. After \<^verbatim>\<open>JOIN_ROOM\<close> with a code that resolves to a room, whether the
  handler returns or raises at the membership lookup, the name and the language of the
  user are the fields \<^verbatim>\<open>userName\<close> and \<^verbatim>\<open>language\<close>, or their defaults \<^verbatim>\<open>Guest\<close> and \<^verbatim>\<open>en\<close>,
  and the room recorded for the user is the resolved one.
\<close>

theorem payload_defaults:
  assumes "users s uid = Some u"
  shows
    "handle_create_room uid data e s =
       handle_create_room uid
         (data(''roomName'' \<mapsto> get data ''roomName'' ''New Room'',
               ''hostName'' \<mapsto> get data ''hostName'' ''Host'',
               ''language'' \<mapsto> get data ''language'' ''en'')) e s
     \<and> handle_join_room uid data e s =
       handle_join_room uid
         (data(''userName'' \<mapsto> get data ''userName'' ''Guest'',
               ''language'' \<mapsto> get data ''language'' ''en'')) e s
     \<and> (\<exists>u' r. users (handle_create_room uid data e s) uid = Some u'
           \<and> rooms (handle_create_room uid data e s) (gen_id e) = Some r
           \<and> user_name u' = (case data ''hostName'' of None \<Rightarrow> ''Host'' | Some x \<Rightarrow> x)
           \<and> user_language u' = (case data ''language'' of None \<Rightarrow> ''en'' | Some x \<Rightarrow> x)
           \<and> room_name r = (case data ''roomName'' of None \<Rightarrow> ''New Room'' | Some x \<Rightarrow> x))
     \<and> (\<forall>rid r. find_room s (str_upper e (get data ''roomCode'' [])) = Some (rid, r) \<longrightarrow>
          (\<exists>s' u'. (handle_join_room uid data e s = Inr s'
                     \<or> handle_join_room uid data e s = Inl (KeyError rid, s'))
             \<and> users s' uid = Some u'
             \<and> user_name u' = (case data ''userName'' of None \<Rightarrow> ''Guest'' | Some x \<Rightarrow> x)
             \<and> user_language u' = (case data ''language'' of None \<Rightarrow> ''en'' | Some x \<Rightarrow> x)
             \<and> user_room_id u' = Some rid))"
proof -
  have c: "\<exists>u' r. users (handle_create_room uid data e s) uid = Some u'
           \<and> rooms (handle_create_room uid data e s) (gen_id e) = Some r
           \<and> user_name u' = (case data ''hostName'' of None \<Rightarrow> ''Host'' | Some x \<Rightarrow> x)
           \<and> user_language u' = (case data ''language'' of None \<Rightarrow> ''en'' | Some x \<Rightarrow> x)
           \<and> room_name r = (case data ''roomName'' of None \<Rightarrow> ''New Room'' | Some x \<Rightarrow> x)"
    using assms
    by (simp add: handle_create_room_def Let_def send_personal_message_eq get_def)
  have j: "\<forall>rid r. find_room s (str_upper e (get data ''roomCode'' [])) = Some (rid, r) \<longrightarrow>
          (\<exists>s' u'. (handle_join_room uid data e s = Inr s'
                     \<or> handle_join_room uid data e s = Inl (KeyError rid, s'))
             \<and> users s' uid = Some u'
             \<and> user_name u' = (case data ''userName'' of None \<Rightarrow> ''Guest'' | Some x \<Rightarrow> x)
             \<and> user_language u' = (case data ''language'' of None \<Rightarrow> ''en'' | Some x \<Rightarrow> x)
             \<and> user_room_id u' = Some rid)"
  proof (intro allI impI)
    fix rid r
    assume fr: "find_room s (str_upper e (get data ''roomCode'' [])) = Some (rid, r)"
    let ?u' = "u\<lparr>user_name := get data ''userName'' ''Guest'',
           user_language := get data ''language'' ''en'', user_room_id := Some rid\<rparr>"
    from handle_join_room_user[OF assms fr]
    obtain s' where s': "handle_join_room uid data e s = Inr s'
               \<or> handle_join_room uid data e s = Inl (KeyError rid, s')"
      "users s' uid = Some ?u'"
      by blast
    have "user_name ?u' = (case data ''userName'' of None \<Rightarrow> ''Guest'' | Some x \<Rightarrow> x)"
      "user_language ?u' = (case data ''language'' of None \<Rightarrow> ''en'' | Some x \<Rightarrow> x)"
      "user_room_id ?u' = Some rid"
      by (simp_all add: get_def)
    with s' show "\<exists>s' u'. (handle_join_room uid data e s = Inr s'
                     \<or> handle_join_room uid data e s = Inl (KeyError rid, s'))
             \<and> users s' uid = Some u'
             \<and> user_name u' = (case data ''userName'' of None \<Rightarrow> ''Guest'' | Some x \<Rightarrow> x)
             \<and> user_language u' = (case data ''language'' of None \<Rightarrow> ''en'' | Some x \<Rightarrow> x)
             \<and> user_room_id u' = Some rid"
      by blast
  qed
  show ?thesis
    using c j create_room_defaults[of uid data e s] join_room_defaults[of uid data e s] by blast
qed

lemma join_bare_values:
  "users session_two_created ''u2'' = Some (new_user ''u2'')"
  "find_room session_two_created (str_upper env_r2 (get req_join_bare ''roomCode'' [])) =
     Some (''r1'', \<lparr>room_id = ''r1'', room_code = ''AAAAAA'', room_name = ''Trip'',
        host_id = ''u1'', created_at = 1\<rparr>)"
  "find_room session_two_created (str_upper env_r2 (get req_join_empty_name ''roomCode'' [])) =
     Some (''r1'', \<lparr>room_id = ''r1'', room_code = ''AAAAAA'', room_name = ''Trip'',
        host_id = ''u1'', created_at = 1\<rparr>)"
  "case handle_join_room ''u2'' req_join_bare env_r2 session_two_created of
     Inl x \<Rightarrow> False | Inr x \<Rightarrow> True"
  "case handle_join_room ''u2'' req_join_empty_name env_r2 session_two_created of
     Inl x \<Rightarrow> False | Inr x \<Rightarrow> True"
  by code_simp+

theorem payload_defaults_witness:
  "users session_connected ''u1'' = Some (new_user ''u1'')
   \<and> (\<exists>u' r. users (handle_create_room ''u1'' req_create_bare env_r1 session_connected) ''u1'' = Some u'
         \<and> rooms (handle_create_room ''u1'' req_create_bare env_r1 session_connected) ''r1'' = Some r
         \<and> user_name u' = ''Host'' \<and> user_language u' = ''en'' \<and> room_name r = ''New Room'')
   \<and> users session_two_created ''u2'' = Some (new_user ''u2'')
   \<and> (\<exists>s' u'. handle_join_room ''u2'' req_join_bare env_r2 session_two_created = Inr s'
         \<and> users s' ''u2'' = Some u'
         \<and> user_name u' = ''Guest'' \<and> user_language u' = ''en'' \<and> user_room_id u' = Some ''r1'')
   \<and> (\<exists>s' u'. handle_join_room ''u2'' req_join_empty_name env_r2 session_two_created = Inr s'
         \<and> users s' ''u2'' = Some u'
         \<and> user_name u' = [] \<and> user_language u' = ''vi'' \<and> user_room_id u' = Some ''r1'')"
proof -
  have h: "users session_connected ''u1'' = Some (new_user ''u1'')"
    by (simp add: session_connected_def connect_def send_personal_message_eq)
  have "\<exists>u' r. users (handle_create_room ''u1'' req_create_bare env_r1 session_connected) ''u1'' = Some u'
      \<and> rooms (handle_create_room ''u1'' req_create_bare env_r1 session_connected) (gen_id env_r1) = Some r
      \<and> user_name u' = (case req_create_bare ''hostName'' of None \<Rightarrow> ''Host'' | Some x \<Rightarrow> x)
      \<and> user_language u' = (case req_create_bare ''language'' of None \<Rightarrow> ''en'' | Some x \<Rightarrow> x)
      \<and> room_name r = (case req_create_bare ''roomName'' of None \<Rightarrow> ''New Room'' | Some x \<Rightarrow> x)"
    using payload_defaults[OF h, of req_create_bare env_r1] by blast
  moreover have "gen_id env_r1 = ''r1''" "req_create_bare ''hostName'' = None"
    "req_create_bare ''language'' = None" "req_create_bare ''roomName'' = None"
    by (simp_all add: env_r1_def req_create_bare_def)
  ultimately have c: "\<exists>u' r.
      users (handle_create_room ''u1'' req_create_bare env_r1 session_connected) ''u1'' = Some u'
      \<and> rooms (handle_create_room ''u1'' req_create_bare env_r1 session_connected) ''r1'' = Some r
      \<and> user_name u' = ''Host'' \<and> user_language u' = ''en'' \<and> room_name r = ''New Room''"
    by simp
  note v = join_bare_values
  have "\<exists>s' u'. (handle_join_room ''u2'' req_join_bare env_r2 session_two_created = Inr s'
        \<or> handle_join_room ''u2'' req_join_bare env_r2 session_two_created = Inl (KeyError ''r1'', s'))
      \<and> users s' ''u2'' = Some u'
      \<and> user_name u' = (case req_join_bare ''userName'' of None \<Rightarrow> ''Guest'' | Some x \<Rightarrow> x)
      \<and> user_language u' = (case req_join_bare ''language'' of None \<Rightarrow> ''en'' | Some x \<Rightarrow> x)
      \<and> user_room_id u' = Some ''r1''"
    using payload_defaults[OF v(1), of req_join_bare env_r2] v(2) by blast
  moreover have "req_join_bare ''userName'' = None" "req_join_bare ''language'' = None"
    by (simp_all add: req_join_bare_def)
  ultimately have j1: "\<exists>s' u'. handle_join_room ''u2'' req_join_bare env_r2 session_two_created = Inr s'
         \<and> users s' ''u2'' = Some u'
         \<and> user_name u' = ''Guest'' \<and> user_language u' = ''en'' \<and> user_room_id u' = Some ''r1''"
    using v(4) by auto
  have "\<exists>s' u'. (handle_join_room ''u2'' req_join_empty_name env_r2 session_two_created = Inr s'
        \<or> handle_join_room ''u2'' req_join_empty_name env_r2 session_two_created
            = Inl (KeyError ''r1'', s'))
      \<and> users s' ''u2'' = Some u'
      \<and> user_name u' = (case req_join_empty_name ''userName'' of None \<Rightarrow> ''Guest'' | Some x \<Rightarrow> x)
      \<and> user_language u' = (case req_join_empty_name ''language'' of None \<Rightarrow> ''en'' | Some x \<Rightarrow> x)
      \<and> user_room_id u' = Some ''r1''"
    using payload_defaults[OF v(1), of req_join_empty_name env_r2] v(3) by blast
  moreover have "req_join_empty_name ''userName'' = Some []"
    "req_join_empty_name ''language'' = Some ''vi''"
    by (simp_all add: req_join_empty_name_def)
  ultimately have j2: "\<exists>s' u'.
         handle_join_room ''u2'' req_join_empty_name env_r2 session_two_created = Inr s'
         \<and> users s' ''u2'' = Some u'
         \<and> user_name u' = [] \<and> user_language u' = ''vi'' \<and> user_room_id u' = Some ''r1''"
    using v(5) by auto
  show ?thesis using h c v(1) j1 j2 by blast
qed

subsection \<open>Rooms without members\<close>

lemma reachable_connected: "reachable session_connected"
  unfolding reachable_def session_connected_def
  by (intro reach_connect reach_init) (simp add: fresh_user_id_def truthy_def init_def)

lemma reachable_created: "reachable session_created"
proof -
  have "fresh_ids session_connected env_r1"
    by (simp add: fresh_ids_def fresh_room_id_def session_connected_def connect_def
        send_personal_message_eq init_def env_r1_def truthy_def new_user_def)
  then show ?thesis
    using reachable_connected
    unfolding reachable_def session_created_def session_connected_def
    by (intro reach_request)
qed

text \<open>
  Claim C3. In every reachable state no room has an empty membership list and no room
  code resolves to a room id that is absent from the room store; and when
  \<^verbatim>\<open>_leave_room\<close> removes the last member of a room, the room, every code that maps to
  it, its membership list and its message history are gone in the state that the same
  call returns.
\<close>

theorem empty_room_destroyed:
  assumes "reachable s"
  shows "(\<forall>rid r. rooms s rid = Some r \<longrightarrow> (\<exists>ms. room_members s rid = Some ms \<and> ms \<noteq> []))
    \<and> (\<forall>rid ms. room_members s rid = Some ms \<longrightarrow> ms \<noteq> [] \<and> rooms s rid \<noteq> None)
    \<and> (\<forall>c rid. room_codes s c = Some rid \<longrightarrow> rooms s rid \<noteq> None)
    \<and> (\<forall>uid u rid. users s uid = Some u \<longrightarrow> current_room u = Some rid \<longrightarrow>
          room_members s rid = Some [uid] \<longrightarrow>
          rooms (leave_room uid s) rid = None
          \<and> room_members (leave_room uid s) rid = None
          \<and> room_messages (leave_room uid s) rid = None
          \<and> (\<forall>c. room_codes (leave_room uid s) c \<noteq> Some rid))"
proof -
  have inv: "invariant s" using assms by (rule reachable_invariant)
  then have c: "stores_ok s" "codes_ok s" "members_ok s" by (simp_all add: invariant_def)
  have doms: "dom (room_members s) = dom (rooms s)" using c(1) by (simp add: stores_ok_def)
  have ne: "\<And>rid ms. room_members s rid = Some ms \<Longrightarrow> ms \<noteq> []"
    using c(3) unfolding members_ok_def by blast
  have 1: "\<forall>rid r. rooms s rid = Some r \<longrightarrow> (\<exists>ms. room_members s rid = Some ms \<and> ms \<noteq> [])"
  proof (intro allI impI)
    fix rid r assume "rooms s rid = Some r"
    then obtain ms where "room_members s rid = Some ms" using doms by blast
    then show "\<exists>ms. room_members s rid = Some ms \<and> ms \<noteq> []" using ne by blast
  qed
  have 2: "\<forall>rid ms. room_members s rid = Some ms \<longrightarrow> ms \<noteq> [] \<and> rooms s rid \<noteq> None"
    using ne doms by blast
  have 3: "\<forall>c rid. room_codes s c = Some rid \<longrightarrow> rooms s rid \<noteq> None"
    using c(2) unfolding codes_ok_def by fastforce
  have 4: "\<forall>uid u rid. users s uid = Some u \<longrightarrow> current_room u = Some rid \<longrightarrow>
          room_members s rid = Some [uid] \<longrightarrow>
          rooms (leave_room uid s) rid = None
          \<and> room_members (leave_room uid s) rid = None
          \<and> room_messages (leave_room uid s) rid = None
          \<and> (\<forall>c. room_codes (leave_room uid s) c \<noteq> Some rid)"
  proof (intro allI impI)
    fix uid u rid
    assume u: "users s uid = Some u" "current_room u = Some rid"
      and m: "room_members s rid = Some [uid]"
    then obtain ro where ro: "rooms s rid = Some ro" using doms by blast
    have eq: "leave_room uid s =
         s\<lparr>room_members := (room_members s)(rid := None),
           users := (users s)(uid \<mapsto> u\<lparr>user_room_id := None\<rparr>),
           room_codes := (room_codes s)(room_code ro := None),
           rooms := (rooms s)(rid := None),
           room_messages := (room_messages s)(rid := None)\<rparr>"
      by (rule leave_room_last[OF u m ro]) simp
    have "room_codes s c' = Some rid \<Longrightarrow> c' = room_code ro" for c'
      using c(2) ro unfolding codes_ok_def by fastforce
    then show "rooms (leave_room uid s) rid = None
          \<and> room_members (leave_room uid s) rid = None
          \<and> room_messages (leave_room uid s) rid = None
          \<and> (\<forall>c. room_codes (leave_room uid s) c \<noteq> Some rid)"
      unfolding eq by auto
  qed
  show ?thesis using 1 2 3 4 by blast
qed

lemma session_created_values:
  "users session_created ''u1'' =
     Some \<lparr>user_id = ''u1'', user_name = ''Ann'', user_language = ''en'',
           user_room_id = Some ''r1''\<rparr>"
  "room_members session_created ''r1'' = Some [''u1'']"
  by code_simp+

theorem empty_room_destroyed_witness:
  "reachable session_created
   \<and> room_members session_created ''r1'' = Some [''u1'']
   \<and> rooms (leave_room ''u1'' session_created) ''r1'' = None
   \<and> room_members (leave_room ''u1'' session_created) ''r1'' = None
   \<and> room_messages (leave_room ''u1'' session_created) ''r1'' = None
   \<and> room_codes (leave_room ''u1'' session_created) ''AAAAAA'' \<noteq> Some ''r1''"
proof -
  have cr: "current_room \<lparr>user_id = ''u1'', user_name = ''Ann'', user_language = ''en'',
           user_room_id = Some ''r1''\<rparr> = Some ''r1''"
    by (simp add: current_room_def truthy_def)
  show ?thesis
    using empty_room_destroyed[OF reachable_created] session_created_values cr
      reachable_created
    by blast
qed

subsection \<open>Leaving a room\<close>

lemma users_handle_create_room:
  "users s uid = Some u \<Longrightarrow> invariant s \<Longrightarrow>
   users (handle_create_room uid data e s) =
     (users s)(uid \<mapsto> u\<lparr>user_name := get data ''hostName'' ''Host'',
        user_language := get data ''language'' ''en'', user_room_id := Some (gen_id e)\<rparr>)"
  by (auto simp: handle_create_room_def Let_def send_personal_message_eq leave_room_users)

lemma reachable_two_connected: "reachable session_two_connected"
  unfolding reachable_def session_two_connected_def
  by (intro reach_connect reach_init)
    (simp_all add: fresh_user_id_def truthy_def init_def connect_def send_personal_message_eq)

lemma reachable_two_created: "reachable session_two_created"
proof -
  have "fresh_ids session_two_connected env_r1"
    by (simp add: fresh_ids_def fresh_room_id_def session_two_connected_def connect_def
        send_personal_message_eq init_def env_r1_def truthy_def new_user_def)
  then show ?thesis
    using reachable_two_connected
    unfolding reachable_def session_two_created_def
    by (intro reach_request)
qed

lemma reachable_two: "reachable session_two"
proof -
  have u1: "users session_two_connected ''u1'' = Some (new_user ''u1'')"
    by (simp add: session_two_connected_def connect_def send_personal_message_eq)
  have "users session_two_created =
    (users session_two_connected)(''u1'' \<mapsto> (new_user ''u1'')\<lparr>user_name := ''Ann'',
        user_language := ''en'', user_room_id := Some ''r1''\<rparr>)"
    using users_handle_create_room[OF u1 reachable_invariant[OF reachable_two_connected],
        of req_create env_r1]
    by (simp add: session_two_created_def websocket_endpoint_object dispatch_def route_def req_create_def
        get_def env_r1_def)
  moreover have "rooms session_two_created ''r2'' = None" by code_simp
  ultimately have "fresh_ids session_two_created env_r2"
    by (simp add: fresh_ids_def fresh_room_id_def session_two_connected_def connect_def
        send_personal_message_eq init_def env_r2_def truthy_def new_user_def)
  then show ?thesis
    using reachable_two_created
    unfolding reachable_def session_two_def
    by (intro reach_request)
qed

lemma members_connected:
  assumes inv: "invariant s" and m: "room_members s rid = Some ms"
  shows "filter (\<lambda>m. m \<in> active_connections s) ms = ms"
proof -
  have "\<forall>m\<in>set ms. \<exists>u. users s m = Some u"
    using inv m unfolding invariant_def members_ok_def by blast
  moreover have "dom (users s) = active_connections s"
    using inv by (simp add: invariant_def conns_ok_def)
  ultimately have "\<forall>m\<in>set ms. m \<in> active_connections s" by blast
  then show ?thesis by simp
qed

text \<open>
  Claim C4. In a reachable state, \<^verbatim>\<open>_leave_room\<close> for a user with no current room
  returns the state unchanged. For a user whose current room has the membership list
  \<open>ms\<close> it is the composition, in this order, of: the removal of the user from the list,
  the broadcast of \<^verbatim>\<open>USER_LEFT\<close> with the user's id and name, the clearing of the user's
  room, and the destruction of the room if the list is now empty. The broadcast is sent
  to exactly the remaining members, the leaver not among them; the room and its history
  stay as they are when a member remains and are gone when none does. (For a user whose
  recorded room has no membership list the call only clears the user's room.)
\<close>

theorem leave_room_effect:
  assumes "reachable s"
  shows
    "((users s uid = None \<or> (\<exists>u. users s uid = Some u \<and> current_room u = None))
        \<longrightarrow> leave_room uid s = s)
     \<and> (\<forall>u rid. users s uid = Some u \<longrightarrow> current_room u = Some rid \<longrightarrow>
           room_members s rid = None \<longrightarrow>
           leave_room uid s = s\<lparr>users := (users s)(uid \<mapsto> u\<lparr>user_room_id := None\<rparr>)\<rparr>)
     \<and> (\<forall>u rid ms. users s uid = Some u \<longrightarrow> current_room u = Some rid \<longrightarrow>
           room_members s rid = Some ms \<longrightarrow>
           leave_room uid s =
             (let s1 = s\<lparr>room_members := (room_members s)(rid \<mapsto> remove1 uid ms)\<rparr>;
                  s2 = broadcast_to_room (UserLeft uid (user_name u)) rid None s1;
                  s3 = s2\<lparr>users := (users s2)(uid \<mapsto> u\<lparr>user_room_id := None\<rparr>)\<rparr>
              in if remove1 uid ms = [] then cleanup_room rid s3 else s3)
           \<and> uid \<notin> set (remove1 uid ms)
           \<and> set (remove1 uid ms) = set ms - {uid}
           \<and> sent (leave_room uid s) =
               sent s @ map (\<lambda>m. (m, UserLeft uid (user_name u))) (remove1 uid ms)
           \<and> users (leave_room uid s) = (users s)(uid \<mapsto> u\<lparr>user_room_id := None\<rparr>)
           \<and> (remove1 uid ms \<noteq> [] \<longrightarrow>
                 room_members (leave_room uid s) = (room_members s)(rid \<mapsto> remove1 uid ms)
                 \<and> rooms (leave_room uid s) = rooms s
                 \<and> room_codes (leave_room uid s) = room_codes s
                 \<and> room_messages (leave_room uid s) = room_messages s)
           \<and> (remove1 uid ms = [] \<longrightarrow>
                 room_members (leave_room uid s) rid = None
                 \<and> rooms (leave_room uid s) rid = None
                 \<and> room_messages (leave_room uid s) rid = None))"
proof -
  have inv: "invariant s" using assms by (rule reachable_invariant)
  have doms: "dom (room_members s) = dom (rooms s)"
    using inv by (simp add: invariant_def stores_ok_def)
  have 1: "(users s uid = None \<or> (\<exists>u. users s uid = Some u \<and> current_room u = None))
        \<longrightarrow> leave_room uid s = s"
    using leave_room_noop by blast
  have 2: "\<forall>u rid. users s uid = Some u \<longrightarrow> current_room u = Some rid \<longrightarrow>
           room_members s rid = None \<longrightarrow>
           leave_room uid s = s\<lparr>users := (users s)(uid \<mapsto> u\<lparr>user_room_id := None\<rparr>)\<rparr>"
  proof (intro allI impI)
    fix u rid
    assume a: "users s uid = Some u" "current_room u = Some rid" "room_members s rid = None"
    then have "rooms s rid = None" using doms by blast
    then show "leave_room uid s = s\<lparr>users := (users s)(uid \<mapsto> u\<lparr>user_room_id := None\<rparr>)\<rparr>"
      by (rule leave_room_dangling[OF a])
  qed
  have 3: "\<forall>u rid ms. users s uid = Some u \<longrightarrow> current_room u = Some rid \<longrightarrow>
           room_members s rid = Some ms \<longrightarrow>
           leave_room uid s =
             (let s1 = s\<lparr>room_members := (room_members s)(rid \<mapsto> remove1 uid ms)\<rparr>;
                  s2 = broadcast_to_room (UserLeft uid (user_name u)) rid None s1;
                  s3 = s2\<lparr>users := (users s2)(uid \<mapsto> u\<lparr>user_room_id := None\<rparr>)\<rparr>
              in if remove1 uid ms = [] then cleanup_room rid s3 else s3)
           \<and> uid \<notin> set (remove1 uid ms)
           \<and> set (remove1 uid ms) = set ms - {uid}
           \<and> sent (leave_room uid s) =
               sent s @ map (\<lambda>m. (m, UserLeft uid (user_name u))) (remove1 uid ms)
           \<and> users (leave_room uid s) = (users s)(uid \<mapsto> u\<lparr>user_room_id := None\<rparr>)
           \<and> (remove1 uid ms \<noteq> [] \<longrightarrow>
                 room_members (leave_room uid s) = (room_members s)(rid \<mapsto> remove1 uid ms)
                 \<and> rooms (leave_room uid s) = rooms s
                 \<and> room_codes (leave_room uid s) = room_codes s
                 \<and> room_messages (leave_room uid s) = room_messages s)
           \<and> (remove1 uid ms = [] \<longrightarrow>
                 room_members (leave_room uid s) rid = None
                 \<and> rooms (leave_room uid s) rid = None
                 \<and> room_messages (leave_room uid s) rid = None)"
  proof (intro allI impI)
    fix u rid ms
    assume u: "users s uid = Some u" "current_room u = Some rid"
      and m: "room_members s rid = Some ms"
    then obtain ro where ro: "rooms s rid = Some ro" using doms by blast
    have dist: "distinct ms"
      using inv m unfolding invariant_def members_ok_def by blast
    have conn: "filter (\<lambda>m. m \<in> active_connections s) ms = ms"
      using members_connected[OF inv m] .
    have conn': "filter (\<lambda>m. m \<in> active_connections s) (remove1 uid ms) = remove1 uid ms"
    proof -
      have "\<forall>m\<in>set ms. m \<in> active_connections s"
        using conn by (metis filter_id_conv)
      then have "\<forall>m\<in>set (remove1 uid ms). m \<in> active_connections s"
        using set_remove1_subset by fastforce
      then show ?thesis by simp
    qed
    have A: "uid \<notin> set (remove1 uid ms)" "set (remove1 uid ms) = set ms - {uid}"
      using dist by simp_all
    show "leave_room uid s =
             (let s1 = s\<lparr>room_members := (room_members s)(rid \<mapsto> remove1 uid ms)\<rparr>;
                  s2 = broadcast_to_room (UserLeft uid (user_name u)) rid None s1;
                  s3 = s2\<lparr>users := (users s2)(uid \<mapsto> u\<lparr>user_room_id := None\<rparr>)\<rparr>
              in if remove1 uid ms = [] then cleanup_room rid s3 else s3)
           \<and> uid \<notin> set (remove1 uid ms)
           \<and> set (remove1 uid ms) = set ms - {uid}
           \<and> sent (leave_room uid s) =
               sent s @ map (\<lambda>m. (m, UserLeft uid (user_name u))) (remove1 uid ms)
           \<and> users (leave_room uid s) = (users s)(uid \<mapsto> u\<lparr>user_room_id := None\<rparr>)
           \<and> (remove1 uid ms \<noteq> [] \<longrightarrow>
                 room_members (leave_room uid s) = (room_members s)(rid \<mapsto> remove1 uid ms)
                 \<and> rooms (leave_room uid s) = rooms s
                 \<and> room_codes (leave_room uid s) = room_codes s
                 \<and> room_messages (leave_room uid s) = room_messages s)
           \<and> (remove1 uid ms = [] \<longrightarrow>
                 room_members (leave_room uid s) rid = None
                 \<and> rooms (leave_room uid s) rid = None
                 \<and> room_messages (leave_room uid s) rid = None)"
    proof (cases "remove1 uid ms = []")
      case True
      show ?thesis
        using A True ro
        unfolding leave_room_last[OF u m ro True]
        by (simp add: Let_def broadcast_to_room_eq recipients_def get_def cleanup_room_def)
    next
      case False
      show ?thesis
        using A False conn'
        unfolding leave_room_others[OF u m ro False]
        by (simp add: Let_def broadcast_to_room_eq recipients_def get_def excluded_def)
    qed
  qed
  show ?thesis using 1 2 3 by blast
qed

lemma session_two_values:
  "users session_two ''u1'' =
     Some \<lparr>user_id = ''u1'', user_name = ''Ann'', user_language = ''en'',
           user_room_id = Some ''r1''\<rparr>"
  "users session_two ''u2'' =
     Some \<lparr>user_id = ''u2'', user_name = ''Bo'', user_language = ''vi'',
           user_room_id = Some ''r1''\<rparr>"
  "room_members session_two ''r1'' = Some [''u1'', ''u2'']"
  "room_messages session_two ''r1'' = Some []"
  "users session_two ''u9'' = None"
  by code_simp+

theorem leave_room_effect_witness:
  "reachable session_two
   \<and> room_members session_two ''r1'' = Some [''u1'', ''u2'']
   \<and> sent (leave_room ''u1'' session_two) = sent session_two @ [(''u2'', UserLeft ''u1'' ''Ann'')]
   \<and> room_members (leave_room ''u1'' session_two) ''r1'' = Some [''u2'']
   \<and> rooms (leave_room ''u1'' session_two) = rooms session_two
   \<and> room_members session_created ''r1'' = Some [''u1'']
   \<and> sent (leave_room ''u1'' session_created) = sent session_created
   \<and> rooms (leave_room ''u1'' session_created) ''r1'' = None
   \<and> leave_room ''u9'' session_two = session_two"
proof -
  let ?ann = "\<lparr>user_id = ''u1'', user_name = ''Ann'', user_language = ''en'',
           user_room_id = Some ''r1''\<rparr>"
  have cr: "current_room ?ann = Some ''r1''"
    by (simp add: current_room_def truthy_def)
  have two: "sent (leave_room ''u1'' session_two) =
        sent session_two @ map (\<lambda>m. (m, UserLeft ''u1'' (user_name ?ann))) (remove1 ''u1'' [''u1'', ''u2''])
      \<and> (remove1 ''u1'' [''u1'', ''u2''] \<noteq> [] \<longrightarrow>
            room_members (leave_room ''u1'' session_two) =
              (room_members session_two)(''r1'' \<mapsto> remove1 ''u1'' [''u1'', ''u2''])
            \<and> rooms (leave_room ''u1'' session_two) = rooms session_two)"
    using leave_room_effect[OF reachable_two, of "''u1''"] session_two_values(1,3) cr by blast
  have one: "sent (leave_room ''u1'' session_created) =
        sent session_created @ map (\<lambda>m. (m, UserLeft ''u1'' (user_name ?ann))) (remove1 ''u1'' [''u1''])
      \<and> (remove1 ''u1'' [''u1''] = [] \<longrightarrow> rooms (leave_room ''u1'' session_created) ''r1'' = None)"
    using leave_room_effect[OF reachable_created, of "''u1''"] session_created_values cr by blast
  have none: "leave_room ''u9'' session_two = session_two"
    using leave_room_effect[OF reachable_two, of "''u9''"] session_two_values(5) by blast
  show ?thesis
    using two one none reachable_two session_two_values(3) session_created_values(2)
    by simp
qed

subsection \<open>Message history\<close>

lemma handle_send_message_not_in_room:
  assumes "users s uid = Some u" "current_room u = None"
  shows "handle_send_message uid data e s =
    s\<lparr>sent := sent s @ (if uid \<in> active_connections s
        then [(uid, Error ''NOT_IN_ROOM'' ''You must join a room first'')] else [])\<rparr>"
  using assms by (simp add: handle_send_message_def send_error_eq)

lemma handle_send_message_empty:
  assumes "users s uid = Some u" "current_room u = Some rid"
    "\<not> truthy (str_strip e (get data ''text'' []))"
  shows "handle_send_message uid data e s = s"
  using assms by (simp add: handle_send_message_def)

lemma handle_send_message_stored:
  assumes "users s uid = Some u" "current_room u = Some rid"
    "truthy (str_strip e (get data ''text'' []))" "room_messages s rid = Some h"
  shows "handle_send_message uid data e s =
    s\<lparr>room_messages := (room_messages s)
        (rid \<mapsto> (if length h < 100 then h @ [new_message e rid uid u (str_strip e (get data ''text'' []))]
                  else last_n 100 (h @ [new_message e rid uid u (str_strip e (get data ''text'' []))]))),
      sent := sent s @ map (\<lambda>m. (m, NewMessage (new_message e rid uid u (str_strip e (get data ''text'' [])))))
                (recipients s rid None)\<rparr>"
  using assms
  by (simp add: handle_send_message_def Let_def broadcast_to_room_eq recipients_def)

lemma handle_send_message_dropped:
  assumes "users s uid = Some u" "current_room u = Some rid"
    "truthy (str_strip e (get data ''text'' []))" "room_messages s rid = None" "room_members s rid = None"
  shows "handle_send_message uid data e s = s"
  using assms
  by (simp add: handle_send_message_def Let_def broadcast_to_room_eq recipients_def get_def)

lemma last_n_full: "length h = n \<Longrightarrow> 0 < n \<Longrightarrow> last_n n (h @ [m]) = tl h @ [m]"
  by (cases h) (simp_all add: last_n_def)

lemma last_n_suffix: "\<exists>older. h = older @ last_n n h"
  by (metis append_take_drop_id last_n_def)

lemma leave_room_messages:
  assumes inv: "invariant s" and m: "room_members (leave_room uid s) rid = Some ms"
  shows "room_messages (leave_room uid s) rid = room_messages s rid"
proof (cases "users s uid")
  case None
  then show ?thesis by (simp add: leave_room_noop)
next
  case (Some u)
  show ?thesis
  proof (cases "current_room u")
    case None
    with Some show ?thesis by (simp add: leave_room_noop)
  next
    case cr: (Some rid')
    show ?thesis using m
      by (cases rule: leave_room_cases[OF inv Some cr]) (simp_all split: if_splits)
  qed
qed

lemma member_list_users:
  "users s' = users s \<Longrightarrow> member_list s' r t ms = member_list s r t ms"
  by (simp add: member_list_def)

text \<open>The result of \<^verbatim>\<open>JOIN_ROOM\<close> for a registered user and a code that resolves.\<close>

lemma handle_join_room_found:
  assumes inv: "invariant s" and u: "users s uid = Some u"
    and fr: "find_room s (str_upper e (get data ''roomCode'' [])) = Some (rid, r)"
    and s1: "s1 = (if in_room u then leave_room uid s else s)"
    and u': "u' = u\<lparr>user_name := get data ''userName'' ''Guest'',
               user_language := get data ''language'' ''en'', user_room_id := Some rid\<rparr>"
  shows "handle_join_room uid data e s =
    (case room_members s1 rid of
       None \<Rightarrow> Inl (KeyError rid, s1\<lparr>users := (users s1)(uid \<mapsto> u')\<rparr>)
     | Some ms \<Rightarrow>
         Inr (s1\<lparr>users := (users s1)(uid \<mapsto> u'),
               room_members := (room_members s1)(rid \<mapsto> ms @ [uid]),
               sent := sent s1 @
                 (uid, RoomJoined r
                    (member_list (s1\<lparr>users := (users s1)(uid \<mapsto> u')\<rparr>) r (now e) (ms @ [uid]))
                    (last_n 50 (get (room_messages s1) rid [])))
                 # map (\<lambda>m. (m, UserJoined (to_member u' False (now e)) False)) ms\<rparr>))"
proof -
  have al: "invariant s1"
    "\<exists>u1. users s1 uid = Some u1 \<and> current_room u1 = None \<and> user_id u1 = user_id u"
    "active_connections s1 = active_connections s"
    using after_leave[OF inv u] s1 by simp_all
  from al(2) obtain u1 where u1: "users s1 uid = Some u1" "current_room u1 = None" by blast
  have conn: "uid \<in> active_connections s1" "truthy uid"
    using al(1) u1(1) unfolding invariant_def conns_ok_def by blast+
  show ?thesis
  proof (cases "room_members s1 rid")
    case None
    then show ?thesis
      using u fr u' by (simp add: handle_join_room_def Let_def s1[symmetric])
  next
    case (Some ms)
    have nm: "uid \<notin> set ms" using not_member[OF al(1) u1 Some] .
    have mc: "filter (\<lambda>m. m \<in> active_connections s1) ms = ms"
      using members_connected[OF al(1) Some] .
    have rec: "filter (\<lambda>m. \<not> excluded (Some uid) m \<and> m \<in> active_connections s1) ms = ms"
    proof -
      have "\<forall>m\<in>set ms. \<not> excluded (Some uid) m \<and> m \<in> active_connections s1"
        using mc nm by (metis (mono_tags, lifting) excluded_def filter_id_conv option.simps(5))
      then show ?thesis by simp
    qed
    have ml: "member_list
        (s1\<lparr>users := (users s1)(uid \<mapsto> u'), room_members := (room_members s1)(rid \<mapsto> ms @ [uid])\<rparr>)
        r (now e) (ms @ [uid]) =
      member_list (s1\<lparr>users := (users s1)(uid \<mapsto> u')\<rparr>) r (now e) (ms @ [uid])"
      by (rule member_list_users) simp
    show ?thesis
      using u fr Some nm conn rec ml
      unfolding handle_join_room_def
      by (simp add: Let_def s1[symmetric] u' send_personal_message_eq
          broadcast_to_room_eq recipients_def get_def excluded_def)
  qed
qed

lemma find_roomD:
  "find_room s c = Some (rid, r) \<Longrightarrow> room_codes s c = Some rid \<and> truthy rid \<and> rooms s rid = Some r"
  by (auto simp: find_room_def split: option.splits if_splits)

text \<open>
  Claim C5. In every reachable state the history of a room holds at most 100 messages.
  A \<^verbatim>\<open>SEND_MESSAGE\<close> with a text that is not empty after trimming puts the new message
  at the end of the history and, when the history was full, drops its first, that is its
  oldest, message. A \<^verbatim>\<open>JOIN_ROOM\<close> that returns sends the joiner one \<^verbatim>\<open>ROOM_JOINED\<close>
  event whose messages are the last \<open>min 50 n\<close> of the \<open>n\<close> stored messages of the room, in
  their stored order.
\<close>

theorem history_bounded:
  assumes "reachable s"
  shows
   "(\<forall>rid h. room_messages s rid = Some h \<longrightarrow> length h \<le> 100)
    \<and> (\<forall>u rid h. users s uid = Some u \<longrightarrow> current_room u = Some rid \<longrightarrow>
          room_messages s rid = Some h \<longrightarrow> truthy (str_strip e (get data ''text'' [])) \<longrightarrow>
          room_messages (handle_send_message uid data e s) =
            (room_messages s)(rid \<mapsto> (if length h < 100 then h else tl h)
               @ [new_message e rid uid u (str_strip e (get data ''text'' []))]))
    \<and> (\<forall>u rid r s'. users s uid = Some u \<longrightarrow>
          find_room s (str_upper e (get data ''roomCode'' [])) = Some (rid, r) \<longrightarrow>
          handle_join_room uid data e s = Inr s' \<longrightarrow>
          (\<exists>h members others. room_messages s rid = Some h
             \<and> sent s' = sent (if in_room u then leave_room uid s else s)
                 @ (uid, RoomJoined r members (last_n 50 h))
                 # map (\<lambda>m. (m, UserJoined
                     (to_member (u\<lparr>user_name := get data ''userName'' ''Guest'',
                        user_language := get data ''language'' ''en'',
                        user_room_id := Some rid\<rparr>) False (now e)) False)) others
             \<and> length (last_n 50 h) = min 50 (length h)
             \<and> (\<exists>older. h = older @ last_n 50 h)))"
proof -
  have inv: "invariant s" using assms by (rule reachable_invariant)
  have 1: "\<forall>rid h. room_messages s rid = Some h \<longrightarrow> length h \<le> 100"
    using inv by (simp add: invariant_def history_ok_def)
  have 2: "\<forall>u rid h. users s uid = Some u \<longrightarrow> current_room u = Some rid \<longrightarrow>
          room_messages s rid = Some h \<longrightarrow> truthy (str_strip e (get data ''text'' [])) \<longrightarrow>
          room_messages (handle_send_message uid data e s) =
            (room_messages s)(rid \<mapsto> (if length h < 100 then h else tl h)
               @ [new_message e rid uid u (str_strip e (get data ''text'' []))])"
  proof (intro allI impI)
    fix u rid h
    assume a: "users s uid = Some u" "current_room u = Some rid"
      "room_messages s rid = Some h" "truthy (str_strip e (get data ''text'' []))"
    have "length h \<le> 100" using 1 a(3) by blast
    then have "length h < 100 \<or> length h = 100" by arith
    then show "room_messages (handle_send_message uid data e s) =
            (room_messages s)(rid \<mapsto> (if length h < 100 then h else tl h)
               @ [new_message e rid uid u (str_strip e (get data ''text'' []))])"
      unfolding handle_send_message_stored[OF a(1,2,4,3)]
      by (auto simp: last_n_full)
  qed
  have 3: "\<forall>u rid r s'. users s uid = Some u \<longrightarrow>
          find_room s (str_upper e (get data ''roomCode'' [])) = Some (rid, r) \<longrightarrow>
          handle_join_room uid data e s = Inr s' \<longrightarrow>
          (\<exists>h members others. room_messages s rid = Some h
             \<and> sent s' = sent (if in_room u then leave_room uid s else s)
                 @ (uid, RoomJoined r members (last_n 50 h))
                 # map (\<lambda>m. (m, UserJoined
                     (to_member (u\<lparr>user_name := get data ''userName'' ''Guest'',
                        user_language := get data ''language'' ''en'',
                        user_room_id := Some rid\<rparr>) False (now e)) False)) others
             \<and> length (last_n 50 h) = min 50 (length h)
             \<and> (\<exists>older. h = older @ last_n 50 h))"
  proof (intro allI impI)
    fix u rid r s'
    assume u: "users s uid = Some u"
      and fr: "find_room s (str_upper e (get data ''roomCode'' [])) = Some (rid, r)"
      and ok: "handle_join_room uid data e s = Inr s'"
    let ?s1 = "if in_room u then leave_room uid s else s"
    let ?u' = "u\<lparr>user_name := get data ''userName'' ''Guest'',
               user_language := get data ''language'' ''en'', user_room_id := Some rid\<rparr>"
    note cf = handle_join_room_found[OF inv u fr refl refl]
    have "rooms s rid = Some r" using find_roomD[OF fr] by simp
    moreover have "dom (room_messages s) = dom (rooms s)"
      using inv by (simp add: invariant_def stores_ok_def)
    ultimately obtain h where h: "room_messages s rid = Some h" by blast
    from cf ok obtain ms where ms: "room_members ?s1 rid = Some ms"
      by (cases "room_members ?s1 rid") auto
    have "room_messages ?s1 rid = room_messages s rid"
      using ms leave_room_messages[OF inv, of uid rid ms] by (simp split: if_splits)
    with h have h1: "get (room_messages ?s1) rid [] = h" by (simp add: get_def)
    have "sent s' = sent ?s1
        @ (uid, RoomJoined r
            (member_list (?s1\<lparr>users := (users ?s1)(uid \<mapsto> ?u')\<rparr>) r (now e) (ms @ [uid]))
            (last_n 50 h))
        # map (\<lambda>m. (m, UserJoined (to_member ?u' False (now e)) False)) ms"
      using cf ok ms h1 by auto
    then show "\<exists>h members others. room_messages s rid = Some h
             \<and> sent s' = sent ?s1
                 @ (uid, RoomJoined r members (last_n 50 h))
                 # map (\<lambda>m. (m, UserJoined (to_member ?u' False (now e)) False)) others
             \<and> length (last_n 50 h) = min 50 (length h)
             \<and> (\<exists>older. h = older @ last_n 50 h)"
      using h length_last_n[of 50 h] last_n_suffix[of h 50] by blast
  qed
  show ?thesis using 1 2 3 by blast
qed

lemma route_join:
  "data ''type'' = Some ''JOIN_ROOM'' \<Longrightarrow> route uid data e s = handle_join_room uid data e s"
  by (simp add: route_def)

lemma route_send:
  "data ''type'' = Some ''SEND_MESSAGE'' \<Longrightarrow>
   dispatch uid data e s = handle_send_message uid data e s"
  by (simp add: dispatch_def route_def)

lemma session_two_created_values:
  "users session_two_created ''u1'' =
     Some \<lparr>user_id = ''u1'', user_name = ''Ann'', user_language = ''en'',
           user_room_id = Some ''r1''\<rparr>"
  "users session_two_created ''u2'' = Some (new_user ''u2'')"
  "room_members session_two_created ''r1'' = Some [''u1'']"
  "room_messages session_two_created ''r1'' = Some []"
  "rooms session_two_created ''m1'' = None"
  "rooms session_two_created ''r2'' = None"
  by code_simp+

lemma users_session_two_created:
  "users session_two_created =
    (users session_two_connected)(''u1'' \<mapsto> \<lparr>user_id = ''u1'', user_name = ''Ann'',
        user_language = ''en'', user_room_id = Some ''r1''\<rparr>)"
proof -
  have u1: "users session_two_connected ''u1'' = Some (new_user ''u1'')"
    by (simp add: session_two_connected_def connect_def send_personal_message_eq)
  show ?thesis
    using users_handle_create_room[OF u1 reachable_invariant[OF reachable_two_connected],
        of req_create env_r1]
    by (simp add: session_two_created_def websocket_endpoint_object dispatch_def route_def req_create_def
        get_def env_r1_def new_user_def)
qed

lemma fresh_two_created:
  "truthy rid \<Longrightarrow> rid \<noteq> ''r1'' \<Longrightarrow> rooms session_two_created rid = None \<Longrightarrow>
   fresh_room_id session_two_created rid"
  by (simp add: fresh_room_id_def users_session_two_created session_two_connected_def
      connect_def send_personal_message_eq init_def new_user_def)

lemma session_chat_eq:
  "session_chat = handle_send_message ''u1'' req_hi env_m1 session_two_created"
  by (simp add: session_chat_def websocket_endpoint_object route_send req_hi_def)

lemma reachable_chat: "reachable session_chat"
proof -
  have "fresh_ids session_two_created env_m1"
    using session_two_created_values(5)
    by (simp add: fresh_ids_def env_m1_def fresh_two_created truthy_def)
  then show ?thesis
    using reachable_two_created
    unfolding reachable_def session_chat_def
    by (intro reach_request)
qed

lemma session_chat_values:
  "users session_chat ''u2'' = Some (new_user ''u2'')"
  "find_room session_chat (str_upper env_r2 (get req_join_a ''roomCode'' [])) =
     Some (''r1'', \<lparr>room_id = ''r1'', room_code = ''AAAAAA'', room_name = ''Trip'',
        host_id = ''u1'', created_at = 1\<rparr>)"
  "room_messages session_chat ''r1'' =
     Some [\<lparr>message_id = ''m1'', message_room_id = ''r1'', sender_id = ''u1'',
       sender_name = ''Ann'', message_text = ''hi'', source_lang = ''en'', timestamp = 4\<rparr>]"
  "case handle_join_room ''u2'' req_join_a env_r2 session_chat of Inl x \<Rightarrow> False | Inr x \<Rightarrow> True"
  "sent session_chat = sent session_two_created @
     [(''u1'', NewMessage \<lparr>message_id = ''m1'', message_room_id = ''r1'', sender_id = ''u1'',
       sender_name = ''Ann'', message_text = ''hi'', source_lang = ''en'', timestamp = 4\<rparr>)]"
  by code_simp+

lemma session_chat_joined_eq:
  "handle_join_room ''u2'' req_join_a env_r2 session_chat = Inr session_chat_joined"
  using session_chat_values(4)
  by (cases "handle_join_room ''u2'' req_join_a env_r2 session_chat")
    (simp_all add: session_chat_joined_def websocket_endpoint_object dispatch_def route_join req_join_a_def)

theorem history_bounded_witness:
  "reachable session_two_created \<and> reachable session_chat
   \<and> room_messages session_two_created ''r1'' = Some []
   \<and> room_messages session_chat =
       (room_messages session_two_created)(''r1'' \<mapsto>
          [new_message env_m1 ''r1'' ''u1''
             \<lparr>user_id = ''u1'', user_name = ''Ann'', user_language = ''en'',
               user_room_id = Some ''r1''\<rparr> ''hi''])
   \<and> (\<exists>members others. sent session_chat_joined = sent session_chat
         @ (''u2'', RoomJoined
              \<lparr>room_id = ''r1'', room_code = ''AAAAAA'', room_name = ''Trip'',
                host_id = ''u1'', created_at = 1\<rparr> members
              [\<lparr>message_id = ''m1'', message_room_id = ''r1'', sender_id = ''u1'',
                sender_name = ''Ann'', message_text = ''hi'', source_lang = ''en'',
                timestamp = 4\<rparr>])
         # map (\<lambda>m. (m, UserJoined
              \<lparr>member_id = ''u2'', member_name = ''Bo'', member_language = ''vi'',
                is_host = False, joined_at = 2\<rparr> False)) others)"
proof -
  let ?ann = "\<lparr>user_id = ''u1'', user_name = ''Ann'', user_language = ''en'',
           user_room_id = Some ''r1''\<rparr>"
  have cr: "current_room ?ann = Some ''r1''"
    by (simp add: current_room_def truthy_def)
  have tx: "str_strip env_m1 (get req_hi ''text'' []) = ''hi''"
    by code_simp
  have tr: "truthy (str_strip env_m1 (get req_hi ''text'' []))"
    by (simp add: tx truthy_def)
  have "room_messages (handle_send_message ''u1'' req_hi env_m1 session_two_created) =
      (room_messages session_two_created)(''r1'' \<mapsto> (if length ([]::message list) < 100 then [] else tl [])
         @ [new_message env_m1 ''r1'' ''u1'' ?ann (str_strip env_m1 (get req_hi ''text'' []))])"
    using history_bounded[OF reachable_two_created, of "''u1''" env_m1 req_hi]
      session_two_created_values(1,4) cr tr by blast
  then have send: "room_messages session_chat =
       (room_messages session_two_created)(''r1'' \<mapsto> [new_message env_m1 ''r1'' ''u1'' ?ann ''hi''])"
    by (simp add: session_chat_eq tx)
  have nr: "\<not> in_room (new_user ''u2'')"
    by (simp add: in_room_def current_room_def new_user_def)
  have "\<exists>h members others. room_messages session_chat ''r1'' = Some h
      \<and> sent session_chat_joined =
          sent (if in_room (new_user ''u2'') then leave_room ''u2'' session_chat else session_chat)
          @ (''u2'', RoomJoined \<lparr>room_id = ''r1'', room_code = ''AAAAAA'', room_name = ''Trip'',
                host_id = ''u1'', created_at = 1\<rparr> members (last_n 50 h))
          # map (\<lambda>m. (m, UserJoined
               (to_member ((new_user ''u2'')\<lparr>user_name := get req_join_a ''userName'' ''Guest'',
                  user_language := get req_join_a ''language'' ''en'',
                  user_room_id := Some ''r1''\<rparr>) False (now env_r2)) False)) others"
    using history_bounded[OF reachable_chat, of "''u2''" env_r2 req_join_a]
      session_chat_values(1,2) session_chat_joined_eq by blast
  then have join: "\<exists>members others. sent session_chat_joined = sent session_chat
         @ (''u2'', RoomJoined
              \<lparr>room_id = ''r1'', room_code = ''AAAAAA'', room_name = ''Trip'',
                host_id = ''u1'', created_at = 1\<rparr> members
              [\<lparr>message_id = ''m1'', message_room_id = ''r1'', sender_id = ''u1'',
                sender_name = ''Ann'', message_text = ''hi'', source_lang = ''en'',
                timestamp = 4\<rparr>])
         # map (\<lambda>m. (m, UserJoined
              \<lparr>member_id = ''u2'', member_name = ''Bo'', member_language = ''vi'',
                is_host = False, joined_at = 2\<rparr> False)) others"
    using nr session_chat_values(3)
    by (simp add: last_n_def to_member_def new_user_def req_join_a_def get_def env_r2_def)
  show ?thesis
    using send join reachable_two_created reachable_chat session_two_created_values(4)
    by blast
qed

subsection \<open>Sending a message\<close>

lemma recipients_all:
  assumes inv: "invariant s" and m: "room_members s rid = Some ms"
  shows "recipients s rid None = ms"
  using members_connected[OF inv m] m
  by (simp add: recipients_def get_def excluded_def)

lemma user_connected:
  assumes "invariant s" "users s uid = Some u"
  shows "uid \<in> active_connections s" "truthy uid" "user_id u = uid"
  using assms unfolding invariant_def conns_ok_def by blast+

text \<open>
  In a reachable state, for a registered user: \<^verbatim>\<open>SEND_MESSAGE\<close> without a current room
  sends \<^verbatim>\<open>NOT_IN_ROOM\<close> to the sender and changes nothing else; with a current room and a
  text that is empty after trimming it changes nothing and sends nothing; otherwise,
  when the current room has a membership list \<open>ms\<close>, the sender is one of its members,
  one new message with the sender's id, name and language and the trimmed text is put at
  the end of the room's history (the oldest dropped when the history was full), and
  \<^verbatim>\<open>NEW_MESSAGE\<close> with that message is sent to every member, in the order of the list.
\<close>

lemma send_message_effect:
  assumes "reachable s" "users s uid = Some u"
  shows
   "(current_room u = None \<longrightarrow>
       handle_send_message uid data e s =
         s\<lparr>sent := sent s @ [(uid, Error ''NOT_IN_ROOM'' ''You must join a room first'')]\<rparr>)
    \<and> (\<forall>rid. current_room u = Some rid \<longrightarrow> \<not> truthy (str_strip e (get data ''text'' [])) \<longrightarrow>
          handle_send_message uid data e s = s)
    \<and> (\<forall>rid ms. current_room u = Some rid \<longrightarrow> truthy (str_strip e (get data ''text'' [])) \<longrightarrow>
          room_members s rid = Some ms \<longrightarrow>
          (\<exists>h m. room_messages s rid = Some h \<and> uid \<in> set ms
             \<and> m = new_message e rid uid u (str_strip e (get data ''text'' []))
             \<and> sender_id m = uid \<and> sender_name m = user_name u
             \<and> source_lang m = user_language u
             \<and> message_text m = str_strip e (get data ''text'' [])
             \<and> handle_send_message uid data e s =
                 s\<lparr>room_messages := (room_messages s)
                      (rid \<mapsto> (if length h < 100 then h else tl h) @ [m]),
                   sent := sent s @ map (\<lambda>x. (x, NewMessage m)) ms\<rparr>))"
proof -
  have inv: "invariant s" using assms(1) by (rule reachable_invariant)
  note uc = user_connected[OF inv assms(2)]
  have 1: "current_room u = None \<longrightarrow>
       handle_send_message uid data e s =
         s\<lparr>sent := sent s @ [(uid, Error ''NOT_IN_ROOM'' ''You must join a room first'')]\<rparr>"
    using handle_send_message_not_in_room[OF assms(2)] uc(1) by simp
  have 2: "\<forall>rid. current_room u = Some rid \<longrightarrow> \<not> truthy (str_strip e (get data ''text'' [])) \<longrightarrow>
          handle_send_message uid data e s = s"
    using handle_send_message_empty[OF assms(2)] by blast
  have 3: "\<forall>rid ms. current_room u = Some rid \<longrightarrow> truthy (str_strip e (get data ''text'' [])) \<longrightarrow>
          room_members s rid = Some ms \<longrightarrow>
          (\<exists>h m. room_messages s rid = Some h \<and> uid \<in> set ms
             \<and> m = new_message e rid uid u (str_strip e (get data ''text'' []))
             \<and> sender_id m = uid \<and> sender_name m = user_name u
             \<and> source_lang m = user_language u
             \<and> message_text m = str_strip e (get data ''text'' [])
             \<and> handle_send_message uid data e s =
                 s\<lparr>room_messages := (room_messages s)
                      (rid \<mapsto> (if length h < 100 then h else tl h) @ [m]),
                   sent := sent s @ map (\<lambda>x. (x, NewMessage m)) ms\<rparr>)"
  proof (intro allI impI)
    fix rid ms
    assume cr: "current_room u = Some rid" and tx: "truthy (str_strip e (get data ''text'' []))"
      and ms: "room_members s rid = Some ms"
    let ?m = "new_message e rid uid u (str_strip e (get data ''text'' []))"
    have "dom (room_messages s) = dom (room_members s)"
      using inv by (simp add: invariant_def stores_ok_def)
    then obtain h where h: "room_messages s rid = Some h" using ms by blast
    have mem: "uid \<in> set ms"
      using inv assms(2) current_roomD[OF cr] ms unfolding invariant_def current_ok_def by blast
    have "length h \<le> 100" using inv h by (simp add: invariant_def history_ok_def)
    then have "length h < 100 \<or> length h = 100" by arith
    then have "handle_send_message uid data e s =
                 s\<lparr>room_messages := (room_messages s)
                      (rid \<mapsto> (if length h < 100 then h else tl h) @ [?m]),
                   sent := sent s @ map (\<lambda>x. (x, NewMessage ?m)) ms\<rparr>"
      unfolding handle_send_message_stored[OF assms(2) cr tx h] recipients_all[OF inv ms]
      by (auto simp: last_n_full)
    then show "\<exists>h m. room_messages s rid = Some h \<and> uid \<in> set ms
             \<and> m = new_message e rid uid u (str_strip e (get data ''text'' []))
             \<and> sender_id m = uid \<and> sender_name m = user_name u
             \<and> source_lang m = user_language u
             \<and> message_text m = str_strip e (get data ''text'' [])
             \<and> handle_send_message uid data e s =
                 s\<lparr>room_messages := (room_messages s)
                      (rid \<mapsto> (if length h < 100 then h else tl h) @ [m]),
                   sent := sent s @ map (\<lambda>x. (x, NewMessage m)) ms\<rparr>"
      using h mem by (simp add: new_message_def)
  qed
  show ?thesis using 1 2 3 by blast
qed

subsection \<open>Updating the profile\<close>

text \<open>
  Claim C7, as stated, at a request that supplies the empty string as \<^verbatim>\<open>name\<close>: the
  field is supplied, and the name of the user is not overwritten.
\<close>

theorem update_profile_empty_name_counterexample:
  "req_profile_empty ''name'' = Some []
   \<and> map_option user_name (users session_created ''u1'') = Some ''Ann''
   \<and> map_option user_name (users session_empty_name ''u1'') = Some ''Ann''"
  by code_simp

lemma recipients_others:
  assumes inv: "invariant s" and t: "truthy uid"
  shows "recipients s rid (Some uid) = filter (\<lambda>m. m \<noteq> uid) (get (room_members s) rid [])"
proof (cases "room_members s rid")
  case None
  then show ?thesis by (simp add: recipients_def get_def)
next
  case (Some ms)
  have "\<forall>m\<in>set ms. m \<in> active_connections s"
    using members_connected[OF inv Some] by (metis filter_id_conv)
  then have "filter (\<lambda>m. \<not> excluded (Some uid) m \<and> m \<in> active_connections s) ms =
      filter (\<lambda>m. m \<noteq> uid) ms"
    using t by (auto simp: excluded_def intro: filter_cong)
  then show ?thesis using Some by (simp add: recipients_def get_def)
qed

text \<open>
  Claim C7, amended. In a reachable state, \<^verbatim>\<open>UPDATE_PROFILE\<close> of a registered user
  overwrites exactly the attributes whose fields are supplied with a value that is not
  empty and leaves the others untouched; it sends the updated profile to the requester;
  and it then sends the profile update to the other members of the user's room, the
  requester excluded, exactly when the user has a current room and the name has changed:
  a change of the language alone is not broadcast.
\<close>

theorem update_profile_effect:
  assumes "reachable s" "users s uid = Some u"
  shows
   "(let u' = u\<lparr>user_name := (case data ''name'' of
                    None \<Rightarrow> user_name u
                  | Some n \<Rightarrow> if n = [] then user_name u else n),
                user_language := (case data ''language'' of
                    None \<Rightarrow> user_language u
                  | Some l \<Rightarrow> if l = [] then user_language u else l)\<rparr>
     in handle_update_profile uid data e s =
          s\<lparr>users := (users s)(uid \<mapsto> u'),
            sent := sent s @ (uid, ProfileUpdated (to_member u' False (now e)))
              # (case current_room u of
                   None \<Rightarrow> []
                 | Some rid \<Rightarrow>
                     if user_name u' = user_name u then []
                     else map (\<lambda>m. (m, UserJoined (to_member u' False (now e)) True))
                            (filter (\<lambda>m. m \<noteq> uid) (get (room_members s) rid [])))\<rparr>)"
proof -
  have inv: "invariant s" using assms(1) by (rule reachable_invariant)
  note uc = user_connected[OF inv assms(2)]
  have inv1: "invariant (s\<lparr>users := (users s)(uid \<mapsto> u')\<rparr>)"
    if "user_id u' = user_id u" "user_room_id u' = user_room_id u" for u'
  proof -
    show ?thesis
    proof -
      have c: "conns_ok s" "stores_ok s" "codes_ok s" "members_ok s" "current_ok s" "history_ok s"
        using inv by (simp_all add: invariant_def)
      have "conns_ok (s\<lparr>users := (users s)(uid \<mapsto> u')\<rparr>)"
        using c(1) assms(2) that by (auto simp: conns_ok_def)
      moreover have "members_ok (s\<lparr>users := (users s)(uid \<mapsto> u')\<rparr>)"
        using c(4) assms(2) that unfolding members_ok_def by simp (metis option.inject)
      moreover have "current_ok (s\<lparr>users := (users s)(uid \<mapsto> u')\<rparr>)"
        using c(5) assms(2) that unfolding current_ok_def by auto
      ultimately show ?thesis
        using c by (simp add: invariant_def stores_ok_def codes_ok_def history_ok_def)
    qed
  qed
  have rec: "recipients (s\<lparr>users := (users s)(uid \<mapsto> u'),
        sent := x\<rparr>) rid (Some uid) =
      filter (\<lambda>m. m \<noteq> uid) (get (room_members s) rid [])"
    if "user_id u' = user_id u" "user_room_id u' = user_room_id u" for u' x rid
  proof -
    have "recipients (s\<lparr>users := (users s)(uid \<mapsto> u'), sent := x\<rparr>) rid (Some uid) =
        recipients (s\<lparr>users := (users s)(uid \<mapsto> u')\<rparr>) rid (Some uid)"
      by (simp add: recipients_def)
    then show ?thesis
      using recipients_others[OF inv1[OF that] uc(2), of rid] by simp
  qed
  show ?thesis
    using assms(2) uc(1)
    by (auto simp: handle_update_profile_def Let_def send_personal_message_eq
        broadcast_to_room_eq rec current_room_def truthy_def split: option.split)
qed

theorem update_profile_effect_witness:
  "reachable session_two
   \<and> handle_update_profile ''u2'' req_rename env_m1 session_two =
       session_two\<lparr>users := (users session_two)(''u2'' \<mapsto>
           \<lparr>user_id = ''u2'', user_name = ''Bob'', user_language = ''vi'',
             user_room_id = Some ''r1''\<rparr>),
         sent := sent session_two @
           [(''u2'', ProfileUpdated \<lparr>member_id = ''u2'', member_name = ''Bob'',
               member_language = ''vi'', is_host = False, joined_at = 4\<rparr>),
            (''u1'', UserJoined \<lparr>member_id = ''u2'', member_name = ''Bob'',
               member_language = ''vi'', is_host = False, joined_at = 4\<rparr> True)]\<rparr>
   \<and> handle_update_profile ''u2'' req_language env_m1 session_two =
       session_two\<lparr>users := (users session_two)(''u2'' \<mapsto>
           \<lparr>user_id = ''u2'', user_name = ''Bo'', user_language = ''fr'',
             user_room_id = Some ''r1''\<rparr>),
         sent := sent session_two @
           [(''u2'', ProfileUpdated \<lparr>member_id = ''u2'', member_name = ''Bo'',
               member_language = ''fr'', is_host = False, joined_at = 4\<rparr>)]\<rparr>"
proof -
  have cr: "current_room \<lparr>user_id = ''u2'', user_name = ''Bo'', user_language = ''vi'',
           user_room_id = Some ''r1''\<rparr> = Some ''r1''"
    by (simp add: current_room_def truthy_def)
  have d: "req_rename ''name'' = Some ''Bob''" "req_rename ''language'' = None"
    "req_language ''name'' = None" "req_language ''language'' = Some ''fr''"
    "now env_m1 = 4"
    by (simp_all add: req_rename_def req_language_def env_m1_def)
  have a: "handle_update_profile ''u2'' req_rename env_m1 session_two =
       session_two\<lparr>users := (users session_two)(''u2'' \<mapsto>
           \<lparr>user_id = ''u2'', user_name = ''Bob'', user_language = ''vi'',
             user_room_id = Some ''r1''\<rparr>),
         sent := sent session_two @
           [(''u2'', ProfileUpdated \<lparr>member_id = ''u2'', member_name = ''Bob'',
               member_language = ''vi'', is_host = False, joined_at = 4\<rparr>),
            (''u1'', UserJoined \<lparr>member_id = ''u2'', member_name = ''Bob'',
               member_language = ''vi'', is_host = False, joined_at = 4\<rparr> True)]\<rparr>"
    using update_profile_effect[OF reachable_two session_two_values(2), of req_rename env_m1]
    by (simp add: d cr session_two_values(3) get_def to_member_def)
  have b: "handle_update_profile ''u2'' req_language env_m1 session_two =
       session_two\<lparr>users := (users session_two)(''u2'' \<mapsto>
           \<lparr>user_id = ''u2'', user_name = ''Bo'', user_language = ''fr'',
             user_room_id = Some ''r1''\<rparr>),
         sent := sent session_two @
           [(''u2'', ProfileUpdated \<lparr>member_id = ''u2'', member_name = ''Bo'',
               member_language = ''fr'', is_host = False, joined_at = 4\<rparr>)]\<rparr>"
    using update_profile_effect[OF reachable_two session_two_values(2), of req_language env_m1]
    by (simp add: d cr session_two_values(3) get_def to_member_def)
  show ?thesis using a b reachable_two by blast
qed

subsection \<open>Dispatch\<close>

lemma leave_room_dom_users:
  assumes inv: "invariant s"
  shows "dom (users (leave_room uid s)) = dom (users s)"
proof (cases "users s uid")
  case None
  then show ?thesis by (simp add: leave_room_noop)
next
  case (Some u)
  show ?thesis
  proof (cases "in_room u")
    case True
    show ?thesis using Some by (auto simp: leave_room_users[OF inv Some True])
  next
    case False
    then show ?thesis using Some by (simp add: leave_room_noop in_room_def)
  qed
qed

lemma handle_create_room_session:
  assumes inv: "invariant s"
  shows "dom (users (handle_create_room uid data e s)) = dom (users s)"
    and "active_connections (handle_create_room uid data e s) = active_connections s"
proof -
  show "dom (users (handle_create_room uid data e s)) = dom (users s)"
  proof (cases "users s uid")
    case None
    then show ?thesis by (simp add: handle_create_room_def)
  next
    case (Some u)
    then show ?thesis by (auto simp: users_handle_create_room[OF Some inv])
  qed
  show "active_connections (handle_create_room uid data e s) = active_connections s"
    using inv
    by (simp add: handle_create_room_def Let_def send_personal_message_eq
        leave_room_connections split: option.split)
qed

lemma handle_join_room_session:
  assumes inv: "invariant s"
  shows "case handle_join_room uid data e s of
      Inl (x, s') \<Rightarrow> dom (users s') = dom (users s) \<and> active_connections s' = active_connections s
    | Inr s' \<Rightarrow> dom (users s') = dom (users s) \<and> active_connections s' = active_connections s"
proof (cases "users s uid")
  case None
  then show ?thesis by (simp add: handle_join_room_def)
next
  case (Some u)
  show ?thesis
  proof (cases "find_room s (str_upper e (get data ''roomCode'' []))")
    case None
    with Some show ?thesis
      by (simp add: handle_join_room_def Let_def send_error_eq)
  next
    case fr: (Some p)
    obtain rid r where p: "p = (rid, r)" by (cases p)
    define s1 where "s1 = (if in_room u then leave_room uid s else s)"
    have d: "dom (users s1) = dom (users s)" "active_connections s1 = active_connections s"
      using inv by (simp_all add: s1_def leave_room_dom_users leave_room_connections)
    have "uid \<in> dom (users s)" using Some by blast
    then have "insert uid (dom (users s1)) = dom (users s)" using d(1) by blast
    then show ?thesis
      using d(2)
      unfolding handle_join_room_found[OF inv Some fr[unfolded p] s1_def refl]
      by (simp split: option.split)
  qed
qed

lemma handle_send_message_session:
  "users (handle_send_message uid data e s) = users s"
  "active_connections (handle_send_message uid data e s) = active_connections s"
  by (simp_all add: handle_send_message_def Let_def send_error_eq broadcast_to_room_eq
      split: option.split)

lemma handle_update_profile_session:
  "dom (users (handle_update_profile uid data e s)) = dom (users s)"
  "active_connections (handle_update_profile uid data e s) = active_connections s"
  by (auto simp: handle_update_profile_def Let_def send_personal_message_eq
      broadcast_to_room_eq split: option.split)

lemma handle_get_room_info_session:
  "users (handle_get_room_info uid e s) = users s"
  "active_connections (handle_get_room_info uid e s) = active_connections s"
  by (simp_all add: handle_get_room_info_def send_error_eq send_personal_message_eq
      split: option.split)

lemma route_session:
  assumes inv: "invariant s"
  shows "case route uid data e s of
      Inl (x, s') \<Rightarrow> dom (users s') = dom (users s) \<and> active_connections s' = active_connections s
    | Inr s' \<Rightarrow> dom (users s') = dom (users s) \<and> active_connections s' = active_connections s"
  using handle_join_room_session[OF inv, of uid data e] inv
  by (simp add: route_def Let_def handle_create_room_session handle_leave_room_def
      leave_room_dom_users leave_room_connections handle_send_message_session
      handle_update_profile_session handle_get_room_info_session send_error_eq
      send_personal_message_eq)

lemma dispatch_session:
  assumes inv: "invariant s"
  shows "dom (users (dispatch uid data e s)) = dom (users s)"
    and "active_connections (dispatch uid data e s) = active_connections s"
  using route_session[OF inv, of uid data e]
  by (auto simp: dispatch_def send_error_eq split: sum.splits prod.splits)

text \<open>
  In a reachable state, for a request of a registered user that is a JSON object: the
  \<^verbatim>\<open>try\<close> statement of \<^verbatim>\<open>handle_message\<close> hands a request of a recognised type to the one
  handler of that type; for any other type, a missing one included, it only sends
  \<^verbatim>\<open>INVALID_MESSAGE_TYPE\<close>, naming the type, to the requester; an exception that leaves
  a handler is turned into one \<^verbatim>\<open>INTERNAL_ERROR\<close> event for the requester, added to the
  state in which the handler stopped; and in every case the statement ends in a state in
  which the registered users and the connections are the same, the requester among them.
\<close>

lemma dispatch_recovers:
  assumes "reachable s" "users s uid = Some u"
  shows
   "(data ''type'' = Some ''CREATE_ROOM'' \<longrightarrow>
       dispatch uid data e s = handle_create_room uid data e s)
    \<and> (data ''type'' = Some ''JOIN_ROOM'' \<longrightarrow>
         route uid data e s = handle_join_room uid data e s)
    \<and> (data ''type'' = Some ''LEAVE_ROOM'' \<longrightarrow>
         dispatch uid data e s = handle_leave_room uid s)
    \<and> (data ''type'' = Some ''SEND_MESSAGE'' \<longrightarrow>
         dispatch uid data e s = handle_send_message uid data e s)
    \<and> (data ''type'' = Some ''UPDATE_PROFILE'' \<longrightarrow>
         dispatch uid data e s = handle_update_profile uid data e s)
    \<and> (data ''type'' = Some ''GET_ROOM_INFO'' \<longrightarrow>
         dispatch uid data e s = handle_get_room_info uid e s)
    \<and> (data ''type'' = Some ''PING'' \<longrightarrow>
         dispatch uid data e s = s\<lparr>sent := sent s @ [(uid, Pong)]\<rparr>)
    \<and> (data ''type'' \<noteq> Some ''CREATE_ROOM'' \<and> data ''type'' \<noteq> Some ''JOIN_ROOM''
         \<and> data ''type'' \<noteq> Some ''LEAVE_ROOM'' \<and> data ''type'' \<noteq> Some ''SEND_MESSAGE''
         \<and> data ''type'' \<noteq> Some ''UPDATE_PROFILE'' \<and> data ''type'' \<noteq> Some ''GET_ROOM_INFO''
         \<and> data ''type'' \<noteq> Some ''PING'' \<longrightarrow>
         dispatch uid data e s =
           s\<lparr>sent := sent s @ [(uid, Error ''INVALID_MESSAGE_TYPE''
                (''Unknown message type: '' @ str_type (data ''type'')))]\<rparr>)
    \<and> (\<forall>s'. route uid data e s = Inr s' \<longrightarrow> dispatch uid data e s = s')
    \<and> (\<forall>x s'. route uid data e s = Inl (x, s') \<longrightarrow>
          dispatch uid data e s =
            s'\<lparr>sent := sent s' @ [(uid, Error ''INTERNAL_ERROR'' (str_exn x))]\<rparr>)
    \<and> dom (users (dispatch uid data e s)) = dom (users s)
    \<and> active_connections (dispatch uid data e s) = active_connections s
    \<and> users (dispatch uid data e s) uid \<noteq> None
    \<and> uid \<in> active_connections (dispatch uid data e s)"
proof -
  have inv: "invariant s" using assms(1) by (rule reachable_invariant)
  note uc = user_connected[OF inv assms(2)]
  note hs = dispatch_session[OF inv, of uid data e]
  have r: "data ''type'' = Some ''JOIN_ROOM'' \<longrightarrow>
         route uid data e s = handle_join_room uid data e s"
    by (simp add: route_def)
  have k: "\<forall>s'. route uid data e s = Inr s' \<longrightarrow> dispatch uid data e s = s'"
    by (simp add: dispatch_def)
  have x: "\<forall>x s'. route uid data e s = Inl (x, s') \<longrightarrow>
          dispatch uid data e s =
            s'\<lparr>sent := sent s' @ [(uid, Error ''INTERNAL_ERROR'' (str_exn x))]\<rparr>"
  proof (intro allI impI)
    fix x s'
    assume a: "route uid data e s = Inl (x, s')"
    then have "active_connections s' = active_connections s"
      using route_session[OF inv, of uid data e] by simp
    then show "dispatch uid data e s =
            s'\<lparr>sent := sent s' @ [(uid, Error ''INTERNAL_ERROR'' (str_exn x))]\<rparr>"
      using a uc(1) by (simp add: dispatch_def send_error_eq)
  qed
  have u: "users (dispatch uid data e s) uid \<noteq> None"
    using hs(1) assms(2) by blast
  have "(data ''type'' = Some ''CREATE_ROOM'' \<longrightarrow>
       dispatch uid data e s = handle_create_room uid data e s)
    \<and> (data ''type'' = Some ''LEAVE_ROOM'' \<longrightarrow>
         dispatch uid data e s = handle_leave_room uid s)
    \<and> (data ''type'' = Some ''SEND_MESSAGE'' \<longrightarrow>
         dispatch uid data e s = handle_send_message uid data e s)
    \<and> (data ''type'' = Some ''UPDATE_PROFILE'' \<longrightarrow>
         dispatch uid data e s = handle_update_profile uid data e s)
    \<and> (data ''type'' = Some ''GET_ROOM_INFO'' \<longrightarrow>
         dispatch uid data e s = handle_get_room_info uid e s)
    \<and> (data ''type'' = Some ''PING'' \<longrightarrow>
         dispatch uid data e s = s\<lparr>sent := sent s @ [(uid, Pong)]\<rparr>)
    \<and> (data ''type'' \<noteq> Some ''CREATE_ROOM'' \<and> data ''type'' \<noteq> Some ''JOIN_ROOM''
         \<and> data ''type'' \<noteq> Some ''LEAVE_ROOM'' \<and> data ''type'' \<noteq> Some ''SEND_MESSAGE''
         \<and> data ''type'' \<noteq> Some ''UPDATE_PROFILE'' \<and> data ''type'' \<noteq> Some ''GET_ROOM_INFO''
         \<and> data ''type'' \<noteq> Some ''PING'' \<longrightarrow>
         dispatch uid data e s =
           s\<lparr>sent := sent s @ [(uid, Error ''INVALID_MESSAGE_TYPE''
                (''Unknown message type: '' @ str_type (data ''type'')))]\<rparr>)"
    using uc(1)
    by (simp add: dispatch_def route_def send_error_eq send_personal_message_eq)
  then show ?thesis using r k x u hs uc(1) by simp
qed

lemma session_not_object_values:
  "users session_created ''u1'' \<noteq> None"
  "''u1'' \<in> active_connections session_created"
  "sent session_not_object = sent session_created"
  "users session_not_object ''u1'' = None"
  "''u1'' \<notin> active_connections session_not_object"
  "rooms session_not_object ''r1'' = None"
  by code_simp+

text \<open>
  Claim C8. No request ends the session: every failure while a request is handled is
  turned into \<^verbatim>\<open>INTERNAL_ERROR\<close> for the requester, and the session stays usable. The
  code does not keep this for a text frame that is valid JSON but no JSON object, such
  as \<^verbatim>\<open>[]\<close>: \<^verbatim>\<open>json.loads\<close> returns a list, the statement \<^verbatim>\<open>msg_type = data.get("type")\<close>,
  which stands before the \<^verbatim>\<open>try\<close>, raises \<^verbatim>\<open>AttributeError\<close>, the exception leaves
  \<^verbatim>\<open>handle_message\<close> and the loop of \<^verbatim>\<open>websocket_endpoint\<close>, and the endpoint disconnects
  the user. For the user who has created a room and sends that frame: no event is sent,
  the user is no longer registered nor connected, and the room is destroyed.
\<close>

theorem non_object_request_ends_session:
  "reachable session_created
   \<and> users session_created ''u1'' \<noteq> None
   \<and> ''u1'' \<in> active_connections session_created
   \<and> handle_message ''u1'' (Not_Object ''list'') env_m1 session_created =
       Inl (AttributeError (CHR 39 # ''list'' @ CHR 39 # '' object has no attribute ''
                              @ CHR 39 # ''get'' @ [CHR 39]), session_created)
   \<and> session_not_object = disconnect ''u1'' session_created
   \<and> sent session_not_object = sent session_created
   \<and> users session_not_object ''u1'' = None
   \<and> ''u1'' \<notin> active_connections session_not_object
   \<and> rooms session_not_object ''r1'' = None"
proof -
  have "handle_message ''u1'' (Not_Object ''list'') env_m1 session_created =
       Inl (AttributeError (CHR 39 # ''list'' @ CHR 39 # '' object has no attribute ''
                              @ CHR 39 # ''get'' @ [CHR 39]), session_created)"
    by (simp add: handle_message_def)
  moreover have "session_not_object = disconnect ''u1'' session_created"
    by (simp add: session_not_object_def websocket_endpoint_not_object)
  ultimately show ?thesis
    using reachable_created session_not_object_values by blast
qed

subsection \<open>Room codes on joining\<close>

lemma ascii_upper_char_alphabet: "c \<in> set code_alphabet \<Longrightarrow> ascii_upper_char c = c"
  by (auto simp: code_alphabet_def ascii_upper_char_def)

lemma ascii_upper_valid_code: "valid_code c \<Longrightarrow> ascii_upper c = c"
  by (simp add: valid_code_def ascii_upper_def ascii_upper_char_alphabet map_idI)

lemma leave_room_sent:
  assumes inv: "invariant s"
  shows "\<exists>n ms. sent (leave_room uid s) = sent s @ map (\<lambda>m. (m, UserLeft uid n)) ms"
proof (cases "users s uid")
  case None
  then have "sent (leave_room uid s) = sent s @ map (\<lambda>m. (m, UserLeft uid [])) []"
    by (simp add: leave_room_noop)
  then show ?thesis by blast
next
  case (Some u)
  show ?thesis
  proof (cases "current_room u")
    case None
    with Some have "sent (leave_room uid s) = sent s @ map (\<lambda>m. (m, UserLeft uid [])) []"
      by (simp add: leave_room_noop)
    then show ?thesis by blast
  next
    case cr: (Some rid)
    show ?thesis
    proof (cases rule: leave_room_cases[OF inv Some cr])
      case 1
      then have "sent (leave_room uid s) = sent s @ map (\<lambda>m. (m, UserLeft uid [])) []"
        by simp
      then show ?thesis by blast
    next
      case (2 ms ro)
      then have "sent (leave_room uid s) = sent s @ map (\<lambda>m. (m, UserLeft uid [])) []"
        by simp
      then show ?thesis by blast
    next
      case (3 ms ro)
      then show ?thesis by auto
    qed
  qed
qed

lemma stored_codes_valid:
  assumes inv: "invariant s" and c: "room_codes s c = Some rid"
  shows "valid_code c" "truthy rid" "\<exists>r. rooms s rid = Some r \<and> room_code r = c"
proof -
  from inv c obtain r where r: "rooms s rid = Some r" "room_code r = c"
    unfolding invariant_def codes_ok_def by blast
  then show "\<exists>r. rooms s rid = Some r \<and> room_code r = c" by blast
  from inv r show "valid_code c" "truthy rid"
    unfolding invariant_def stores_ok_def by blast+
qed

lemma join_target_members:
  assumes inv: "invariant s" and u: "users s uid = Some u" and r: "rooms s rid = Some r"
  shows "(room_members (if in_room u then leave_room uid s else s) rid = None) =
         (room_members s rid = Some [uid])"
proof -
  have doms: "dom (room_members s) = dom (rooms s)"
    using inv by (simp add: invariant_def stores_ok_def)
  then obtain ms0 where ms0: "room_members s rid = Some ms0" using r by blast
  have tr: "truthy rid" using inv r unfolding invariant_def stores_ok_def by blast
  have mem: "uid \<in> set ms0 \<Longrightarrow> user_room_id u = Some rid"
    using inv ms0 u unfolding invariant_def members_ok_def by fastforce
  show ?thesis
  proof (cases "current_room u")
    case None
    then have "\<not> in_room u" by (simp add: in_room_def)
    moreover have "ms0 \<noteq> [uid]" using mem None tr by (auto simp: current_room_def)
    ultimately show ?thesis using ms0 by simp
  next
    case cr: (Some rid')
    then have ir: "in_room u" by (simp add: in_room_def)
    note d = current_roomD[OF cr]
    have other: "rid \<noteq> rid' \<Longrightarrow> ms0 \<noteq> [uid]" using mem d by auto
    have cur: "\<And>ms. room_members s rid' = Some ms \<Longrightarrow> uid \<in> set ms \<and> distinct ms"
      using inv u d unfolding invariant_def current_ok_def members_ok_def by blast
    show ?thesis
    proof (cases rule: leave_room_cases[OF inv u cr])
      case 1
      then have ne: "rid \<noteq> rid'" using ms0 by auto
      then show ?thesis using 1 ir ms0 other by simp
    next
      case (2 ms ro)
      have one: "ms = [uid]" using cur[OF 2(1)] 2(3) by (cases ms) (auto split: if_splits)
      show ?thesis
      proof (cases "rid = rid'")
        case True
        then show ?thesis using 2 ir ms0 one by simp
      next
        case False
        then show ?thesis using 2 ir ms0 other by simp
      qed
    next
      case (3 ms ro)
      show ?thesis
      proof (cases "rid = rid'")
        case True
        then have "ms0 = ms" using 3(1) ms0 by simp
        then have "ms0 \<noteq> [uid]" using 3(3) by auto
        then show ?thesis using 3 ir ms0 True by simp
      next
        case False
        then show ?thesis using 3 ir ms0 other by simp
      qed
    qed
  qed
qed

lemma join_leave_sent:
  assumes inv: "invariant s"
  shows "\<exists>n ls. sent (if in_room u then leave_room uid s else s) =
           sent s @ map (\<lambda>m. (m, UserLeft uid n)) ls"
proof (cases "in_room u")
  case True
  then show ?thesis using leave_room_sent[OF inv, of uid] by simp
next
  case False
  then have "sent (if in_room u then leave_room uid s else s) =
      sent s @ map (\<lambda>m. (m, UserLeft uid [])) []" by simp
  then show ?thesis by blast
qed

text \<open>
  Claim C9. In a reachable state, for a registered user: \<^verbatim>\<open>JOIN_ROOM\<close> looks the code up
  in the form that \<^verbatim>\<open>str.upper\<close> gives it, so that two codes with the same upper-case form
  give the same result; where \<^verbatim>\<open>str.upper\<close> acts on six ASCII letters and digits as ASCII
  upper-casing, two texts with the same ASCII upper-case form, that of a room code, give
  the same result, and every stored code is its own upper-case form. Every generated
  code and every stored code has six characters, each an upper-case letter or a digit.
  When the code resolves to no live room the handler returns the state with one
  \<^verbatim>\<open>INVALID_ROOM_CODE\<close> event for the requester added and nothing else changed. When the
  code resolves to the live room \<open>r\<close> with the id \<open>rid\<close>, the user first leaves their
  current room, which sends \<^verbatim>\<open>USER_LEFT\<close> events only; the user then has the name and
  language of the request and the current room \<open>rid\<close>; if the user was the only member
  of \<open>rid\<close>, that room is gone and the lookup of its members raises \<^verbatim>\<open>KeyError\<close>;
  otherwise the user is put at the end of the members of \<open>rid\<close>, \<^verbatim>\<open>ROOM_JOINED\<close> with the
  room \<open>r\<close>, its members and its last 50 messages is sent to the user, and \<^verbatim>\<open>USER_JOINED\<close>
  to the members that were there before. No \<^verbatim>\<open>INVALID_ROOM_CODE\<close> is sent in that case.
\<close>

theorem join_room_code:
  assumes "reachable s" "users s uid = Some u"
  shows
   "(\<forall>c. str_upper e c = str_upper e (get data ''roomCode'' []) \<longrightarrow>
        handle_join_room uid (data(''roomCode'' \<mapsto> c)) e s = handle_join_room uid data e s)
    \<and> (upper_on_codes (str_upper e) \<longrightarrow>
         (\<forall>c c'. valid_code (ascii_upper c) \<longrightarrow> ascii_upper c' = ascii_upper c \<longrightarrow>
            handle_join_room uid (data(''roomCode'' \<mapsto> c')) e s =
            handle_join_room uid (data(''roomCode'' \<mapsto> c)) e s)
         \<and> (\<forall>c rid. room_codes s c = Some rid \<longrightarrow> str_upper e c = c))
    \<and> valid_code (generate_room_code (rnd e))
    \<and> length (generate_room_code (rnd e)) = 6
    \<and> (\<forall>c rid. room_codes s c = Some rid \<longrightarrow> valid_code c \<and> length c = 6)
    \<and> (\<forall>rid r. rooms s rid = Some r \<longrightarrow> valid_code (room_code r) \<and> length (room_code r) = 6)
    \<and> (\<not> (\<exists>rid. room_codes s (str_upper e (get data ''roomCode'' [])) = Some rid \<and> rooms s rid \<noteq> None)
         \<longrightarrow> handle_join_room uid data e s =
               Inr (s\<lparr>sent := sent s @ [(uid, Error ''INVALID_ROOM_CODE'' ''Room not found'')]\<rparr>))
    \<and> (\<forall>rid r. room_codes s (str_upper e (get data ''roomCode'' [])) = Some rid \<longrightarrow>
          rooms s rid = Some r \<longrightarrow>
          (let s1 = (if in_room u then leave_room uid s else s);
               u' = u\<lparr>user_name := get data ''userName'' ''Guest'',
                      user_language := get data ''language'' ''en'', user_room_id := Some rid\<rparr>
           in handle_join_room uid data e s =
                (case room_members s1 rid of
                   None \<Rightarrow> Inl (KeyError rid, s1\<lparr>users := (users s1)(uid \<mapsto> u')\<rparr>)
                 | Some ms \<Rightarrow>
                     Inr (s1\<lparr>users := (users s1)(uid \<mapsto> u'),
                           room_members := (room_members s1)(rid \<mapsto> ms @ [uid]),
                           sent := sent s1 @
                             (uid, RoomJoined r
                                (member_list (s1\<lparr>users := (users s1)(uid \<mapsto> u')\<rparr>) r (now e)
                                   (ms @ [uid]))
                                (last_n 50 (get (room_messages s1) rid [])))
                             # map (\<lambda>m. (m, UserJoined (to_member u' False (now e)) False)) ms\<rparr>))
              \<and> (room_members s1 rid = None) = (room_members s rid = Some [uid])
              \<and> (\<exists>n ls. sent s1 = sent s @ map (\<lambda>m. (m, UserLeft uid n)) ls)))"
proof -
  have inv: "invariant s" using assms(1) by (rule reachable_invariant)
  note uc = user_connected[OF inv assms(2)]
  let ?c = "str_upper e (get data ''roomCode'' [])"
  have 1: "\<forall>c. str_upper e c = ?c \<longrightarrow>
        handle_join_room uid (data(''roomCode'' \<mapsto> c)) e s = handle_join_room uid data e s"
    by (simp add: handle_join_room_def get_def cong: option.case_cong)
  have 2: "valid_code (generate_room_code (rnd e))"
    "length (generate_room_code (rnd e)) = 6"
    using valid_generate_room_code[of "rnd e"] by (simp_all add: valid_code_def)
  have 3: "\<forall>c rid. room_codes s c = Some rid \<longrightarrow> valid_code c \<and> length c = 6"
    using stored_codes_valid(1)[OF inv] by (auto simp: valid_code_def)
  have 4: "\<forall>rid r. rooms s rid = Some r \<longrightarrow> valid_code (room_code r) \<and> length (room_code r) = 6"
  proof (intro allI impI)
    fix rid r assume "rooms s rid = Some r"
    then have v: "valid_code (room_code r)"
      using inv unfolding invariant_def stores_ok_def by blast
    then show "valid_code (room_code r) \<and> length (room_code r) = 6"
      by (simp add: valid_code_def)
  qed
  have 5: "\<not> (\<exists>rid. room_codes s ?c = Some rid \<and> rooms s rid \<noteq> None)
         \<longrightarrow> handle_join_room uid data e s =
               Inr (s\<lparr>sent := sent s @ [(uid, Error ''INVALID_ROOM_CODE'' ''Room not found'')]\<rparr>)"
  proof
    assume a: "\<not> (\<exists>rid. room_codes s ?c = Some rid \<and> rooms s rid \<noteq> None)"
    then have "find_room s ?c = None"
      by (auto simp: find_room_def split: option.splits)
    then show "handle_join_room uid data e s =
               Inr (s\<lparr>sent := sent s @ [(uid, Error ''INVALID_ROOM_CODE'' ''Room not found'')]\<rparr>)"
      using assms(2) uc(1) by (simp add: handle_join_room_def Let_def send_error_eq)
  qed
  have 6: "\<forall>rid r. room_codes s ?c = Some rid \<longrightarrow> rooms s rid = Some r \<longrightarrow>
          (let s1 = (if in_room u then leave_room uid s else s);
               u' = u\<lparr>user_name := get data ''userName'' ''Guest'',
                      user_language := get data ''language'' ''en'', user_room_id := Some rid\<rparr>
           in handle_join_room uid data e s =
                (case room_members s1 rid of
                   None \<Rightarrow> Inl (KeyError rid, s1\<lparr>users := (users s1)(uid \<mapsto> u')\<rparr>)
                 | Some ms \<Rightarrow>
                     Inr (s1\<lparr>users := (users s1)(uid \<mapsto> u'),
                           room_members := (room_members s1)(rid \<mapsto> ms @ [uid]),
                           sent := sent s1 @
                             (uid, RoomJoined r
                                (member_list (s1\<lparr>users := (users s1)(uid \<mapsto> u')\<rparr>) r (now e)
                                   (ms @ [uid]))
                                (last_n 50 (get (room_messages s1) rid [])))
                             # map (\<lambda>m. (m, UserJoined (to_member u' False (now e)) False)) ms\<rparr>))
              \<and> (room_members s1 rid = None) = (room_members s rid = Some [uid])
              \<and> (\<exists>n ls. sent s1 = sent s @ map (\<lambda>m. (m, UserLeft uid n)) ls))"
  proof (intro allI impI)
    fix rid r
    assume c: "room_codes s ?c = Some rid" "rooms s rid = Some r"
    have "truthy rid" using stored_codes_valid(2)[OF inv c(1)] .
    then have fr: "find_room s ?c = Some (rid, r)"
      using c by (simp add: find_room_def)
    show "let s1 = (if in_room u then leave_room uid s else s);
               u' = u\<lparr>user_name := get data ''userName'' ''Guest'',
                      user_language := get data ''language'' ''en'', user_room_id := Some rid\<rparr>
           in handle_join_room uid data e s =
                (case room_members s1 rid of
                   None \<Rightarrow> Inl (KeyError rid, s1\<lparr>users := (users s1)(uid \<mapsto> u')\<rparr>)
                 | Some ms \<Rightarrow>
                     Inr (s1\<lparr>users := (users s1)(uid \<mapsto> u'),
                           room_members := (room_members s1)(rid \<mapsto> ms @ [uid]),
                           sent := sent s1 @
                             (uid, RoomJoined r
                                (member_list (s1\<lparr>users := (users s1)(uid \<mapsto> u')\<rparr>) r (now e)
                                   (ms @ [uid]))
                                (last_n 50 (get (room_messages s1) rid [])))
                             # map (\<lambda>m. (m, UserJoined (to_member u' False (now e)) False)) ms\<rparr>))
              \<and> (room_members s1 rid = None) = (room_members s rid = Some [uid])
              \<and> (\<exists>n ls. sent s1 = sent s @ map (\<lambda>m. (m, UserLeft uid n)) ls)"
      unfolding Let_def
      using handle_join_room_found[OF inv assms(2) fr refl refl]
        join_target_members[OF inv assms(2) c(2)] join_leave_sent[OF inv, of u uid]
      by blast
  qed
  have 7: "upper_on_codes (str_upper e) \<longrightarrow>
         (\<forall>c c'. valid_code (ascii_upper c) \<longrightarrow> ascii_upper c' = ascii_upper c \<longrightarrow>
            handle_join_room uid (data(''roomCode'' \<mapsto> c')) e s =
            handle_join_room uid (data(''roomCode'' \<mapsto> c)) e s)
         \<and> (\<forall>c rid. room_codes s c = Some rid \<longrightarrow> str_upper e c = c)"
  proof (intro impI conjI allI)
    fix c c'
    assume uoc: "upper_on_codes (str_upper e)"
      and v: "valid_code (ascii_upper c)" and eq: "ascii_upper c' = ascii_upper c"
    have "str_upper e c' = str_upper e c"
      using uoc v eq unfolding upper_on_codes_def by metis
    then show "handle_join_room uid (data(''roomCode'' \<mapsto> c')) e s =
            handle_join_room uid (data(''roomCode'' \<mapsto> c)) e s"
      by (simp add: handle_join_room_def get_def cong: option.case_cong)
  next
    fix c rid
    assume uoc: "upper_on_codes (str_upper e)" and c: "room_codes s c = Some rid"
    have "valid_code c" using stored_codes_valid(1)[OF inv c] .
    then show "str_upper e c = c"
      using uoc unfolding upper_on_codes_def by (metis ascii_upper_valid_code)
  qed
  show ?thesis using 1 7 2 3 4 5 6 by blast
qed

lemma session_two_created_codes:
  "room_codes session_two_created ''AAAAAA'' = Some ''r1''"
  "room_codes session_two_created ''ZZZZZZ'' = None"
  "rooms session_two_created ''r1'' =
     Some \<lparr>room_id = ''r1'', room_code = ''AAAAAA'', room_name = ''Trip'',
        host_id = ''u1'', created_at = 1\<rparr>"
  "str_upper env_r2 (get req_join_a ''roomCode'' []) = ''AAAAAA''"
  "str_upper env_r2 (get req_join_unknown ''roomCode'' []) = ''ZZZZZZ''"
  "ascii_upper ''AaAaAa'' = ''AAAAAA''"
  "ascii_upper ''AAAAAA'' = ''AAAAAA''"
  by code_simp+

lemma upper_on_codes_sample: "upper_on_codes (str_upper env_r2)"
  by (simp add: upper_on_codes_def env_r2_def)

theorem join_room_code_witness:
  "reachable session_two_created
   \<and> upper_on_codes (str_upper env_r2)
   \<and> room_codes session_two_created ''AAAAAA'' = Some ''r1''
   \<and> valid_code ''AAAAAA''
   \<and> str_upper env_r2 ''AAAAAA'' = ''AAAAAA''
   \<and> handle_join_room ''u2'' (req_join_a(''roomCode'' \<mapsto> ''AaAaAa'')) env_r2 session_two_created =
       handle_join_room ''u2'' (req_join_a(''roomCode'' \<mapsto> ''AAAAAA'')) env_r2 session_two_created
   \<and> handle_join_room ''u2'' req_join_unknown env_r2 session_two_created =
       Inr (session_two_created\<lparr>sent := sent session_two_created @
         [(''u2'', Error ''INVALID_ROOM_CODE'' ''Room not found'')]\<rparr>)
   \<and> handle_join_room ''u2'' req_join_a env_r2 session_two_created =
       Inr (session_two_created
         \<lparr>users := (users session_two_created)(''u2'' \<mapsto>
             \<lparr>user_id = ''u2'', user_name = ''Bo'', user_language = ''vi'',
               user_room_id = Some ''r1''\<rparr>),
          room_members := (room_members session_two_created)(''r1'' \<mapsto> [''u1'', ''u2'']),
          sent := sent session_two_created @
            [(''u2'', RoomJoined
                \<lparr>room_id = ''r1'', room_code = ''AAAAAA'', room_name = ''Trip'',
                  host_id = ''u1'', created_at = 1\<rparr>
                [\<lparr>member_id = ''u1'', member_name = ''Ann'', member_language = ''en'',
                   is_host = True, joined_at = 2\<rparr>,
                 \<lparr>member_id = ''u2'', member_name = ''Bo'', member_language = ''vi'',
                   is_host = False, joined_at = 2\<rparr>] []),
             (''u1'', UserJoined
                \<lparr>member_id = ''u2'', member_name = ''Bo'', member_language = ''vi'',
                  is_host = False, joined_at = 2\<rparr> False)]\<rparr>)"
proof -
  note u = session_two_created_values(2)
  note c = session_two_created_codes
  note th = join_room_code[OF reachable_two_created u]
  note uoc = upper_on_codes_sample
  have v: "valid_code ''AAAAAA''"
    using th[of env_r2 req_join_a] c(1) by blast
  have s: "str_upper env_r2 ''AAAAAA'' = ''AAAAAA''"
    using th[of env_r2 req_join_a] uoc c(1) by blast
  have "valid_code (ascii_upper ''AAAAAA'')" using v by (simp add: c(7))
  moreover have "ascii_upper ''AaAaAa'' = ascii_upper ''AAAAAA''" by (simp add: c(6,7))
  ultimately have a: "handle_join_room ''u2'' (req_join_a(''roomCode'' \<mapsto> ''AaAaAa'')) env_r2
        session_two_created =
      handle_join_room ''u2'' (req_join_a(''roomCode'' \<mapsto> ''AAAAAA'')) env_r2 session_two_created"
    using th[of env_r2 req_join_a] uoc by blast
  have "\<not> (\<exists>rid. room_codes session_two_created (str_upper env_r2 (get req_join_unknown ''roomCode'' []))
        = Some rid \<and> rooms session_two_created rid \<noteq> None)"
    by (simp add: c(5,2))
  then have d: "handle_join_room ''u2'' req_join_unknown env_r2 session_two_created =
       Inr (session_two_created\<lparr>sent := sent session_two_created @
         [(''u2'', Error ''INVALID_ROOM_CODE'' ''Room not found'')]\<rparr>)"
    using th[of env_r2 req_join_unknown] by blast
  have k: "room_codes session_two_created (str_upper env_r2 (get req_join_a ''roomCode'' [])) =
      Some ''r1''"
    by (simp add: c(4,1))
  note found = th[of env_r2 req_join_a, THEN conjunct2, THEN conjunct2, THEN conjunct2,
      THEN conjunct2, THEN conjunct2, THEN conjunct2, THEN conjunct2, rule_format, OF k c(3)]
  have nr: "(if in_room (new_user ''u2'') then leave_room ''u2'' session_two_created
        else session_two_created) = session_two_created"
    by (simp add: in_room_def current_room_def new_user_def)
  have g: "get req_join_a ''userName'' ''Guest'' = ''Bo''" "get req_join_a ''language'' ''en'' = ''vi''"
    "now env_r2 = 2" "get (room_messages session_two_created) ''r1'' [] = []"
    by (simp_all add: get_def req_join_a_def env_r2_def session_two_created_values(4))
  have ml: "\<And>r t. host_id r = ''u1'' \<Longrightarrow> member_list
      (session_two_created\<lparr>users := (users session_two_created)(''u2'' \<mapsto>
          \<lparr>user_id = ''u2'', user_name = ''Bo'', user_language = ''vi'',
            user_room_id = Some ''r1''\<rparr>)\<rparr>) r t [''u1'', ''u2''] =
      [\<lparr>member_id = ''u1'', member_name = ''Ann'', member_language = ''en'',
         is_host = True, joined_at = t\<rparr>,
       \<lparr>member_id = ''u2'', member_name = ''Bo'', member_language = ''vi'',
         is_host = False, joined_at = t\<rparr>]"
    by (simp add: member_list_def List.map_filter_simps session_two_created_values(1) to_member_def)
  have f: "handle_join_room ''u2'' req_join_a env_r2 session_two_created =
       Inr (session_two_created
         \<lparr>users := (users session_two_created)(''u2'' \<mapsto>
             \<lparr>user_id = ''u2'', user_name = ''Bo'', user_language = ''vi'',
               user_room_id = Some ''r1''\<rparr>),
          room_members := (room_members session_two_created)(''r1'' \<mapsto> [''u1'', ''u2'']),
          sent := sent session_two_created @
            [(''u2'', RoomJoined
                \<lparr>room_id = ''r1'', room_code = ''AAAAAA'', room_name = ''Trip'',
                  host_id = ''u1'', created_at = 1\<rparr>
                [\<lparr>member_id = ''u1'', member_name = ''Ann'', member_language = ''en'',
                   is_host = True, joined_at = 2\<rparr>,
                 \<lparr>member_id = ''u2'', member_name = ''Bo'', member_language = ''vi'',
                   is_host = False, joined_at = 2\<rparr>] []),
             (''u1'', UserJoined
                \<lparr>member_id = ''u2'', member_name = ''Bo'', member_language = ''vi'',
                  is_host = False, joined_at = 2\<rparr> False)]\<rparr>)"
    using found[unfolded Let_def nr g]
    by (simp add: ml session_two_created_values(3) new_user_def to_member_def last_n_def)
  show ?thesis using reachable_two_created uoc c(1) v s a d f by blast
qed

subsection \<open>Uniqueness of room codes\<close>

lemma session_collision_values:
  "map_option room_code (rooms session_collision ''r1'') = Some ''AAAAAA''"
  "map_option room_code (rooms session_collision ''r2'') = Some ''AAAAAA''"
  "room_members session_collision ''r1'' = Some [''u1'']"
  "room_members session_collision ''r2'' = Some [''u2'']"
  "room_codes session_two_created ''AAAAAA'' = Some ''r1''"
  "room_codes session_collision ''AAAAAA'' = Some ''r2''"
  by code_simp+

lemma reachable_collision: "reachable session_collision"
proof -
  have "fresh_ids session_two_created env_r2"
    using session_two_created_values(6)
    by (simp add: fresh_ids_def env_r2_def fresh_two_created truthy_def)
  then show ?thesis
    using reachable_two_created
    unfolding reachable_def session_collision_def
    by (intro reach_request)
qed

text \<open>
  Claim C2, as stated, at two \<^verbatim>\<open>CREATE_ROOM\<close> requests whose draws give the same code:
  \<^verbatim>\<open>Room(...)\<close> draws one code and the handler stores it without looking at
  \<^verbatim>\<open>room_codes\<close>. Both rooms are live with the code \<open>AAAAAA\<close>, and the entry of the code,
  which pointed to the first room, now points to the second.
\<close>

theorem code_collision_counterexample:
  "reachable session_collision
   \<and> map_option room_code (rooms session_collision ''r1'') = Some ''AAAAAA''
   \<and> map_option room_code (rooms session_collision ''r2'') = Some ''AAAAAA''
   \<and> room_members session_collision ''r1'' = Some [''u1'']
   \<and> room_members session_collision ''r2'' = Some [''u2'']
   \<and> room_codes session_two_created ''AAAAAA'' = Some ''r1''
   \<and> room_codes session_collision ''AAAAAA'' = Some ''r2''
   \<and> \<not> codes_unique session_collision"
proof -
  have "\<not> codes_unique session_collision"
  proof
    assume u: "codes_unique session_collision"
    obtain a b where ab: "rooms session_collision ''r1'' = Some a" "room_code a = ''AAAAAA''"
      "rooms session_collision ''r2'' = Some b" "room_code b = ''AAAAAA''"
      using session_collision_values(1,2) by auto
    then have "''r1'' = ''r2''" using u unfolding codes_unique_def by metis
    then show False by simp
  qed
  then show ?thesis using reachable_collision session_collision_values by blast
qed

lemma reach_mono:
  assumes "reach ok s" and "\<And>s e. ok s e \<Longrightarrow> ok' s e"
  shows "reach ok' s"
  using assms(1)
proof (induction rule: reach.induct)
  case reach_init
  show ?case by (rule reach.reach_init)
next
  case (reach_connect s uid)
  then show ?case by (simp add: reach.reach_connect)
next
  case (reach_request s e uid data)
  then show ?case by (simp add: reach.reach_request assms(2))
next
  case (reach_disconnect s uid)
  then show ?case by (simp add: reach.reach_disconnect)
qed

lemma code_map_exact_frame:
  "rooms s' = rooms s \<Longrightarrow> room_codes s' = room_codes s \<Longrightarrow> code_map_exact s' = code_map_exact s"
  by (simp add: code_map_exact_def)

lemma code_map_exact_unique: "code_map_exact s \<Longrightarrow> codes_unique s"
  unfolding code_map_exact_def codes_unique_def
  by (metis option.inject)

lemma code_map_exact_leave_room:
  assumes inv: "invariant s" and ex: "code_map_exact s"
  shows "code_map_exact (leave_room uid s)"
proof (cases "users s uid")
  case None
  then show ?thesis using ex by (simp add: leave_room_noop)
next
  case (Some u)
  show ?thesis
  proof (cases "current_room u")
    case None
    with Some show ?thesis using ex by (simp add: leave_room_noop)
  next
    case cr: (Some rid)
    show ?thesis
    proof (cases rule: leave_room_cases[OF inv Some cr])
      case 1
      then show ?thesis using ex by (simp add: code_map_exact_def)
    next
      case (2 ms ro)
      have "room_codes s (room_code ro) = Some rid"
        using ex 2(2) by (simp add: code_map_exact_def)
      then have "room_code r' \<noteq> room_code ro"
        if "rooms s rid' = Some r'" "rid' \<noteq> rid" for rid' r'
        using ex that unfolding code_map_exact_def by (metis option.inject)
      then show ?thesis
        using ex unfolding 2(4) code_map_exact_def by auto
    next
      case (3 ms ro)
      then show ?thesis using ex by (simp add: code_map_exact_def)
    qed
  qed
qed

lemma fresh_code_leave_room:
  assumes inv: "invariant s" and f: "fresh_code s e"
  shows "fresh_code (leave_room uid s) e"
  using f leave_room_rooms[OF inv] unfolding fresh_code_def by blast

lemma code_map_exact_create:
  assumes inv: "invariant s" and ex: "code_map_exact s" and d: "fresh_draws s e"
  shows "code_map_exact (handle_create_room uid data e s)"
proof (cases "users s uid")
  case None
  then show ?thesis using ex by (simp add: handle_create_room_def)
next
  case (Some u)
  define s1 where "s1 = (if in_room u then leave_room uid s else s)"
  have ex1: "code_map_exact s1"
    using ex code_map_exact_leave_room[OF inv ex] by (simp add: s1_def)
  have fc: "fresh_code s1 e"
    using d fresh_code_leave_room[OF inv, of e uid] by (simp add: s1_def fresh_draws_def)
  have fi: "rooms s1 (gen_id e) = None"
    using d fresh_after_leave[OF inv, of "gen_id e" uid]
    by (simp add: s1_def fresh_draws_def fresh_ids_def fresh_room_id_def)
  have "rooms (handle_create_room uid data e s) =
      (rooms s1)(gen_id e \<mapsto> \<lparr>room_id = gen_id e, room_code = generate_room_code (rnd e),
        room_name = get data ''roomName'' ''New Room'', host_id = uid, created_at = now e\<rparr>)"
    "room_codes (handle_create_room uid data e s) =
      (room_codes s1)(generate_room_code (rnd e) \<mapsto> gen_id e)"
    using Some
    by (simp_all add: handle_create_room_def Let_def send_personal_message_eq s1_def[symmetric])
  then show ?thesis
    using ex1 fc fi unfolding code_map_exact_def fresh_code_def by auto
qed

lemma code_map_exact_join:
  assumes inv: "invariant s" and ex: "code_map_exact s"
  shows "case handle_join_room uid data e s of
      Inl (x, s') \<Rightarrow> code_map_exact s' | Inr s' \<Rightarrow> code_map_exact s'"
proof (cases "users s uid")
  case None
  then show ?thesis using ex by (simp add: handle_join_room_def)
next
  case (Some u)
  show ?thesis
  proof (cases "find_room s (str_upper e (get data ''roomCode'' []))")
    case None
    with Some show ?thesis using ex
      by (simp add: handle_join_room_def Let_def send_error_eq code_map_exact_def)
  next
    case fr: (Some p)
    obtain rid r where p: "p = (rid, r)" by (cases p)
    define s1 where "s1 = (if in_room u then leave_room uid s else s)"
    have ex1: "code_map_exact s1"
      using ex code_map_exact_leave_room[OF inv ex] by (simp add: s1_def)
    then show ?thesis
      unfolding handle_join_room_found[OF inv Some fr[unfolded p] s1_def refl]
      by (simp add: code_map_exact_def split: option.split)
  qed
qed

lemma code_map_exact_disconnect:
  assumes inv: "invariant s" and ex: "code_map_exact s"
  shows "code_map_exact (disconnect uid s)"
proof (cases "users s uid")
  case None
  then show ?thesis using ex by (simp add: disconnect_def)
next
  case (Some u)
  define s1 where "s1 = (if in_room u then leave_room uid s else s)"
  have ex1: "code_map_exact s1"
    using ex code_map_exact_leave_room[OF inv ex] by (simp add: s1_def)
  then show ?thesis
    using Some
    by (simp add: disconnect_def Let_def s1_def[symmetric] code_map_exact_def)
qed

lemma code_map_exact_others:
  "code_map_exact (handle_send_message uid data e s) = code_map_exact s"
  "code_map_exact (handle_update_profile uid data e s) = code_map_exact s"
  "code_map_exact (handle_get_room_info uid e s) = code_map_exact s"
  "code_map_exact (send_personal_message ev uid s) = code_map_exact s"
  "code_map_exact (send_error uid c m s) = code_map_exact s"
  by (rule code_map_exact_frame;
      simp add: handle_send_message_def handle_update_profile_def handle_get_room_info_def
        Let_def send_error_eq send_personal_message_eq broadcast_to_room_eq
        split: option.split)+

lemma code_map_exact_dispatch:
  assumes inv: "invariant s" and ex: "code_map_exact s" and d: "fresh_draws s e"
  shows "code_map_exact (dispatch uid data e s)"
proof -
  have "case route uid data e s of
      Inl (x, s') \<Rightarrow> code_map_exact s' | Inr s' \<Rightarrow> code_map_exact s'"
    using code_map_exact_join[OF inv ex, of uid data e] ex
    by (simp add: route_def Let_def code_map_exact_create[OF inv ex d] handle_leave_room_def
        code_map_exact_leave_room[OF inv ex] code_map_exact_others)
  then show ?thesis
    by (auto simp: dispatch_def code_map_exact_others split: sum.splits prod.splits)
qed

lemma code_map_exact_websocket_endpoint:
  assumes inv: "invariant s" and ex: "code_map_exact s" and d: "fresh_draws s e"
  shows "code_map_exact (websocket_endpoint uid fr e s)"
  using websocket_endpoint_cases[of uid fr e s] code_map_exact_dispatch[OF inv ex d, of uid]
    code_map_exact_disconnect[OF inv ex, of uid] ex
  by (auto simp: send_personal_message_eq code_map_exact_def)

lemma reach_fresh_draws_reachable: "reach fresh_draws s \<Longrightarrow> reachable s"
  unfolding reachable_def by (erule reach_mono) (simp add: fresh_draws_def)

lemma reach_code_map_exact:
  assumes "reach fresh_draws s"
  shows "code_map_exact s"
  using assms
proof (induction rule: reach.induct)
  case reach_init
  show ?case by (simp add: code_map_exact_def init_def)
next
  case (reach_connect s uid)
  then show ?case
    by (simp add: code_map_exact_def connect_def send_personal_message_eq)
next
  case (reach_request s e uid fr)
  then show ?case
    using reachable_invariant[OF reach_fresh_draws_reachable]
    by (simp add: code_map_exact_websocket_endpoint)
next
  case (reach_disconnect s uid)
  then show ?case
    using reachable_invariant[OF reach_fresh_draws_reachable]
    by (simp add: code_map_exact_disconnect)
qed

text \<open>
  Claim C2, amended. \<^verbatim>\<open>CREATE_ROOM\<close> gives the new room the one code that is drawn and
  maps that code to the new room, whatever the code mapped to before. In every state
  reached by requests whose drawn code is not the code of a live room, no two live
  rooms have the same code and the code of every live room maps to that room.
\<close>

theorem codes_unique_when_fresh:
  assumes "reach fresh_draws s"
  shows "codes_unique s
    \<and> (\<forall>rid r. rooms s rid = Some r \<longrightarrow> room_codes s (room_code r) = Some rid)
    \<and> (\<forall>u. users s uid = Some u \<longrightarrow>
          room_codes (handle_create_room uid data e s) (generate_room_code (rnd e)) = Some (gen_id e)
          \<and> (\<exists>r. rooms (handle_create_room uid data e s) (gen_id e) = Some r
                \<and> room_code r = generate_room_code (rnd e)))"
proof -
  have ex: "code_map_exact s" using assms by (rule reach_code_map_exact)
  have "\<forall>u. users s uid = Some u \<longrightarrow>
          room_codes (handle_create_room uid data e s) (generate_room_code (rnd e)) = Some (gen_id e)
          \<and> (\<exists>r. rooms (handle_create_room uid data e s) (gen_id e) = Some r
                \<and> room_code r = generate_room_code (rnd e))"
    by (simp add: handle_create_room_def Let_def send_personal_message_eq)
  then show ?thesis
    using ex code_map_exact_unique[OF ex] unfolding code_map_exact_def by blast
qed

lemma generated_codes:
  "generate_room_code (rnd env_r1) = ''AAAAAA''"
  "generate_room_code (rnd env_r3) = ''BBBBBB''"
  by code_simp+

lemma rooms_session_two_created:
  "rooms session_two_created =
     [''r1'' \<mapsto> \<lparr>room_id = ''r1'', room_code = ''AAAAAA'', room_name = ''Trip'',
        host_id = ''u1'', created_at = 1\<rparr>]"
proof -
  have u1: "users session_two_connected ''u1'' = Some (new_user ''u1'')"
    and r: "rooms session_two_connected = Map.empty"
    by (simp_all add: session_two_connected_def connect_def send_personal_message_eq init_def)
  have nr: "\<not> in_room (new_user ''u1'')"
    by (simp add: in_room_def current_room_def new_user_def)
  have t: "req_create ''type'' = Some ''CREATE_ROOM''" "get req_create ''roomName'' ''New Room'' = ''Trip''"
    by (simp_all add: req_create_def get_def)
  have "rooms session_two_created =
      (rooms session_two_connected)(gen_id env_r1 \<mapsto>
        \<lparr>room_id = gen_id env_r1, room_code = generate_room_code (rnd env_r1),
          room_name = get req_create ''roomName'' ''New Room'', host_id = ''u1'',
          created_at = now env_r1\<rparr>)"
    using u1 nr t(1)
    by (simp add: session_two_created_def websocket_endpoint_object dispatch_def route_def handle_create_room_def
        Let_def send_personal_message_eq)
  then show ?thesis
    by (simp add: r t(2) generated_codes) (simp add: env_r1_def)
qed

lemma reach_fresh_two_rooms: "reach fresh_draws session_two_rooms"
proof -
  have c: "reach fresh_draws session_two_connected"
    unfolding session_two_connected_def
    by (intro reach_connect reach_init)
      (simp_all add: fresh_user_id_def truthy_def init_def connect_def send_personal_message_eq)
  have "fresh_draws session_two_connected env_r1"
    by (simp add: fresh_draws_def fresh_code_def fresh_ids_def fresh_room_id_def
        session_two_connected_def connect_def
        send_personal_message_eq init_def env_r1_def truthy_def new_user_def)
  then have d: "reach fresh_draws session_two_created"
    using c unfolding session_two_created_def by (intro reach_request)
  have "rooms session_two_created ''r3'' = None" by (simp add: rooms_session_two_created)
  then have "fresh_ids session_two_created env_r3"
    by (simp add: fresh_ids_def env_r3_def fresh_two_created truthy_def)
  moreover have "fresh_code session_two_created env_r3"
    by (auto simp: fresh_code_def rooms_session_two_created generated_codes split: if_splits)
  ultimately have "fresh_draws session_two_created env_r3" by (simp add: fresh_draws_def)
  then show ?thesis
    using d unfolding session_two_rooms_def by (intro reach_request)
qed

lemma session_two_rooms_values:
  "rooms session_two_rooms ''r1'' =
     Some \<lparr>room_id = ''r1'', room_code = ''AAAAAA'', room_name = ''Trip'',
        host_id = ''u1'', created_at = 1\<rparr>"
  "rooms session_two_rooms ''r3'' =
     Some \<lparr>room_id = ''r3'', room_code = ''BBBBBB'', room_name = ''Trip'',
        host_id = ''u2'', created_at = 3\<rparr>"
  by code_simp+

theorem codes_unique_when_fresh_witness:
  "reach fresh_draws session_two_rooms
   \<and> codes_unique session_two_rooms
   \<and> room_codes session_two_rooms ''AAAAAA'' = Some ''r1''
   \<and> room_codes session_two_rooms ''BBBBBB'' = Some ''r3''"
proof -
  note th = codes_unique_when_fresh[OF reach_fresh_two_rooms, of "''u1''" req_create env_r1]
  have a: "codes_unique session_two_rooms" using th by blast
  have "room_codes session_two_rooms (room_code \<lparr>room_id = ''r1'', room_code = ''AAAAAA'',
        room_name = ''Trip'', host_id = ''u1'', created_at = 1\<rparr>) = Some ''r1''"
    using th session_two_rooms_values(1) by blast
  moreover have "room_codes session_two_rooms (room_code \<lparr>room_id = ''r3'', room_code = ''BBBBBB'',
        room_name = ''Trip'', host_id = ''u2'', created_at = 3\<rparr>) = Some ''r3''"
    using th session_two_rooms_values(2) by blast
  ultimately show ?thesis using a reach_fresh_two_rooms by simp
qed

subsection \<open>Membership and current room\<close>

lemma users_session_created:
  "users session_created =
    (users session_connected)(''u1'' \<mapsto> \<lparr>user_id = ''u1'', user_name = ''Ann'',
        user_language = ''en'', user_room_id = Some ''r1''\<rparr>)"
proof -
  have u1: "users session_connected ''u1'' = Some (new_user ''u1'')"
    by (simp add: session_connected_def connect_def send_personal_message_eq)
  show ?thesis
    using users_handle_create_room[OF u1 reachable_invariant[OF reachable_connected],
        of req_create env_r1]
    by (simp add: session_created_def session_connected_def[symmetric] websocket_endpoint_object dispatch_def
        route_def req_create_def get_def env_r1_def new_user_def)
qed

lemma reachable_rejoined: "reachable session_rejoined"
proof -
  have "rooms session_created ''r2'' = None" by code_simp
  then have "fresh_ids session_created env_r2"
    by (simp add: fresh_ids_def fresh_room_id_def env_r2_def truthy_def users_session_created
        session_connected_def connect_def send_personal_message_eq init_def new_user_def)
  then show ?thesis
    using reachable_created
    unfolding reachable_def session_rejoined_def
    by (intro reach_request)
qed

text \<open>
  Claim C1. A user is in the membership list of a room exactly when that room is the
  user's current room, also after a \<^verbatim>\<open>JOIN_ROOM\<close> that names the room the user is
  already in. The code does not keep this: when the only member of a room joins that
  same room, \<^verbatim>\<open>_leave_room\<close> destroys the room, the handler then records the destroyed
  room as the user's room, and the lookup \<^verbatim>\<open>self.room_members[room_id]\<close> raises
  \<^verbatim>\<open>KeyError\<close>. In the state reached, the user has a current room that has no
  membership list, and has received \<^verbatim>\<open>INTERNAL_ERROR\<close>.
\<close>

theorem rejoin_own_room_dangling:
  "reachable session_rejoined
   \<and> room_members session_created ''r1'' = Some [''u1'']
   \<and> room_codes session_created ''AAAAAA'' = Some ''r1''
   \<and> users session_rejoined ''u1'' =
     Some \<lparr>user_id = ''u1'', user_name = ''Bo'', user_language = ''vi'',
           user_room_id = Some ''r1''\<rparr>
   \<and> rooms session_rejoined ''r1'' = None
   \<and> room_members session_rejoined ''r1'' = None
   \<and> room_codes session_rejoined ''AAAAAA'' = None
   \<and> last (sent session_rejoined) = (''u1'', Error ''INTERNAL_ERROR'' (str_exn (KeyError ''r1'')))"
proof -
  have "room_members session_created ''r1'' = Some [''u1'']"
    "room_codes session_created ''AAAAAA'' = Some ''r1''"
    "users session_rejoined ''u1'' =
     Some \<lparr>user_id = ''u1'', user_name = ''Bo'', user_language = ''vi'',
           user_room_id = Some ''r1''\<rparr>"
    "rooms session_rejoined ''r1'' = None"
    "room_members session_rejoined ''r1'' = None"
    "room_codes session_rejoined ''AAAAAA'' = None"
    "last (sent session_rejoined) = (''u1'', Error ''INTERNAL_ERROR'' (str_exn (KeyError ''r1'')))"
    by code_simp+
  then show ?thesis using reachable_rejoined by blast
qed

subsection \<open>Sending a message after a failed re-join\<close>

lemma session_rejoined_values:
  "users session_rejoined ''u1'' =
     Some \<lparr>user_id = ''u1'', user_name = ''Bo'', user_language = ''vi'',
           user_room_id = Some ''r1''\<rparr>"
  "room_messages session_rejoined ''r1'' = None"
  "room_members session_rejoined ''r1'' = None"
  "str_strip env_m1 (get req_hi ''text'' []) = ''hi''"
  by code_simp+

text \<open>
  Claim C6. A \<^verbatim>\<open>SEND_MESSAGE\<close> of a user with a current room and a text that is not empty
  after trimming puts one new message in the history of the room and sends
  \<^verbatim>\<open>NEW_MESSAGE\<close> to all members of the room, the sender included; without a current room
  the sender gets \<^verbatim>\<open>NOT_IN_ROOM\<close>. The code does not keep this in the state that the failed
  re-join of a room's only member leaves: the user's current room is the destroyed room
  \<open>r1\<close>, so
  the test \<^verbatim>\<open>if not user.room_id\<close> lets the request pass, the room has neither history nor
  membership list, and the request with the text \<open>hi\<close> ends with the manager unchanged:
  nothing is stored and nothing is sent, neither \<^verbatim>\<open>NEW_MESSAGE\<close> nor \<^verbatim>\<open>NOT_IN_ROOM\<close>.
\<close>

theorem send_after_rejoin_dropped:
  "reachable session_rejoined
   \<and> map_option current_room (users session_rejoined ''u1'') = Some (Some ''r1'')
   \<and> str_strip env_m1 (get req_hi ''text'' []) = ''hi''
   \<and> handle_send_message ''u1'' req_hi env_m1 session_rejoined = session_rejoined
   \<and> handle_message ''u1'' (Object req_hi) env_m1 session_rejoined = Inr session_rejoined
   \<and> websocket_endpoint ''u1'' (Decoded (Object req_hi)) env_m1 session_rejoined =
       session_rejoined"
proof -
  note v = session_rejoined_values
  let ?bo = "\<lparr>user_id = ''u1'', user_name = ''Bo'', user_language = ''vi'',
           user_room_id = Some ''r1''\<rparr>"
  have cr: "current_room ?bo = Some ''r1''"
    by (simp add: current_room_def truthy_def)
  have tr: "truthy (str_strip env_m1 (get req_hi ''text'' []))"
    by (simp add: v(4) truthy_def)
  have a: "handle_send_message ''u1'' req_hi env_m1 session_rejoined = session_rejoined"
    using handle_send_message_dropped[OF v(1) cr tr v(2) v(3)] .
  have t: "req_hi ''type'' = Some ''SEND_MESSAGE''" by (simp add: req_hi_def)
  have b: "dispatch ''u1'' req_hi env_m1 session_rejoined = session_rejoined"
    using a route_send[of req_hi "''u1''" env_m1 session_rejoined, OF t] by simp
  have c: "handle_message ''u1'' (Object req_hi) env_m1 session_rejoined = Inr session_rejoined"
    using b by (simp add: handle_message_def)
  have d: "websocket_endpoint ''u1'' (Decoded (Object req_hi)) env_m1 session_rejoined =
       session_rejoined"
    using b by (simp add: websocket_endpoint_object)
  have e: "map_option current_room (users session_rejoined ''u1'') = Some (Some ''r1'')"
    using cr by (simp add: v(1))
  show ?thesis using reachable_rejoined e v(4) a c d by blast
qed

end
